(* ===== verification/Fuzz_Base.thy ===== *)
theory Fuzz_Base
  imports Main "HOL-Library.Word"
begin

text \<open>
  The vocabulary the other theories share: Python exceptions as values, computations that
  may raise as sums, sequencing of such computations in Python's left-to-right order, and
  the generic list lemmas and simplification collections the component proofs use.
\<close>

section \<open>Exceptions and results\<close>

text \<open>
  The exceptions the modelled code raises or lets through, with their messages.
  \<open>SystemExit\<close> is what \<open>parser.error\<close> and \<open>raise SystemExit\<close> produce.
\<close>

datatype py_exn =
    ValueError string
  | OverflowError string
  | OSError string
  | TimeoutExpired string
  | ConfigError string
  | SystemExit int

type_synonym 'a result = "py_exn + 'a"

named_theorems result_simps \<open>evaluation of computations that may raise\<close>

definition bind_result :: "'a result \<Rightarrow> ('a \<Rightarrow> 'b result) \<Rightarrow> 'b result" where
  "bind_result m f = (case m of Inl e \<Rightarrow> Inl e | Inr x \<Rightarrow> f x)"

lemma bind_result_Inl [simp, result_simps]: "bind_result (Inl e) f = Inl e"
  by (simp add: bind_result_def)

lemma bind_result_Inr [simp, result_simps]: "bind_result (Inr x) f = f x"
  by (simp add: bind_result_def)

lemma bind_result_eq_Inr:
  "bind_result m f = Inr y \<longleftrightarrow> (\<exists>x. m = Inr x \<and> f x = Inr y)"
  by (cases m) auto

lemma bind_result_eq_Inl:
  "bind_result m f = Inl e \<longleftrightarrow> m = Inl e \<or> (\<exists>x. m = Inr x \<and> f x = Inl e)"
  by (cases m) auto

lemma bind_result_assoc:
  "bind_result (bind_result m f) g = bind_result m (\<lambda>x. bind_result (f x) g)"
  by (cases m) auto

definition succeeds :: "'a result \<Rightarrow> bool" where
  "succeeds r \<longleftrightarrow> (case r of Inl _ \<Rightarrow> False | Inr _ \<Rightarrow> True)"

lemma succeeds_simps [simp, result_simps]:
  "succeeds (Inr x)" "\<not> succeeds (Inl e)"
  by (simp_all add: succeeds_def)

lemma succeeds_iff: "succeeds r \<longleftrightarrow> (\<exists>x. r = Inr x)"
  by (cases r) auto

text \<open>Evaluate the items of an argument list in order; the first exception wins.\<close>

fun sequence :: "'a result list \<Rightarrow> 'a list result" where
  "sequence [] = Inr []"
| "sequence (m # ms) =
     bind_result m (\<lambda>x. bind_result (sequence ms) (\<lambda>xs. Inr (x # xs)))"

lemma sequence_map_Inr [simp]: "sequence (map Inr xs) = Inr xs"
  by (induction xs) auto

lemma sequence_Inr_iff: "sequence ms = Inr xs \<longleftrightarrow> ms = map Inr xs"
proof (induction ms arbitrary: xs)
  case Nil
  then show ?case by auto
next
  case (Cons m ms)
  then show ?case by (cases m; cases xs) (auto simp: bind_result_eq_Inr)
qed

section \<open>Text\<close>

text \<open>\<open>sep.join(xs)\<close>\<close>

fun join :: "string \<Rightarrow> string list \<Rightarrow> string" where
  "join sep [] = []"
| "join sep [x] = x"
| "join sep (x # y # ys) = x @ sep @ join sep (y # ys)"

section \<open>List lemmas\<close>

lemma drop_take_split:
  "i \<le> j \<Longrightarrow> drop i xs = take (j - i) (drop i xs) @ drop j xs"
  by (metis append_take_drop_id drop_drop le_add_diff_inverse2)

lemma list_all_concat_length:
  "list_all (\<lambda>x. length x \<le> k) xs \<Longrightarrow> length (concat xs) \<le> k * length xs"
  by (induction xs) auto

lemma same_length_append_eq:
  "length a = length c \<Longrightarrow> a @ b = c @ d \<longleftrightarrow> a = c \<and> b = d"
  by simp

end
