(* ===== verification/Py_Bytes.thy ===== *)
theory Py_Bytes
  imports Fuzz_Base
begin

text \<open>
  Python's \<open>bytes\<close>, \<open>int.to_bytes\<close>, \<open>int.from_bytes\<close>, byte literals,
  \<open>str.encode\<close> and slices, as far as the modelled code uses them. A byte is an
  \<open>8 word\<close>; a Python string is a \<open>string\<close>, so its code points are those
  below 256.
\<close>

unbundle bit_operations_syntax

type_synonym byte = "8 word"
type_synonym bytes = "byte list"

named_theorems bytes_simps \<open>lengths and round trips of byte strings\<close>

section \<open>Integers to bytes and back\<close>

text \<open>\<open>bytes([x])\<close>: one byte, or ValueError outside \<open>range(256)\<close>.\<close>

definition byte_of :: "int \<Rightarrow> bytes result" where
  "byte_of x = (if 0 \<le> x \<and> x < 256 then Inr [word_of_int x]
                else Inl (ValueError ''bytes must be in range(0, 256)''))"

fun be_encode :: "nat \<Rightarrow> nat \<Rightarrow> bytes" where
  "be_encode 0 v = []"
| "be_encode (Suc k) v = be_encode k (v div 256) @ [of_nat v]"

text \<open>\<open>x.to_bytes(k, "big")\<close>.\<close>

definition to_bytes_big :: "int \<Rightarrow> nat \<Rightarrow> bytes result" where
  "to_bytes_big x k =
     (if x < 0 then Inl (OverflowError ''can't convert negative int to unsigned'')
      else if x < 256 ^ k then Inr (be_encode k (nat x))
      else Inl (OverflowError ''int too big to convert''))"

text \<open>\<open>int.from_bytes(bs, "big")\<close> and \<open>"little"\<close>.\<close>

definition from_bytes_big :: "bytes \<Rightarrow> nat" where
  "from_bytes_big bs = foldl (\<lambda>acc b. acc * 256 + unat b) 0 bs"

definition from_bytes_little :: "bytes \<Rightarrow> nat" where
  "from_bytes_little bs = from_bytes_big (rev bs)"

lemma from_bytes_big_Nil [simp]: "from_bytes_big [] = 0"
  by (simp add: from_bytes_big_def)

lemma from_bytes_big_snoc [simp]:
  "from_bytes_big (bs @ [b]) = from_bytes_big bs * 256 + unat b"
  by (simp add: from_bytes_big_def)

lemma unat_byte_less [simp]: "unat (b :: byte) < 256"
  using unsigned_less [of b, where 'a = nat] by simp

lemma from_bytes_big_bound: "from_bytes_big bs < 256 ^ length bs"
proof (induction bs rule: rev_induct)
  case Nil
  then show ?case by simp
next
  case (snoc b bs)
  have "from_bytes_big bs * 256 + unat b < (from_bytes_big bs + 1) * 256"
    using unat_byte_less [of b] by (simp add: algebra_simps)
  also have "\<dots> \<le> 256 ^ length bs * 256"
    using snoc.IH by (intro mult_right_mono) simp_all
  finally show ?case by (simp add: mult.commute)
qed

lemma length_be_encode [simp, bytes_simps]: "length (be_encode k v) = k"
  by (induction k v rule: be_encode.induct) auto

lemma unat_of_nat_byte: "unat (of_nat v :: byte) = v mod 256"
  by (simp add: unat_of_nat)

lemma from_be_encode [simp, bytes_simps]:
  "v < 256 ^ k \<Longrightarrow> from_bytes_big (be_encode k v) = v"
proof (induction k v rule: be_encode.induct)
  case (1 v)
  then show ?case by simp
next
  case (2 k v)
  then have "v div 256 < 256 ^ k" by (simp add: less_mult_imp_div_less mult.commute)
  with "2.IH" show ?case by (simp add: unat_of_nat_byte)
qed

lemma be_encode_from [simp, bytes_simps]:
  "be_encode (length bs) (from_bytes_big bs) = bs"
proof (induction bs rule: rev_induct)
  case Nil
  then show ?case by simp
next
  case (snoc b bs)
  have "(from_bytes_big bs * 256 + unat b) div 256 = from_bytes_big bs"
    using unat_byte_less [of b] by simp
  moreover have "(of_nat (from_bytes_big bs * 256 + unat b) :: byte) = b"
  proof (rule word_unat_eq_iff [THEN iffD2])
    show "unat (of_nat (from_bytes_big bs * 256 + unat b) :: byte) = unat b"
      by (simp add: unat_of_nat_byte del: of_nat_add of_nat_mult)
  qed
  ultimately show ?case using snoc.IH by (simp del: of_nat_add of_nat_mult)
qed

lemma be_encode_inj:
  "v < 256 ^ k \<Longrightarrow> w < 256 ^ k \<Longrightarrow> be_encode k v = be_encode k w \<longleftrightarrow> v = w"
  by (metis from_be_encode)

lemma to_bytes_big_nat [result_simps]:
  "n < 256 ^ k \<Longrightarrow> to_bytes_big (int n) k = Inr (be_encode k n)"
proof -
  assume "n < 256 ^ k"
  then have "int n < int (256 ^ k)" by (simp only: of_nat_less_iff)
  then show ?thesis by (simp add: to_bytes_big_def)
qed

lemma to_bytes_big_Inr_iff:
  "to_bytes_big x k = Inr bs \<longleftrightarrow> 0 \<le> x \<and> x < 256 ^ k \<and> bs = be_encode k (nat x)"
  by (auto simp: to_bytes_big_def)

lemma to_bytes_big_length: "to_bytes_big x k = Inr bs \<Longrightarrow> length bs = k"
  by (auto simp: to_bytes_big_Inr_iff)

lemma to_bytes_big_roundtrip:
  "to_bytes_big x k = Inr bs \<Longrightarrow> int (from_bytes_big bs) = x"
  by (auto simp: to_bytes_big_Inr_iff nat_less_iff)

text \<open>
  \<open>bytes([x, y, ...])\<close> and the concatenation \<open>a + b + ...\<close> of pieces that may
  raise, evaluated from left to right.
\<close>

definition cat :: "bytes result list \<Rightarrow> bytes result" where
  "cat ms = bind_result (sequence ms) (\<lambda>xs. Inr (concat xs))"

definition bytes_of :: "int list \<Rightarrow> bytes result" where
  "bytes_of xs = cat (map byte_of xs)"

text \<open>\<open>len(bs).to_bytes(k, "big")\<close>.\<close>

definition len_bytes :: "nat \<Rightarrow> bytes \<Rightarrow> bytes result" where
  "len_bytes k bs = to_bytes_big (int (length bs)) k"

lemma cat_Nil [simp, result_simps]: "cat [] = Inr []"
  by (simp add: cat_def)

lemma cat_Cons [simp, result_simps]:
  "cat (m # ms) = bind_result m (\<lambda>x. bind_result (cat ms) (\<lambda>y. Inr (x @ y)))"
  by (cases m; cases "sequence ms") (simp_all add: cat_def)

lemma cat_Inr_iff: "cat ms = Inr bs \<longleftrightarrow> (\<exists>xs. ms = map Inr xs \<and> bs = concat xs)"
  by (auto simp: cat_def bind_result_eq_Inr sequence_Inr_iff)

lemma byte_of_Inr_iff: "byte_of x = Inr b \<longleftrightarrow> 0 \<le> x \<and> x < 256 \<and> b = [word_of_int x]"
  by (auto simp: byte_of_def)

lemma byte_of_nat [result_simps]: "n < 256 \<Longrightarrow> byte_of (int n) = Inr [of_nat n]"
  by (simp add: byte_of_def)

lemma byte_of_numeral [result_simps]:
  "byte_of 0 = Inr [0]" "byte_of 1 = Inr [1]"
  "(numeral n :: int) < 256 \<Longrightarrow> byte_of (numeral n) = Inr [numeral n]"
  by (simp_all add: byte_of_def)

lemma bytes_of_simps [result_simps]:
  "bytes_of [] = Inr []"
  "bytes_of (x # xs) = bind_result (byte_of x) (\<lambda>b. bind_result (bytes_of xs) (\<lambda>bs. Inr (b @ bs)))"
  by (simp_all add: bytes_of_def)

lemma len_bytes_Inr [result_simps]:
  "length bs < 256 ^ k \<Longrightarrow> len_bytes k bs = Inr (be_encode k (length bs))"
  by (simp add: len_bytes_def to_bytes_big_nat)

lemma len_bytes_Inr_iff:
  "len_bytes k bs = Inr x \<longleftrightarrow> length bs < 256 ^ k \<and> x = be_encode k (length bs)"
proof (cases "length bs < 256 ^ k")
  case True
  then show ?thesis by (auto simp: len_bytes_Inr)
next
  case False
  then have "\<not> int (length bs) < 256 ^ k"
    by (metis of_nat_less_iff of_nat_numeral of_nat_power)
  with False show ?thesis by (simp add: len_bytes_def to_bytes_big_def)
qed

section \<open>Text to bytes\<close>

text \<open>A bytes literal \<open>b"..."\<close>: each character of the literal is one byte.\<close>

definition lit :: "string \<Rightarrow> bytes" where
  "lit s = map of_char s"

lemma length_lit [simp, bytes_simps]: "length (lit s) = length s"
  by (simp add: lit_def)

lemma lit_append [simp]: "lit (s @ t) = lit s @ lit t"
  by (simp add: lit_def)

lemma lit_eq_Nil [simp]: "lit s = [] \<longleftrightarrow> s = []"
  by (simp add: lit_def)

text \<open>\<open>str.encode()\<close>: UTF-8 of the code points below 256.\<close>

definition utf8_char :: "char \<Rightarrow> bytes" where
  "utf8_char c = (let n = (of_char c :: nat) in
     if n < 128 then [of_nat n] else [of_nat (192 + n div 64), of_nat (128 + n mod 64)])"

definition encode :: "string \<Rightarrow> bytes" where
  "encode s = concat (map utf8_char s)"

lemma encode_append [simp]: "encode (s @ t) = encode s @ encode t"
  by (simp add: encode_def)

lemma encode_eq_Nil [simp]: "encode s = [] \<longleftrightarrow> s = []"
  by (cases s) (auto simp: encode_def utf8_char_def Let_def)

lemma length_encode_bounds: "length s \<le> length (encode s) \<and> length (encode s) \<le> 2 * length s"
  by (induction s) (auto simp: encode_def utf8_char_def Let_def)

definition ascii :: "string \<Rightarrow> bool" where
  "ascii s \<longleftrightarrow> list_all (\<lambda>c. (of_char c :: nat) < 128) s"

lemma encode_ascii: "ascii s \<Longrightarrow> encode s = lit s"
  by (induction s) (auto simp: ascii_def encode_def lit_def utf8_char_def of_nat_of_char)

section \<open>Slices\<close>

text \<open>
  \<open>xs[i:j]\<close> for a sequence, with Python's treatment of negative and of
  out-of-range bounds.
\<close>

definition slice_bound :: "nat \<Rightarrow> int \<Rightarrow> nat" where
  "slice_bound n i = nat (if i < 0 then max 0 (int n + i) else min (int n) i)"

definition py_slice :: "'a list \<Rightarrow> int \<Rightarrow> int \<Rightarrow> 'a list" where
  "py_slice xs i j =
     (let a = slice_bound (length xs) i; b = slice_bound (length xs) j
      in take (b - a) (drop a xs))"

definition slice_from :: "'a list \<Rightarrow> int \<Rightarrow> 'a list" where
  "slice_from xs i = drop (slice_bound (length xs) i) xs"

definition slice_to :: "'a list \<Rightarrow> int \<Rightarrow> 'a list" where
  "slice_to xs j = take (slice_bound (length xs) j) xs"

lemma py_slice_nat [simp]:
  "py_slice xs (int a) (int b) = take (b - a) (drop a xs)"
proof -
  have "take (min (length xs) b - min (length xs) a) (drop (min (length xs) a) xs)
      = take (b - a) (drop a xs)"
    by (cases "a \<le> length xs"; cases "b \<le> length xs") (auto simp: min_def)
  then show ?thesis
    by (simp add: py_slice_def slice_bound_def Let_def flip: of_nat_min)
qed

lemma slice_split: "slice_to xs i @ slice_from xs i = xs"
  by (simp add: slice_to_def slice_from_def)

end
