(* ===== verification/Prefix_Codec.thy ===== *)
theory Prefix_Codec
  imports Fuzz_Base
begin

text \<open>
  The contract shared by every length-prefixed format of the program (packet frames,
  HTTP/2 frames, TLS extensions, ALPN names): a decoder that takes one item off the front
  of a byte string. What follows from it for a whole stream of items is proved here once;
  each format interprets the contract in its own theory.
\<close>

section \<open>Decoding a whole stream\<close>

function decode_all :: "('b list \<Rightarrow> ('a \<times> 'b list) option) \<Rightarrow> 'b list \<Rightarrow> 'a list option" where
  "decode_all dec bs =
     (if bs = [] then Some []
      else case dec bs of
             None \<Rightarrow> None
           | Some (x, rest) \<Rightarrow>
               if length rest < length bs then map_option (Cons x) (decode_all dec rest)
               else None)"
  by pat_completeness auto
termination
  by (relation "measure (\<lambda>(dec, bs). length bs)") auto

declare decode_all.simps [simp del]

lemma decode_all_Nil [simp]: "decode_all dec [] = Some []"
  by (subst decode_all.simps) simp

section \<open>The contract\<close>

locale prefix_codec =
  fixes enc :: "'a \<Rightarrow> 'b list"
    and dec :: "'b list \<Rightarrow> ('a \<times> 'b list) option"
    and valid :: "'a \<Rightarrow> bool"
  assumes dec_enc: "valid x \<Longrightarrow> dec (enc x @ rest) = Some (x, rest)"
    and enc_nonempty: "valid x \<Longrightarrow> enc x \<noteq> []"
begin

lemma decode_all_enc:
  "valid x \<Longrightarrow> decode_all dec (enc x @ rest) = map_option (Cons x) (decode_all dec rest)"
  by (subst decode_all.simps) (simp add: dec_enc enc_nonempty)

lemma decode_all_concat:
  "list_all valid xs \<Longrightarrow> decode_all dec (concat (map enc xs)) = Some xs"
  by (induction xs) (simp_all add: decode_all_enc)

lemma uniquely_decodable:
  assumes "list_all valid xs" and "list_all valid ys"
    and "concat (map enc xs) = concat (map enc ys)"
  shows "xs = ys"
  using assms by (metis decode_all_concat option.inject)

lemma prefix_free:
  assumes "valid x" and "valid y" and "enc x @ r = enc y @ s"
  shows "x = y \<and> r = s"
  using assms by (metis dec_enc option.inject prod.inject)

lemma enc_inj: "valid x \<Longrightarrow> valid y \<Longrightarrow> enc x = enc y \<Longrightarrow> x = y"
  by (metis prefix_free append_Nil2)

end

text \<open>A canonical codec: whatever decodes is the encoding of what it decodes to.\<close>

locale canonical_codec = prefix_codec +
  assumes enc_dec: "dec bs = Some (x, rest) \<Longrightarrow> valid x \<and> bs = enc x @ rest"
begin

lemma decode_all_sound:
  "decode_all dec bs = Some xs \<Longrightarrow> list_all valid xs \<and> concat (map enc xs) = bs"
proof (induction bs arbitrary: xs rule: measure_induct_rule [of length])
  case (less bs)
  show ?case
  proof (cases "bs = []")
    case True
    with less.prems show ?thesis by simp
  next
    case False
    with less.prems obtain x rest ys where d: "dec bs = Some (x, rest)"
      and l: "length rest < length bs" and r: "decode_all dec rest = Some ys"
      and xs: "xs = x # ys"
      by (auto simp: decode_all.simps [of _ bs] split: option.splits if_splits)
    from less.IH [OF l r] enc_dec [OF d] xs show ?thesis by simp
  qed
qed

lemma decode_all_iff:
  "decode_all dec bs = Some xs \<longleftrightarrow> list_all valid xs \<and> concat (map enc xs) = bs"
  using decode_all_sound decode_all_concat by blast

end

end
