(* ===== verification/Seed_Framing.thy ===== *)
theory Seed_Framing
  imports Py_Bytes Prefix_Codec
begin

text \<open>
  The generic builders of \<open>generate-interesting-corpus.py\<close>: \<open>request\<close>,
  \<open>raw\<close> and \<open>multipacket\<close>, with the frame format as a canonical prefix codec.
\<close>

section \<open>HTTP requests\<close>

text \<open>
  \<open>request(method, target, headers, body, version)\<close>. The body may be text, which is
  encoded, or bytes.
\<close>

datatype req_body = Text string | Octets bytes

definition crlf :: string where
  "crlf = [CHR 0x0D, CHR 0x0A]"

definition body_bytes :: "req_body \<Rightarrow> bytes" where
  "body_bytes b = (case b of Text s \<Rightarrow> encode s | Octets bs \<Rightarrow> bs)"

definition request_v :: "string \<Rightarrow> string \<Rightarrow> string list \<Rightarrow> req_body \<Rightarrow> string \<Rightarrow> bytes" where
  "request_v meth target headers body version =
     (let payload = body_bytes body;
          lines = [meth @ '' '' @ target @ '' '' @ version, ''Host: localhost''] @ headers
      in encode (join crlf lines @ crlf @ crlf) @ payload)"

text \<open>The calls of the source that leave \<open>version\<close> at its default.\<close>

abbreviation request :: "string \<Rightarrow> string \<Rightarrow> string list \<Rightarrow> req_body \<Rightarrow> bytes" where
  "request meth target headers body \<equiv> request_v meth target headers body ''HTTP/1.1''"

abbreviation no_body :: req_body where
  "no_body \<equiv> Octets []"

section \<open>Inputs of one packet\<close>

definition raw :: "bytes \<Rightarrow> int \<Rightarrow> bytes result" where
  "raw packet flags = bind_result (byte_of flags) (\<lambda>b. Inr (b @ packet))"

section \<open>Inputs of several packets\<close>

fun multipacket_loop :: "bytes \<Rightarrow> bytes list \<Rightarrow> bytes result" where
  "multipacket_loop res [] = Inr res"
| "multipacket_loop res (packet # packets) =
     (if packet = [] \<or> length packet > 0xFFFF
      then Inl (ValueError ''multipacket frames must contain 1 through 65535 bytes'')
      else bind_result (to_bytes_big (int (length packet)) 2)
        (\<lambda>len. multipacket_loop ((res @ len) @ packet) packets))"

definition multipacket :: "bytes list \<Rightarrow> int \<Rightarrow> bytes result" where
  "multipacket packets flags =
     bind_result (byte_of flags) (\<lambda>start.
     bind_result (multipacket_loop start packets) (\<lambda>res.
       if packets = [] then Inl (ValueError ''multipacket input needs at least one packet'')
       else Inr res))"

section \<open>The frame format\<close>

text \<open>One frame: a big-endian 16-bit length that is not zero, then that many bytes.\<close>

definition frame_ok :: "bytes \<Rightarrow> bool" where
  "frame_ok p \<longleftrightarrow> p \<noteq> [] \<and> length p \<le> 65535"

definition frame :: "bytes \<Rightarrow> bytes" where
  "frame p = be_encode 2 (length p) @ p"

definition unframe :: "bytes \<Rightarrow> (bytes \<times> bytes) option" where
  "unframe bs =
     (if length bs < 2 then None
      else let n = from_bytes_big (take 2 bs); rest = drop 2 bs
           in if n = 0 \<or> length rest < n then None else Some (take n rest, drop n rest))"

lemma length_frame [simp, bytes_simps]: "length (frame p) = 2 + length p"
  by (simp add: frame_def)

lemma frame_sound:
  assumes "unframe bs = Some (p, rest)"
  shows "frame_ok p \<and> bs = frame p @ rest"
proof -
  let ?n = "from_bytes_big (take 2 bs)"
  from assms have l: "2 \<le> length bs" and n: "?n \<noteq> 0" "?n \<le> length (drop 2 bs)"
    and p: "p = take ?n (drop 2 bs)" and r: "rest = drop ?n (drop 2 bs)"
    by (auto simp: unframe_def Let_def split: if_splits)
  have l2: "length (take 2 bs) = 2" using l by simp
  have "?n < 65536" using from_bytes_big_bound [of "take 2 bs"] l2 by simp
  moreover have "length p = ?n" using n(2) p by simp
  ultimately have "frame_ok p" and "be_encode 2 (length p) = take 2 bs"
    using n(1) be_encode_from [of "take 2 bs"] l2 by (auto simp: frame_ok_def)
  moreover have "bs = take 2 bs @ p @ rest"
    using p r by (simp only: append_take_drop_id)
  ultimately show ?thesis by (simp add: frame_def)
qed

lemma unframe_frame: "frame_ok p \<Longrightarrow> unframe (frame p @ rest) = Some (p, rest)"
  by (simp add: unframe_def frame_def frame_ok_def Let_def)

interpretation pkt: canonical_codec frame unframe frame_ok
  by unfold_locales
    (use unframe_frame frame_sound in \<open>auto simp: frame_def frame_ok_def\<close>)

section \<open>What the builders produce\<close>

lemma multipacket_loop_ok:
  "list_all frame_ok ps \<Longrightarrow> multipacket_loop res ps = Inr (res @ concat (map frame ps))"
  by (induction ps arbitrary: res)
    (auto simp: frame_ok_def frame_def to_bytes_big_nat)

lemma multipacket_loop_Inr_iff:
  "multipacket_loop res ps = Inr bs \<longleftrightarrow>
     list_all frame_ok ps \<and> bs = res @ concat (map frame ps)"
proof (induction ps arbitrary: res)
  case Nil
  then show ?case by auto
next
  case (Cons p ps)
  show ?case
  proof (cases "frame_ok p")
    case True
    then show ?thesis
      using Cons.IH by (auto simp: frame_ok_def frame_def to_bytes_big_nat)
  next
    case False
    then show ?thesis by (auto simp: frame_ok_def)
  qed
qed

lemma multipacket_Inr_iff:
  "multipacket ps fl = Inr bs \<longleftrightarrow>
     0 \<le> fl \<and> fl < 256 \<and> ps \<noteq> [] \<and> list_all frame_ok ps \<and>
     bs = word_of_int fl # concat (map frame ps)"
  by (auto simp: multipacket_def bind_result_eq_Inr byte_of_Inr_iff multipacket_loop_Inr_iff
      split: if_splits)

lemma raw_Inr_iff:
  "raw p fl = Inr bs \<longleftrightarrow> 0 \<le> fl \<and> fl < 256 \<and> bs = word_of_int fl # p"
  by (auto simp: raw_def bind_result_eq_Inr byte_of_Inr_iff)

end
