(* ===== verification/Replay_Input.thy ===== *)
theory Replay_Input
  imports Seed_Framing
begin

text \<open>
  Decoding one fuzzer input: \<open>parse_fuzzer_input\<close> of \<open>send-test-case.py\<close> and
  \<open>decodeFuzzInput\<close> of \<open>fuzzer.c\<close>, which must agree.
\<close>

section \<open>The replay tool's decoder\<close>

definition HTTP_PRELUDE_FLAG :: int where "HTTP_PRELUDE_FLAG = 0x01"
definition MULTIPACKET_FLAG :: int where "MULTIPACKET_FLAG = 0x02"
definition WAIT_FOR_RESPONSE_FLAG :: int where "WAIT_FOR_RESPONSE_FLAG = 0x04"
definition MAX_PACKET_COUNT :: nat where "MAX_PACKET_COUNT = 64"

lemmas flag_defs =
  HTTP_PRELUDE_FLAG_def MULTIPACKET_FLAG_def WAIT_FOR_RESPONSE_FLAG_def MAX_PACKET_COUNT_def

record fuzzer_input =
  flags :: int
  packets :: "bytes list"

definition multipacket_flag :: "fuzzer_input \<Rightarrow> bool" where
  "multipacket_flag fi \<longleftrightarrow> flags fi AND MULTIPACKET_FLAG \<noteq> 0"

text \<open>The loop of \<open>parse_fuzzer_input\<close>, over the offset and the packets so far.\<close>

function parse_packets :: "bytes \<Rightarrow> nat \<Rightarrow> bytes list \<Rightarrow> bytes list result" where
  "parse_packets data offset pkts =
     (if offset < length data then
        if length data - offset < 2 then Inl (ValueError ''truncated packet length'')
        else
          let packet_length = from_bytes_big (take 2 (drop offset data));
              start = offset + 2;
              fin = start + packet_length
          in if packet_length = 0 \<or> fin > length data
             then Inl (ValueError ''invalid packet length'')
             else
               let pkts' = pkts @ [take (fin - start) (drop start data)]
               in if length pkts' > MAX_PACKET_COUNT
                  then Inl (ValueError ''fuzzer input contains more than 64 packets'')
                  else parse_packets data fin pkts'
      else Inr pkts)"
  by pat_completeness auto
termination
  by (relation "measure (\<lambda>(data, offset, pkts). length data - offset)") auto

declare parse_packets.simps [simp del]

definition parse_fuzzer_input :: "bytes \<Rightarrow> fuzzer_input result" where
  "parse_fuzzer_input data =
     (case data of
        [] \<Rightarrow> Inl (ValueError ''empty fuzzer input'')
      | b # rest \<Rightarrow>
          let fl = uint b in
          if fl AND MULTIPACKET_FLAG = 0 then Inr \<lparr>flags = fl, packets = [rest]\<rparr>
          else bind_result (parse_packets data 1 []) (\<lambda>pkts.
            if pkts = [] then
              Inl (ValueError ''multipacket fuzzer input contains no packets'')
            else Inr \<lparr>flags = fl, packets = pkts\<rparr>))"

section \<open>The loop reads the frame format\<close>

lemma parse_packets_done [simp]: "length data \<le> offset \<Longrightarrow> parse_packets data offset pkts = Inr pkts"
  by (subst parse_packets.simps) simp

text \<open>One turn of the loop is one \<open>unframe\<close> of what is left.\<close>

lemma parse_packets_step:
  assumes "offset < length data"
  shows "parse_packets data offset pkts =
    (case unframe (drop offset data) of
       None \<Rightarrow> Inl (ValueError (if length data - offset < 2 then ''truncated packet length''
                                else ''invalid packet length''))
     | Some (p, rest) \<Rightarrow>
         if length pkts < 64 then parse_packets data (offset + length (frame p)) (pkts @ [p])
         else Inl (ValueError ''fuzzer input contains more than 64 packets''))"
proof -
  let ?n = "from_bytes_big (take 2 (drop offset data))"
  show ?thesis
  proof (cases "length data - offset < 2")
    case True
    with assms show ?thesis by (subst parse_packets.simps) (simp add: unframe_def)
  next
    case False
    then have rest: "length (drop 2 (drop offset data)) < ?n \<longleftrightarrow> length data < offset + 2 + ?n"
      by auto
    show ?thesis
    proof (cases "?n = 0 \<or> length data < offset + 2 + ?n")
      case True
      with False assms rest show ?thesis
        by (subst parse_packets.simps) (auto simp: unframe_def Let_def)
    next
      case ok: False
      have u: "unframe (drop offset data) =
          Some (take ?n (drop (offset + 2) data), drop ?n (drop 2 (drop offset data)))"
        using ok False rest by (simp add: unframe_def Let_def add.commute)
      have "length (take ?n (drop (offset + 2) data)) = ?n" using ok by (simp add: min_def) arith
      with ok False assms show ?thesis
        by (subst parse_packets.simps, subst u)
          (simp add: Let_def MAX_PACKET_COUNT_def add.assoc)
    qed
  qed
qed

lemma parse_packets_frames:
  assumes "list_all frame_ok ps" and "length pkts + length ps \<le> 64"
    and "drop offset data = concat (map frame ps)" and "offset \<le> length data"
  shows "parse_packets data offset pkts = Inr (pkts @ ps)"
  using assms
proof (induction ps arbitrary: offset pkts)
  case Nil
  then show ?case by simp
next
  case (Cons p ps)
  have d: "drop offset data = frame p @ concat (map frame ps)" using Cons.prems by simp
  then have u: "unframe (drop offset data) = Some (p, concat (map frame ps))"
    using Cons.prems(1) by (simp add: unframe_frame)
  have len: "length data - offset = length (frame p) + length (concat (map frame ps))"
    using arg_cong [OF d, of length] by simp
  then have off: "offset < length data" by simp
  have "drop (length (frame p)) (drop offset data) = concat (map frame ps)"
    unfolding d by simp
  then have rest: "drop (offset + length (frame p)) data = concat (map frame ps)"
    by (simp add: add.commute)
  have "parse_packets data (offset + length (frame p)) (pkts @ [p]) = Inr ((pkts @ [p]) @ ps)"
    using Cons.prems(1,2) rest len off by (intro Cons.IH) auto
  then show ?case using Cons.prems(2) off u by (simp add: parse_packets_step)
qed

lemma parse_packets_sound:
  assumes "parse_packets data offset pkts = Inr res" and "length pkts \<le> 64"
  shows "\<exists>ps. res = pkts @ ps \<and> list_all frame_ok ps \<and> length res \<le> 64 \<and>
    drop offset data = concat (map frame ps)"
  using assms
proof (induction "length data - offset" arbitrary: offset pkts rule: less_induct)
  case less
  show ?case
  proof (cases "offset < length data")
    case False
    with less.prems show ?thesis by (intro exI [of _ "[]"]) simp
  next
    case True
    with less.prems(1) obtain p rest where u: "unframe (drop offset data) = Some (p, rest)"
      and l: "length pkts < 64"
      and n: "parse_packets data (offset + length (frame p)) (pkts @ [p]) = Inr res"
      by (auto simp: parse_packets_step split: option.splits if_splits)
    from frame_sound [OF u] have p: "frame_ok p" and d: "drop offset data = frame p @ rest"
      by simp_all
    have "\<exists>ps. res = (pkts @ [p]) @ ps \<and> list_all frame_ok ps \<and> length res \<le> 64 \<and>
        drop (offset + length (frame p)) data = concat (map frame ps)"
      using True l n by (intro less.hyps) auto
    moreover have "drop (offset + length (frame p)) data = rest"
      using arg_cong [OF d, of "drop (length (frame p))"] by (simp add: add.commute)
    ultimately obtain ps where "res = pkts @ p # ps" "list_all frame_ok ps" "length res \<le> 64"
      "rest = concat (map frame ps)" by auto
    with p d show ?thesis by (intro exI [of _ "p # ps"]) simp
  qed
qed

text \<open>What the decoder accepts, and what it returns then.\<close>

lemma parse_packets_start_iff:
  "parse_packets (b # rest) 1 [] = Inr ps \<longleftrightarrow>
     list_all frame_ok ps \<and> length ps \<le> 64 \<and> rest = concat (map frame ps)"
proof
  assume "parse_packets (b # rest) 1 [] = Inr ps"
  from parse_packets_sound [OF this] show
    "list_all frame_ok ps \<and> length ps \<le> 64 \<and> rest = concat (map frame ps)" by simp
next
  assume "list_all frame_ok ps \<and> length ps \<le> 64 \<and> rest = concat (map frame ps)"
  then show "parse_packets (b # rest) 1 [] = Inr ps"
    using parse_packets_frames [of ps "[]" 1 "b # rest"] by simp
qed

lemma parse_single:
  "uint b AND 2 = 0 \<Longrightarrow>
   parse_fuzzer_input (b # rest) = Inr \<lparr>flags = uint b, packets = [rest]\<rparr>"
  by (simp add: parse_fuzzer_input_def MULTIPACKET_FLAG_def)

lemma parse_multi_iff:
  assumes "uint b AND 2 \<noteq> 0"
  shows "parse_fuzzer_input (b # rest) = Inr fi \<longleftrightarrow> flags fi = uint b \<and> packets fi \<noteq> [] \<and>
    list_all frame_ok (packets fi) \<and> length (packets fi) \<le> 64 \<and>
    rest = concat (map frame (packets fi))"
proof (cases fi)
  case (fields fl ps)
  have "parse_fuzzer_input (b # rest) = Inr fi \<longleftrightarrow>
      fl = uint b \<and> ps \<noteq> [] \<and> parse_packets (b # rest) 1 [] = Inr ps"
    using assms fields
    by (cases "parse_packets (b # rest) 1 []") (auto simp: parse_fuzzer_input_def MULTIPACKET_FLAG_def)
  then show ?thesis
    unfolding parse_packets_start_iff fields by simp
qed

section \<open>Round trips with the generator\<close>

lemma uint_byte: "0 \<le> fl \<Longrightarrow> fl < 256 \<Longrightarrow> uint (word_of_int fl :: byte) = fl"
  by (simp add: uint_word_of_int)

lemma parse_raw:
  "raw p fl = Inr d \<Longrightarrow> fl AND 2 = 0 \<Longrightarrow> parse_fuzzer_input d = Inr \<lparr>flags = fl, packets = [p]\<rparr>"
  by (auto simp: raw_Inr_iff parse_single uint_byte)

lemma parse_multipacket:
  "multipacket ps fl = Inr d \<Longrightarrow> fl AND 2 \<noteq> 0 \<Longrightarrow> length ps \<le> 64 \<Longrightarrow>
   parse_fuzzer_input d = Inr \<lparr>flags = fl, packets = ps\<rparr>"
  unfolding multipacket_Inr_iff by (auto simp: parse_multi_iff uint_byte)

lemma parse_fuzzer_input_Nil [simp]: "parse_fuzzer_input [] = Inl (ValueError ''empty fuzzer input'')"
  by (simp add: parse_fuzzer_input_def)

lemma parse_flags_range:
  "parse_fuzzer_input d = Inr fi \<Longrightarrow> 0 \<le> flags fi \<and> flags fi < 256"
proof (cases d)
  case (Cons b rest)
  assume "parse_fuzzer_input d = Inr fi"
  with Cons have "flags fi = uint b"
    by (cases "uint b AND 2 = 0") (auto simp: parse_single parse_multi_iff)
  then show ?thesis using unsigned_less [of b, where 'a = int] by simp
qed simp

lemma multipacket_parse:
  assumes "parse_fuzzer_input d = Inr fi" and "flags fi AND 2 \<noteq> 0"
  shows "multipacket (packets fi) (flags fi) = Inr d"
proof (cases d)
  case Nil
  with assms show ?thesis by simp
next
  case (Cons b rest)
  with assms have "uint b AND 2 \<noteq> 0"
    by (cases "uint b AND 2 = 0") (auto simp: parse_single)
  with assms Cons parse_flags_range [OF assms(1)] show ?thesis
    by (simp add: multipacket_Inr_iff parse_multi_iff)
qed

lemma raw_parse:
  assumes "parse_fuzzer_input d = Inr fi" and "flags fi AND 2 = 0"
  shows "\<exists>p. packets fi = [p] \<and> raw p (flags fi) = Inr d"
proof (cases d)
  case Nil
  with assms show ?thesis by simp
next
  case (Cons b rest)
  with assms have "uint b AND 2 = 0"
    by (cases "uint b AND 2 = 0") (auto simp: parse_multi_iff)
  with assms Cons parse_flags_range [OF assms(1)] show ?thesis
    by (auto simp: raw_Inr_iff parse_single)
qed

section \<open>Properties\<close>

text \<open>
  C1: the replay tool accepts exactly what the generator can write, and reads back
  the flags and packets that were written: without the multipacket flag the file is
  \<open>raw(packet, flags)\<close>, with it \<open>multipacket(*packets, flags=flags)\<close> of at most 64
  packets. Both directions, for every byte string.
\<close>

theorem parse_inverts_generator:
  "parse_fuzzer_input d = Inr fi \<longleftrightarrow>
     (if flags fi AND MULTIPACKET_FLAG = 0
      then \<exists>p. packets fi = [p] \<and> raw p (flags fi) = Inr d
      else length (packets fi) \<le> MAX_PACKET_COUNT \<and> multipacket (packets fi) (flags fi) = Inr d)"
    (is "?parse \<longleftrightarrow> ?gen")
proof
  assume p: ?parse
  show ?gen
  proof (cases "flags fi AND 2 = 0")
    case True
    with raw_parse [OF p] show ?thesis by (simp add: flag_defs)
  next
    case False
    obtain b rest where d: "d = b # rest" using p by (cases d) simp_all
    with p False have "uint b AND 2 \<noteq> 0" by (cases "uint b AND 2 = 0") (auto simp: parse_single)
    with p d have "length (packets fi) \<le> 64" by (simp add: parse_multi_iff)
    with multipacket_parse [OF p False] False show ?thesis by (simp add: flag_defs)
  qed
next
  assume ?gen
  then show ?parse
    using parse_raw [of _ "flags fi" d] parse_multipacket [of "packets fi" "flags fi" d]
    by (cases fi) (auto simp: flag_defs split: if_splits)
qed

text \<open>
  C24: the bytes of a multipacket input after the flag byte are a stream of frames that
  decodes in one way only: a byte string is the output of \<open>multipacket\<close> for a list of
  packets exactly when unframing it to the end yields that list, which is not empty.
\<close>

theorem multipacket_unique_framing:
  "multipacket ps fl = Inr d \<longleftrightarrow>
     (case d of [] \<Rightarrow> False
      | b # rest \<Rightarrow> uint b = fl \<and> ps \<noteq> [] \<and> decode_all unframe rest = Some ps)"
proof (cases d)
  case Nil
  then show ?thesis by (simp add: multipacket_Inr_iff)
next
  case (Cons b rest)
  have "0 \<le> fl \<and> fl < 256 \<and> b = word_of_int fl \<longleftrightarrow> uint b = fl"
    using unsigned_less [of b, where 'a = int] by (auto simp: uint_byte)
  then show ?thesis
    using Cons by (auto simp: multipacket_Inr_iff pkt.decode_all_iff)
qed

text \<open>
  C39: the generator has no limit on the number of packets, the decoder has: of the inputs
  with n + 1 one-byte packets all are built, and those with at most 64 packets are the
  ones the decoder accepts.
\<close>

theorem packet_limit_only_in_decoder:
  "\<exists>d. multipacket (replicate (Suc n) [0x41]) MULTIPACKET_FLAG = Inr d \<and>
     (succeeds (parse_fuzzer_input d) \<longleftrightarrow> Suc n \<le> MAX_PACKET_COUNT)"
proof -
  let ?ps = "replicate (Suc n) [0x41 :: byte]"
  let ?d = "2 # concat (map frame ?ps)"
  have ok: "list_all frame_ok ?ps" by (simp add: list_all_iff frame_ok_def)
  then have m: "multipacket ?ps 2 = Inr ?d" by (simp add: multipacket_Inr_iff)
  have u: "uint (2 :: byte) AND 2 \<noteq> 0" by simp
  have "succeeds (parse_fuzzer_input ?d) \<longleftrightarrow> Suc n \<le> 64"
  proof
    assume "succeeds (parse_fuzzer_input ?d)"
    then obtain fi where "parse_fuzzer_input ?d = Inr fi" by (auto simp: succeeds_iff)
    then have "list_all frame_ok (packets fi)" "length (packets fi) \<le> 64"
      "concat (map frame ?ps) = concat (map frame (packets fi))"
      unfolding parse_multi_iff [OF u] by blast+
    moreover from this have "packets fi = ?ps" using ok by (metis pkt.uniquely_decodable)
    ultimately show "Suc n \<le> 64" by simp
  next
    assume "Suc n \<le> 64"
    with parse_multipacket [OF m] show "succeeds (parse_fuzzer_input ?d)" by simp
  qed
  with m show ?thesis unfolding flag_defs by blast
qed

end
