(* ===== verification/C_Decoder.thy ===== *)
theory C_Decoder
  imports Replay_Input
begin

text \<open>
  \<open>decodeFuzzInput\<close> of \<open>fuzzer.c\<close>, which the in-server fuzzer runs on the same
  files the replay tool reads. Sizes and offsets are 64-bit machine words, so every
  subtraction and addition of the C code is the wrapping one; a packet view is the offset
  and size the C struct holds as a pointer and a size.
\<close>

type_synonym size_t = "64 word"

record fuzz_packet_view =
  view_data :: size_t
  view_size :: size_t

text \<open>
  \<open>struct fuzzInput\<close>: the flag byte and the first \<open>packetCount\<close> entries of the
  view array, so \<open>packetCount\<close> is the length of the list.
\<close>

record fuzz_input =
  in_flags :: byte
  in_packets :: "fuzz_packet_view list"

definition C_MULTIPACKET_FLAG :: byte where "C_MULTIPACKET_FLAG = 0x02"
definition C_MAX_PACKET_COUNT :: nat where "C_MAX_PACKET_COUNT = 64"

lemma c_advance:
  fixes off sz p :: size_t
  assumes "off < sz" and "\<not> sz - off < 2" and "\<not> sz - (off + 2) < p"
  shows "unat (off + 2 + p) = unat off + 2 + unat p"
    and "unat (off + 2) = unat off + 2"
    and "unat off + 2 + unat p \<le> unat sz"
proof -
  have "unat (sz - off) = unat sz - unat off"
    using assms(1) by (simp add: unat_sub)
  with assms(2) have l: "unat off + 2 \<le> unat sz"
    by (simp add: word_less_nat_alt)
  then have "unat off + unat (2 :: size_t) < 2 ^ LENGTH(64)"
    using unsigned_less [of sz, where 'a = nat] by simp
  then show a: "unat (off + 2) = unat off + 2"
    by (subst unat_add_lem [THEN iffD1]) simp_all
  then have "unat (sz - (off + 2)) = unat sz - (unat off + 2)"
    using l by (subst unat_sub) (simp_all add: word_le_nat_alt)
  with assms(3) show b: "unat off + 2 + unat p \<le> unat sz"
    using l by (simp add: word_less_nat_alt)
  then have "unat (off + 2) + unat p < 2 ^ LENGTH(64)"
    using a unsigned_less [of sz, where 'a = nat] by simp
  then show "unat (off + 2 + p) = unat off + 2 + unat p"
    using a by (subst unat_add_lem [THEN iffD1]) simp_all
qed

text \<open>\<open>((size_t)data[offset] << 8) | data[offset + 1]\<close>\<close>

definition c_packet_size :: "bytes \<Rightarrow> size_t \<Rightarrow> size_t" where
  "c_packet_size data off =
     push_bit 8 (ucast (data ! unat off)) OR ucast (data ! unat (off + 1))"

function c_decode_loop ::
  "bytes \<Rightarrow> size_t \<Rightarrow> size_t \<Rightarrow> fuzz_packet_view list \<Rightarrow> fuzz_packet_view list option" where
  "c_decode_loop data sz off views =
     (if off < sz then
        if sz - off < 2 \<or> length views = C_MAX_PACKET_COUNT then None
        else
          let packetSize = c_packet_size data off; start = off + 2
          in if packetSize = 0 \<or> packetSize > sz - start then None
             else c_decode_loop data sz (start + packetSize)
               (views @ [\<lparr>view_data = start, view_size = packetSize\<rparr>])
      else Some views)"
  by pat_completeness auto
termination
proof (relation "measure (\<lambda>(data, sz, off, views). unat sz - unat off)", goal_cases)
  case 1
  then show ?case by simp
next
  case (2 data sz off views x xa)
  then have "unat (off + 2 + x) = unat off + 2 + unat x"
    and "unat off + 2 + unat x \<le> unat sz"
    using c_advance [of off sz x] by (simp_all add: not_less)
  then show ?case using 2 by simp
qed

declare c_decode_loop.simps [simp del]

text \<open>
  \<open>decodeFuzzInput(data, size, &input)\<close>: \<open>None\<close> is the return value -1. A null
  \<open>data\<close> pointer is \<open>None\<close>. The struct that the C function fills through its
  third argument is the value returned, so a null \<open>input\<close> pointer, which the C code
  also refuses, has no counterpart here.
\<close>

definition decodeFuzzInput :: "bytes option \<Rightarrow> size_t \<Rightarrow> fuzz_input option" where
  "decodeFuzzInput ptr sz =
     (case ptr of
        None \<Rightarrow> None
      | Some data \<Rightarrow>
          if sz < 1 then None
          else
            let fl = data ! 0 in
            if fl AND C_MULTIPACKET_FLAG = 0
            then Some \<lparr>in_flags = fl,
                       in_packets = [\<lparr>view_data = 1, view_size = sz - 1\<rparr>]\<rparr>
            else case c_decode_loop data sz 1 [] of
                   None \<Rightarrow> None
                 | Some views \<Rightarrow>
                     if 0 < length views then Some \<lparr>in_flags = fl, in_packets = views\<rparr>
                     else None)"

section \<open>Views\<close>

text \<open>The bytes a view stands for, and that it lies inside the input.\<close>

definition view_bytes :: "bytes \<Rightarrow> fuzz_packet_view \<Rightarrow> bytes" where
  "view_bytes data v = take (unat (view_size v)) (drop (unat (view_data v)) data)"

definition view_in_bounds :: "bytes \<Rightarrow> fuzz_packet_view \<Rightarrow> bool" where
  "view_in_bounds data v \<longleftrightarrow> unat (view_data v) + unat (view_size v) \<le> length data"

lemma unat_or_byte:
  fixes a b :: byte
  shows "unat (push_bit 8 (ucast a) OR ucast b :: size_t) = unat a * 256 + unat b"
proof -
  have d: "push_bit 8 (ucast a) AND ucast b = (0 :: size_t)"
  proof (rule bit_eqI)
    fix n
    have "bit b n \<Longrightarrow> n < 8" using bit_imp_le_length [of b n] by simp
    then show "bit (push_bit 8 (ucast a) AND ucast b :: size_t) n \<longleftrightarrow> bit (0 :: size_t) n"
      by (auto simp: bit_simps)
  qed
  have ub: "unat (ucast x :: size_t) = unat x" for x :: byte
    by (simp add: unsigned_ucast_eq take_bit_nat_eq_self unat_byte_less [THEN less_trans])
  have "unat a < 72057594037927936" using unat_byte_less [of a] by linarith
  then have ua: "unat (push_bit 8 (ucast a) :: size_t) = unat a * 256"
    by (simp add: push_bit_eq_mult ub unat_mult_lem [THEN iffD1])
  have "unat a * 256 + unat b < 18446744073709551616"
    using unat_byte_less [of a] unat_byte_less [of b] by linarith
  then show ?thesis
    using d ua ub by (simp add: disjunctive_add_eq_or [symmetric] unat_add_lem [THEN iffD1])
qed

text \<open>The C code's test on a frame header agrees with \<open>unframe\<close>.\<close>

lemma c_packet_size_eq:
  assumes "unat off + 2 \<le> length data" and "unat (off + 1) = unat off + 1"
  shows "unat (c_packet_size data off) = from_bytes_big (take 2 (drop (unat off) data))"
proof -
  have "take 2 (drop (unat off) data) = [data ! unat off, data ! (unat off + 1)]"
    using assms(1) by (simp add: take_Suc_conv_app_nth numeral_2_eq_2)
  then show ?thesis
    by (simp add: c_packet_size_def unat_or_byte assms(2) from_bytes_big_def)
qed

lemma c_decode_loop_step:
  assumes "length data < 2 ^ 64" and "sz = of_nat (length data)" and "unat off < length data"
  shows "c_decode_loop data sz off views =
    (if length views = 64 then None else
       case unframe (drop (unat off) data) of
         None \<Rightarrow> None
       | Some (p, rest) \<Rightarrow> c_decode_loop data sz (off + 2 + of_nat (length p))
           (views @ [\<lparr>view_data = off + 2, view_size = of_nat (length p)\<rparr>]))"
proof -
  have usz: "unat sz = length data" using assms(1,2) by (simp add: unat_of_nat)
  then have lt: "off < sz" using assms(3) by (simp add: word_less_nat_alt)
  then have d: "unat (sz - off) = length data - unat off" using usz by (simp add: unat_sub)
  show ?thesis
  proof (cases "length data - unat off < 2 \<or> length views = 64")
    case True
    then show ?thesis using lt d
      by (subst c_decode_loop.simps)
        (auto simp: C_MAX_PACKET_COUNT_def unframe_def word_less_nat_alt)
  next
    case False
    let ?n = "from_bytes_big (take 2 (drop (unat off) data))"
    have l: "unat off + 2 \<le> length data" using False by arith
    have u1: "unat (off + 1) = unat off + 1" and u2: "unat (off + 2) = unat off + 2"
      using l usz unsigned_less [of sz, where 'a = nat] by (simp_all add: unat_add_lem [THEN iffD1])
    have n: "unat (c_packet_size data off) = ?n" using l u1 by (rule c_packet_size_eq)
    then have n': "c_packet_size data off = of_nat ?n" by (simp flip: n)
    have rem: "unat (sz - (off + 2)) = length data - (unat off + 2)"
      using l u2 usz by (subst unat_sub) (simp_all add: word_le_nat_alt)
    have "c_packet_size data off = 0 \<or> c_packet_size data off > sz - (off + 2) \<longleftrightarrow>
        ?n = 0 \<or> length (drop 2 (drop (unat off) data)) < ?n"
      using n rem by (auto simp: word_less_nat_alt unat_eq_0 [symmetric])
    moreover have "\<not> sz - off < 2" using d False by (simp add: word_less_nat_alt)
    moreover have "\<not> length (drop (unat off) data) < 2" using l by simp
    ultimately show ?thesis using lt False
      by (subst c_decode_loop.simps)
        (auto simp: C_MAX_PACKET_COUNT_def unframe_def Let_def n' min_def)
  qed
qed

section \<open>Agreement with the replay tool\<close>

definition result_option :: "'a result \<Rightarrow> 'a option" where
  "result_option r = (case r of Inl _ \<Rightarrow> None | Inr x \<Rightarrow> Some x)"

lemma result_option_simps [simp]:
  "result_option (Inr x) = Some x" "result_option (Inl e) = None"
  by (simp_all add: result_option_def)

lemma result_option_if: "result_option (if b then x else y) =
    (if b then result_option x else result_option y)"
  by simp

lemma c_loop_agrees:
  assumes "length data < 2 ^ 64" and "sz = of_nat (length data)"
    and "unat off \<le> length data" and "length views \<le> 64"
  shows "map_option (map (view_bytes data)) (c_decode_loop data sz off views) =
    result_option (parse_packets data (unat off) (map (view_bytes data) views))"
  using assms(3,4)
proof (induction "length data - unat off" arbitrary: off views rule: less_induct)
  case less
  show ?case
  proof (cases "unat off < length data")
    case False
    have "unat sz = length data" using assms(1,2) by (simp add: unat_of_nat)
    with False have "\<not> off < sz" by (simp add: word_less_nat_alt)
    with False show ?thesis by (subst c_decode_loop.simps) simp
  next
    case True
    note c = c_decode_loop_step [OF assms(1,2) True]
    note p = parse_packets_step [OF True]
    show ?thesis
    proof (cases "unframe (drop (unat off) data)")
      case None
      then show ?thesis by (simp add: c p)
    next
      case (Some pr)
      obtain q rest where pr: "pr = (q, rest)" by (cases pr)
      from frame_sound [OF Some [unfolded pr]]
      have q: "frame_ok q" and d: "drop (unat off) data = frame q @ rest" by auto
      have "length data - unat off = 2 + length q + length rest"
        using arg_cong [OF d, of length] by simp
      then have l: "unat off + 2 + length q \<le> length data" by simp
      have u2: "unat (off + 2) = unat off + 2"
        and uq: "unat (of_nat (length q) :: size_t) = length q"
        and un: "unat (off + 2 + of_nat (length q)) = unat off + 2 + length q"
        using l assms(1) by (simp_all add: unat_add_lem [THEN iffD1] unat_of_nat)
      let ?v = "\<lparr>view_data = off + 2, view_size = of_nat (length q)\<rparr>"
      have "view_bytes data ?v = q"
        using arg_cong [OF d, of "\<lambda>xs. take (length q) (drop 2 xs)"]
        by (simp add: view_bytes_def u2 uq frame_def add.commute)
      moreover have "unat (off + 2 + of_nat (length q)) = unat off + length (frame q)"
        using un by simp
      ultimately show ?thesis
        using less.prems l un by (simp add: c p Some pr less.hyps)
    qed
  qed
qed

lemma c_loop_in_bounds:
  assumes "length data < 2 ^ 64" and "sz = of_nat (length data)"
    and "c_decode_loop data sz off views = Some vs" and "list_all (view_in_bounds data) views"
    and "length views \<le> 64"
  shows "list_all (view_in_bounds data) vs \<and> length vs \<le> 64"
proof -
  have usz: "unat sz = length data" using assms(1,2) by (simp add: unat_of_nat)
  show ?thesis
    using assms(3,4,5)
  proof (induction "unat sz - unat off" arbitrary: off views rule: less_induct)
    case less
    show ?case
    proof (cases "off < sz")
      case False
      with less.prems show ?thesis by (simp add: c_decode_loop.simps [of data sz off])
    next
      case True
      let ?n = "c_packet_size data off"
      let ?v = "\<lparr>view_data = off + 2, view_size = ?n\<rparr>"
      from True less.prems(1) have g: "\<not> sz - off < 2" "length views \<noteq> 64"
        "\<not> sz - (off + 2) < ?n"
        and r: "c_decode_loop data sz (off + 2 + ?n) (views @ [?v]) = Some vs"
        by (auto simp: c_decode_loop.simps [of data sz off] C_MAX_PACKET_COUNT_def Let_def
            split: if_splits)
      note a = c_advance [OF True g(1) g(3)]
      have "view_in_bounds data ?v" using a usz by (simp add: view_in_bounds_def)
      then show ?thesis
        using r less.prems(2,3) a True g(2) by (intro less.hyps [OF _ r]) auto
    qed
  qed
qed

lemma word_and_2_uint: "(b AND C_MULTIPACKET_FLAG = 0) \<longleftrightarrow> (uint b AND 2 = 0)"
proof -
  have "uint (b AND 2) = uint b AND 2" by (simp add: uint_and)
  moreover have "b AND 2 = 0 \<longleftrightarrow> uint (b AND 2) = 0" by (simp add: uint_0_iff)
  ultimately show ?thesis by (simp add: C_MULTIPACKET_FLAG_def)
qed

lemma decoders_agree:
  assumes "length data < 2 ^ 64"
  shows "map_option (\<lambda>i. (uint (in_flags i), map (view_bytes data) (in_packets i)))
      (decodeFuzzInput (Some data) (of_nat (length data))) =
    map_option (\<lambda>fi. (flags fi, packets fi)) (result_option (parse_fuzzer_input data))"
proof (cases data)
  case Nil
  then show ?thesis by (simp add: decodeFuzzInput_def)
next
  case (Cons b rest)
  define sz :: size_t where "sz = of_nat (length data)"
  have usz: "unat sz = length data" using assms by (simp add: sz_def unat_of_nat)
  have "\<not> sz < 1" using usz Cons by (simp add: word_less_nat_alt)
  moreover have "unat (sz - 1) = length rest"
    using usz Cons by (subst unat_sub) (simp_all add: word_le_nat_alt)
  moreover have "map_option (map (view_bytes data)) (c_decode_loop data sz 1 []) =
      result_option (parse_packets data 1 [])"
    using c_loop_agrees [OF assms sz_def, of 1 "[]"] Cons by simp
  ultimately show ?thesis
    unfolding sz_def [symmetric]
    by (cases "c_decode_loop data sz 1 []"; cases "parse_packets data 1 []")
      (auto simp: decodeFuzzInput_def Cons parse_fuzzer_input_def word_and_2_uint
        MULTIPACKET_FLAG_def view_bytes_def)
qed

lemma decoded_views_in_bounds:
  assumes "length data < 2 ^ 64"
    and "decodeFuzzInput (Some data) (of_nat (length data)) = Some inp"
  shows "list_all (view_in_bounds data) (in_packets inp) \<and>
    1 \<le> length (in_packets inp) \<and> length (in_packets inp) \<le> C_MAX_PACKET_COUNT"
proof -
  define sz :: size_t where "sz = of_nat (length data)"
  have usz: "unat sz = length data" using assms(1) by (simp add: sz_def unat_of_nat)
  from assms(2) have n: "\<not> sz < 1" by (auto simp: decodeFuzzInput_def sz_def Let_def split: if_splits)
  show ?thesis
  proof (cases "data ! 0 AND C_MULTIPACKET_FLAG = 0")
    case True
    have l: "1 \<le> length data" using n usz by (cases data) (simp_all add: word_less_nat_alt)
    then have "unat (sz - 1) = length data - 1"
      using usz by (subst unat_sub) (simp_all add: word_le_nat_alt)
    with True assms(2) n l show ?thesis
      by (auto simp: decodeFuzzInput_def Let_def view_in_bounds_def C_MAX_PACKET_COUNT_def
          simp flip: sz_def)
  next
    case False
    with assms(2) n obtain vs where "c_decode_loop data sz 1 [] = Some vs" "vs \<noteq> []"
      "in_packets inp = vs"
      by (auto simp: decodeFuzzInput_def Let_def simp flip: sz_def split: option.splits if_splits)
    with c_loop_in_bounds [OF assms(1) sz_def, of 1 "[]" vs] show ?thesis
      by (simp add: C_MAX_PACKET_COUNT_def Suc_le_eq)
  qed
qed

section \<open>Properties\<close>

text \<open>
  C2: the C decoder inside the server and the Python decoder of the replay tool accept
  the same inputs and take the same flags and packets out of them, for every input whose
  size fits a 64-bit \<open>size_t\<close>; the C code's 64-bit offsets never wrap around.
\<close>

theorem c_and_python_decoders_agree:
  assumes "length data < 2 ^ 64"
  shows "map_option (\<lambda>i. (uint (in_flags i), map (view_bytes data) (in_packets i)))
      (decodeFuzzInput (Some data) (of_nat (length data))) =
    map_option (\<lambda>fi. (flags fi, packets fi)) (result_option (parse_fuzzer_input data))"
  using assms by (rule decoders_agree)

theorem c_and_python_decoders_agree_witness:
  "map_option (\<lambda>i. (uint (in_flags i), map (view_bytes [2, 0, 1, 0x41, 0, 2, 0x42, 0x43]) (in_packets i)))
     (decodeFuzzInput (Some [2, 0, 1, 0x41, 0, 2, 0x42, 0x43])
       (of_nat (length [2, 0, 1, 0x41, 0, 2, 0x42, 0x43 :: byte]))) =
   Some (2, [[0x41], [0x42, 0x43]])"
proof -
  have "map_option (\<lambda>fi. (flags fi, packets fi))
      (result_option (parse_fuzzer_input [2, 0, 1, 0x41, 0, 2, 0x42, 0x43])) =
      Some (2, [[0x41], [0x42, 0x43]])"
    by code_simp
  with c_and_python_decoders_agree [of "[2, 0, 1, 0x41, 0, 2, 0x42, 0x43]"] show ?thesis by simp
qed

text \<open>
  C25: every view the C decoder hands out lies inside the input buffer, and there are
  between 1 and 64 of them, so the fixed array of views does not overflow.
\<close>

theorem c_views_in_bounds:
  assumes "length data < 2 ^ 64"
    and "decodeFuzzInput (Some data) (of_nat (length data)) = Some inp"
  shows "list_all (view_in_bounds data) (in_packets inp) \<and>
    1 \<le> length (in_packets inp) \<and> length (in_packets inp) \<le> C_MAX_PACKET_COUNT"
  using assms by (rule decoded_views_in_bounds)

theorem c_views_in_bounds_witness:
  "list_all (view_in_bounds [2, 0, 1, 0x41])
     (in_packets \<lparr>in_flags = 2, in_packets = [\<lparr>view_data = 3, view_size = 1\<rparr>]\<rparr>) \<and>
   decodeFuzzInput (Some [2, 0, 1, 0x41]) (of_nat (length [2, 0, 1, 0x41 :: byte])) =
     Some \<lparr>in_flags = 2, in_packets = [\<lparr>view_data = 3, view_size = 1\<rparr>]\<rparr>"
proof -
  have d: "decodeFuzzInput (Some [2, 0, 1, 0x41]) (of_nat (length [2, 0, 1, 0x41 :: byte])) =
      Some \<lparr>in_flags = 2, in_packets = [\<lparr>view_data = 3, view_size = 1\<rparr>]\<rparr>"
    by code_simp
  have "length [2, 0, 1, 0x41 :: byte] < 2 ^ 64" by simp
  from c_views_in_bounds [OF this d] d show ?thesis by blast
qed

end
