(* ===== verification/Tls_Hello.thy ===== *)
theory Tls_Hello
  imports Py_Bytes Prefix_Codec
begin

text \<open>
  The TLS builders of \<open>generate-interesting-corpus.py\<close>: records, extensions, the ALPN
  list and the three hello messages. They are read back by the layouts of TLS: every
  length field must equal the length of what it covers.
\<close>

section \<open>The builders\<close>

definition tls_record :: "int \<Rightarrow> bytes \<Rightarrow> bytes \<Rightarrow> bytes result" where
  "tls_record content_type payload version =
     cat [bytes_of [content_type], Inr version, len_bytes 2 payload, Inr payload]"

definition tls_extension :: "int \<Rightarrow> bytes \<Rightarrow> bytes result" where
  "tls_extension number value = cat [to_bytes_big number 2, len_bytes 2 value, Inr value]"

fun tls_alpn_loop :: "bytes \<Rightarrow> bytes list \<Rightarrow> bytes result" where
  "tls_alpn_loop encoded [] = Inr encoded"
| "tls_alpn_loop encoded (protocol # protocols) =
     (if \<not> (1 \<le> length protocol \<and> length protocol \<le> 255)
      then Inl (ValueError ''TLS ALPN protocol names must contain 1 through 255 bytes'')
      else bind_result (byte_of (int (length protocol)))
        (\<lambda>n. tls_alpn_loop ((encoded @ n) @ protocol) protocols))"

definition tls_alpn :: "bytes list \<Rightarrow> bytes result" where
  "tls_alpn protocols =
     bind_result (tls_alpn_loop [] protocols) (\<lambda>encoded.
       if encoded = [] \<or> length encoded > 0xFFFF
       then Inl (ValueError ''TLS ALPN protocol list must contain 1 through 65535 bytes'')
       else cat [len_bytes 2 encoded, Inr encoded])"

text \<open>\<open>bytes(range(a, b))\<close>\<close>

definition bytes_range :: "nat \<Rightarrow> nat \<Rightarrow> bytes" where
  "bytes_range a b = map of_nat [a..<b]"

definition server_name_value :: "bytes result" where
  "server_name_value =
     (let name = lit ''localhost''
      in cat [len_bytes 2 (name @ [0, 0, 0]), Inr [0], len_bytes 2 name, Inr name])"

definition key_share_value :: "bytes result" where
  "key_share_value =
     (let key = bytes_range 1 33
      in bind_result (cat [Inr [0x00, 0x1d], len_bytes 2 key, Inr key])
           (\<lambda>entry. cat [len_bytes 2 entry, Inr entry]))"

text \<open>The handshake header and the record around a hello body.\<close>

definition hello_message :: "bytes \<Rightarrow> bytes result" where
  "hello_message body =
     bind_result (cat [Inr [0x01], len_bytes 3 body, Inr body])
       (\<lambda>handshake. tls_record 0x16 handshake [0x03, 0x01])"

definition tls_client_hello :: "bytes list \<Rightarrow> bytes result" where
  "tls_client_hello protocols =
     bind_result server_name_value (\<lambda>server_name.
     bind_result (tls_alpn protocols) (\<lambda>alpn.
     bind_result key_share_value (\<lambda>key_share.
     bind_result (cat [
       tls_extension 0x0000 server_name,
       tls_extension 0x0010 alpn,
       tls_extension 0x000A [0x00, 0x04, 0x00, 0x1d, 0x00, 0x17],
       tls_extension 0x000D [0x00, 0x08, 0x08, 0x04, 0x04, 0x03, 0x08, 0x05, 0x04, 0x01],
       tls_extension 0x002B [0x02, 0x03, 0x04],
       tls_extension 0x002D [0x01, 0x01],
       tls_extension 0x0033 key_share]) (\<lambda>extensions.
     bind_result (cat [
       Inr [0x03, 0x03], Inr (bytes_range 0 32), Inr [0x00],
       Inr [0x00, 0x08, 0x13, 0x01, 0x13, 0x02, 0x13, 0x03, 0xc0, 0x2f],
       Inr [0x01, 0x00],
       len_bytes 2 extensions, Inr extensions]) hello_message))))"

definition tls12_client_hello :: "bytes result" where
  "tls12_client_hello =
     bind_result server_name_value (\<lambda>server_name.
     let protocols = [0x08] @ lit ''http/1.1'' @ [0x02] @ lit ''h2'' in
     bind_result (cat [len_bytes 2 protocols, Inr protocols]) (\<lambda>alpn.
     bind_result (cat [
       tls_extension 0x0000 server_name,
       tls_extension 0x0010 alpn,
       tls_extension 0x000A [0x00, 0x06, 0x00, 0x17, 0x00, 0x18, 0x00, 0x1d],
       tls_extension 0x000B [0x01, 0x00],
       tls_extension 0x000D [0x00, 0x08, 0x04, 0x03, 0x05, 0x03, 0x04, 0x01, 0x02, 0x01],
       tls_extension 0x0A0A []]) (\<lambda>extensions.
     bind_result (cat [
       Inr [0x03, 0x03], Inr (rev (bytes_range 0 32)), Inr [0x00],
       Inr [0x00, 0x08, 0xc0, 0x2f, 0xc0, 0x2b, 0xcc, 0xa8, 0x00, 0x9c],
       Inr [0x01, 0x00], len_bytes 2 extensions, Inr extensions]) hello_message)))"

text \<open>\<open>bytes([0x80 | (length >> 8), length & 0xFF])\<close>\<close>

definition sslv2_client_hello :: "bytes result" where
  "sslv2_client_hello =
     (let body = [0x01, 0x03, 0x01, 0x00, 0x06, 0x00, 0x00, 0x00, 0x10,
                  0x00, 0x00, 0x2f, 0x00, 0x00, 0x35] @ bytes_range 0 16;
          len = int (length body)
      in cat [bytes_of [0x80 OR drop_bit 8 len, len AND 0xFF], Inr body])"

section \<open>Length-prefixed fields\<close>

text \<open>A field is a big-endian length of \<open>k\<close> bytes and that many bytes.\<close>

definition field :: "nat \<Rightarrow> bytes \<Rightarrow> bytes" where
  "field k v = be_encode k (length v) @ v"

definition take_field :: "nat \<Rightarrow> bytes \<Rightarrow> (bytes \<times> bytes) option" where
  "take_field k bs =
     (if length bs < k then None
      else let n = from_bytes_big (take k bs); rest = drop k bs
           in if length rest < n then None else Some (take n rest, drop n rest))"

lemma length_field [simp, bytes_simps]: "length (field k v) = k + length v"
  by (simp add: field_def)

lemma take_field_field:
  "length v < 256 ^ k \<Longrightarrow> take_field k (field k v @ rest) = Some (v, rest)"
  by (simp add: take_field_def field_def Let_def)

lemma take_field_sound:
  assumes "take_field k bs = Some (v, rest)"
  shows "length v < 256 ^ k \<and> bs = field k v @ rest"
proof -
  let ?n = "from_bytes_big (take k bs)"
  from assms have k: "k \<le> length bs" and n: "?n \<le> length (drop k bs)"
    and v: "v = take ?n (drop k bs)" and r: "rest = drop ?n (drop k bs)"
    by (auto simp: take_field_def Let_def split: if_splits)
  have lk: "length (take k bs) = k" using k by simp
  have lv: "length v = ?n" using n v by simp
  have "?n < 256 ^ k" using from_bytes_big_bound [of "take k bs"] lk by simp
  moreover have "be_encode k ?n = take k bs" using be_encode_from [of "take k bs"] lk by simp
  moreover have "take k bs @ v @ rest = bs" using v r by (simp only: append_take_drop_id)
  ultimately show ?thesis using lv by (simp add: field_def)
qed

section \<open>The formats as codecs\<close>

definition alpn_ok :: "bytes \<Rightarrow> bool" where
  "alpn_ok p \<longleftrightarrow> 1 \<le> length p \<and> length p \<le> 255"

definition alpn_parse :: "bytes \<Rightarrow> (bytes \<times> bytes) option" where
  "alpn_parse bs = (case take_field 1 bs of
     Some (v, rest) \<Rightarrow> if v = [] then None else Some (v, rest) | None \<Rightarrow> None)"

interpretation alpn: canonical_codec "field 1" alpn_parse alpn_ok
proof
  fix p rest
  assume "alpn_ok p"
  then show "alpn_parse (field 1 p @ rest) = Some (p, rest)"
    by (auto simp: alpn_parse_def take_field_field alpn_ok_def)
next
  fix p
  show "field 1 p \<noteq> []" by (metis length_field list.size(3) add_is_0 one_neq_zero)
next
  fix bs p rest
  assume "alpn_parse bs = Some (p, rest)"
  then have "take_field 1 bs = Some (p, rest)" and "p \<noteq> []"
    by (auto simp: alpn_parse_def split: option.splits if_splits)
  with take_field_sound [of 1 bs p rest] show "alpn_ok p \<and> bs = field 1 p @ rest"
    by (cases p) (auto simp: alpn_ok_def)
qed

record tls_ext =
  ext_number :: nat
  ext_value :: bytes

definition ext_ok :: "tls_ext \<Rightarrow> bool" where
  "ext_ok e \<longleftrightarrow> ext_number e < 65536 \<and> length (ext_value e) < 65536"

definition ext_wire :: "tls_ext \<Rightarrow> bytes" where
  "ext_wire e = be_encode 2 (ext_number e) @ field 2 (ext_value e)"

definition ext_parse :: "bytes \<Rightarrow> (tls_ext \<times> bytes) option" where
  "ext_parse bs =
     (if length bs < 2 then None
      else case take_field 2 (drop 2 bs) of
             None \<Rightarrow> None
           | Some (v, rest) \<Rightarrow>
               Some (\<lparr>ext_number = from_bytes_big (take 2 bs), ext_value = v\<rparr>, rest))"

lemma length_ext_wire [simp, bytes_simps]: "length (ext_wire e) = 4 + length (ext_value e)"
  by (simp add: ext_wire_def)

interpretation ext: canonical_codec ext_wire ext_parse ext_ok
proof
  fix e rest
  assume "ext_ok e"
  then show "ext_parse (ext_wire e @ rest) = Some (e, rest)"
    by (simp add: ext_parse_def ext_wire_def ext_ok_def take_field_field)
next
  fix e
  show "ext_wire e \<noteq> []" by (metis length_ext_wire list.size(3) add_is_0 zero_neq_numeral)
next
  fix bs e rest
  assume p: "ext_parse bs = Some (e, rest)"
  then obtain v where l: "2 \<le> length bs" and t: "take_field 2 (drop 2 bs) = Some (v, rest)"
    and e: "e = \<lparr>ext_number = from_bytes_big (take 2 bs), ext_value = v\<rparr>"
    by (auto simp: ext_parse_def split: if_splits option.splits)
  have lk: "length (take 2 bs) = 2" using l by simp
  have "from_bytes_big (take 2 bs) < 65536" using from_bytes_big_bound [of "take 2 bs"] lk by simp
  moreover have "be_encode 2 (from_bytes_big (take 2 bs)) = take 2 bs"
    using be_encode_from [of "take 2 bs"] lk by simp
  moreover have "bs = take 2 bs @ field 2 v @ rest"
    using take_field_sound [OF t] by (metis append_take_drop_id)
  ultimately show "ext_ok e \<and> bs = ext_wire e @ rest"
    using e take_field_sound [OF t] by (simp add: ext_ok_def ext_wire_def)
qed

end
