(* ===== verification/Tls_Facts.thy ===== *)
theory Tls_Facts
  imports Tls_Hello
begin

text \<open>
  What the TLS builders produce, and that a receiver who follows the length fields reads
  back exactly what was put in.
\<close>

unbundle bit_operations_syntax

section \<open>Exact results of the builders\<close>

lemma be_encode_1: "be_encode (Suc 0) n = [of_nat n]"
  by (simp add: be_encode.simps)

lemma tls_record_Inr_iff:
  "tls_record ct p v = Inr bs \<longleftrightarrow>
     0 \<le> ct \<and> ct < 256 \<and> length p < 65536 \<and> bs = [word_of_int ct] @ v @ field 2 p"
  by (auto simp: tls_record_def bind_result_eq_Inr bytes_of_simps byte_of_Inr_iff
      len_bytes_Inr_iff field_def)

lemma tls_extension_Inr_iff:
  "tls_extension n v = Inr bs \<longleftrightarrow>
     0 \<le> n \<and> n < 65536 \<and> length v < 65536 \<and> bs = ext_wire \<lparr>ext_number = nat n, ext_value = v\<rparr>"
  by (auto simp: tls_extension_def bind_result_eq_Inr to_bytes_big_Inr_iff
      len_bytes_Inr_iff ext_wire_def field_def)

lemma tls_extension_ok:
  "n < 65536 \<Longrightarrow> length v < 65536 \<Longrightarrow>
   tls_extension (int n) v = Inr (ext_wire \<lparr>ext_number = n, ext_value = v\<rparr>)"
  by (simp add: tls_extension_Inr_iff)

lemma tls_alpn_loop_Inr_iff:
  "tls_alpn_loop encoded ps = Inr bs \<longleftrightarrow>
     list_all alpn_ok ps \<and> bs = encoded @ concat (map (field 1) ps)"
proof (induction ps arbitrary: encoded)
  case Nil
  then show ?case by auto
next
  case (Cons p ps)
  then show ?case
    by (auto simp: alpn_ok_def byte_of_nat field_def be_encode_1)
qed

lemma tls_alpn_Inr_iff:
  "tls_alpn ps = Inr bs \<longleftrightarrow>
     list_all alpn_ok ps \<and> ps \<noteq> [] \<and> length (concat (map (field 1) ps)) \<le> 65535 \<and>
     bs = field 2 (concat (map (field 1) ps))"
proof (cases "list_all alpn_ok ps")
  case False
  then have "tls_alpn_loop [] ps \<noteq> Inr x" for x by (simp add: tls_alpn_loop_Inr_iff)
  with False show ?thesis by (auto simp: tls_alpn_def bind_result_eq_Inr)
next
  case True
  then have l: "tls_alpn_loop [] ps = Inr (concat (map (field 1) ps))"
    by (simp add: tls_alpn_loop_Inr_iff)
  have "concat (map (field 1) ps) = [] \<longleftrightarrow> ps = []"
    by (cases ps) (auto simp: field_def be_encode_1)
  with True l show ?thesis
    by (auto simp: tls_alpn_def bind_result_eq_Inr len_bytes_Inr_iff field_def)
qed

lemma length_bytes_range [simp, bytes_simps]: "length (bytes_range a b) = b - a"
  by (simp add: bytes_range_def)

lemma length_sni_less: "length ([0] @ field 2 (lit ''localhost'')) < 256 ^ 2"
  by simp

lemma server_name_value_eq:
  "server_name_value = Inr (field 2 ([0] @ field 2 (lit ''localhost'')))"
proof -
  let ?n = "lit ''localhost''"
  have "length (?n @ [0, 0, 0]) = length ([0] @ field 2 ?n)" by simp
  then have a: "len_bytes 2 (?n @ [0, 0, 0]) = Inr (be_encode 2 (length ([0] @ field 2 ?n)))"
    by (metis len_bytes_Inr length_sni_less)
  have b: "len_bytes 2 ?n = Inr (be_encode 2 (length ?n))" by (rule len_bytes_Inr) simp
  show ?thesis
    unfolding server_name_value_def Let_def a b field_def by simp
qed

lemma key_share_value_eq:
  "key_share_value = Inr (field 2 ([0x00, 0x1d] @ field 2 (bytes_range 1 33)))"
  by (simp add: key_share_value_def Let_def len_bytes_Inr field_def)

lemma hello_message_Inr_iff:
  "hello_message body = Inr bs \<longleftrightarrow>
     length body < 65532 \<and> bs = [0x16, 0x03, 0x01] @ field 2 ([0x01] @ field 3 body)"
proof (cases "length body < 256 ^ 3")
  case True
  then show ?thesis
    by (auto simp: hello_message_def len_bytes_Inr tls_record_Inr_iff field_def)
next
  case False
  then show ?thesis
    by (auto simp: hello_message_def bind_result_eq_Inr len_bytes_Inr_iff)
qed

section \<open>The hello layout\<close>

record client_hello =
  ch_version :: bytes
  ch_random :: bytes
  ch_session :: bytes
  ch_ciphers :: bytes
  ch_compression :: bytes
  ch_extensions :: "tls_ext list"

definition hello_body :: "client_hello \<Rightarrow> bytes" where
  "hello_body h = ch_version h @ ch_random h @ field 1 (ch_session h) @ field 2 (ch_ciphers h) @
     field 1 (ch_compression h) @ field 2 (concat (map ext_wire (ch_extensions h)))"

definition hello_wire :: "client_hello \<Rightarrow> bytes" where
  "hello_wire h = [0x16, 0x03, 0x01] @ field 2 ([0x01] @ field 3 (hello_body h))"

definition hello_ok :: "client_hello \<Rightarrow> bool" where
  "hello_ok h \<longleftrightarrow> length (ch_version h) = 2 \<and> length (ch_random h) = 32 \<and>
     length (ch_session h) < 256 \<and> length (ch_ciphers h) < 65536 \<and>
     length (ch_compression h) < 256 \<and> list_all ext_ok (ch_extensions h) \<and>
     length (hello_body h) < 65532"

definition parse_body :: "bytes \<Rightarrow> client_hello option" where
  "parse_body body =
     (if length body < 34 then None
      else Option.bind (take_field 1 (drop 34 body)) (\<lambda>(session, r1).
      Option.bind (take_field 2 r1) (\<lambda>(ciphers, r2).
      Option.bind (take_field 1 r2) (\<lambda>(compression, r3).
      Option.bind (take_field 2 r3) (\<lambda>(exts, r4).
      Option.bind (decode_all ext_parse exts) (\<lambda>es.
        if r4 = [] then
          Some \<lparr>ch_version = take 2 body, ch_random = take 32 (drop 2 body), ch_session = session,
                ch_ciphers = ciphers, ch_compression = compression, ch_extensions = es\<rparr>
        else None))))))"

definition parse_hello :: "bytes \<Rightarrow> client_hello option" where
  "parse_hello bs =
     (if take 3 bs \<noteq> [0x16, 0x03, 0x01] then None
      else case take_field 2 (drop 3 bs) of
        Some (t # msg, []) \<Rightarrow>
          if t \<noteq> 0x01 then None
          else (case take_field 3 msg of Some (body, []) \<Rightarrow> parse_body body | _ \<Rightarrow> None)
      | _ \<Rightarrow> None)"

lemma parse_body_hello:
  assumes "hello_ok h"
  shows "parse_body (hello_body h) = Some h"
proof -
  let ?e = "concat (map ext_wire (ch_extensions h))"
  have "length ?e < 65536" using assms by (simp add: hello_ok_def hello_body_def)
  moreover have "decode_all ext_parse ?e = Some (ch_extensions h)"
    using assms by (intro ext.decode_all_concat) (simp add: hello_ok_def)
  moreover have "take_field 2 (field 2 ?e) = Some (?e, [])"
    using calculation(1) take_field_field [of ?e 2 "[]"] by simp
  moreover have "drop 34 (hello_body h) = field 1 (ch_session h) @ field 2 (ch_ciphers h) @
      field 1 (ch_compression h) @ field 2 ?e"
    "take 2 (hello_body h) = ch_version h" "take 32 (drop 2 (hello_body h)) = ch_random h"
    "\<not> length (hello_body h) < 34"
    using assms by (simp_all add: hello_ok_def hello_body_def)
  ultimately show ?thesis
    using assms by (simp add: parse_body_def take_field_field hello_ok_def)
qed

lemma parse_hello_wire:
  assumes "hello_ok h"
  shows "parse_hello (hello_wire h) = Some h"
proof -
  let ?m = "[0x01] @ field 3 (hello_body h)"
  have l: "length (hello_body h) < 65532" using assms by (simp add: hello_ok_def)
  have "take_field 2 (field 2 ?m) = Some (?m, [])"
    using l take_field_field [of ?m 2 "[]"] by simp
  moreover have "take_field 3 (field 3 (hello_body h)) = Some (hello_body h, [])"
    using l take_field_field [of "hello_body h" 3 "[]"] by simp
  ultimately show ?thesis
    by (simp add: parse_hello_def hello_wire_def parse_body_hello [OF assms])
qed

section \<open>The three hello messages\<close>

definition alpn_list :: "bytes list \<Rightarrow> bytes" where
  "alpn_list ps = concat (map (field 1) ps)"

definition sni_value :: bytes where
  "sni_value = field 2 ([0] @ field 2 (lit ''localhost''))"

definition hello13 :: "bytes list \<Rightarrow> client_hello" where
  "hello13 ps = \<lparr>ch_version = [3, 3], ch_random = bytes_range 0 32, ch_session = [],
     ch_ciphers = [0x13, 0x01, 0x13, 0x02, 0x13, 0x03, 0xc0, 0x2f], ch_compression = [0],
     ch_extensions = [
       \<lparr>ext_number = 0, ext_value = sni_value\<rparr>,
       \<lparr>ext_number = 16, ext_value = field 2 (alpn_list ps)\<rparr>,
       \<lparr>ext_number = 10, ext_value = [0x00, 0x04, 0x00, 0x1d, 0x00, 0x17]\<rparr>,
       \<lparr>ext_number = 13, ext_value =
          [0x00, 0x08, 0x08, 0x04, 0x04, 0x03, 0x08, 0x05, 0x04, 0x01]\<rparr>,
       \<lparr>ext_number = 43, ext_value = [0x02, 0x03, 0x04]\<rparr>,
       \<lparr>ext_number = 45, ext_value = [0x01, 0x01]\<rparr>,
       \<lparr>ext_number = 51, ext_value =
          field 2 ([0x00, 0x1d] @ field 2 (bytes_range 1 33))\<rparr>]\<rparr>"

lemma length_sni [simp]: "length sni_value = 14"
  by (simp add: sni_value_def)

lemma length_hello13 [simp]: "length (hello_body (hello13 ps)) = 152 + length (alpn_list ps)"
  by (simp add: hello_body_def hello13_def)

lemma be_encode_2: "be_encode 2 n = [of_nat (n div 256), of_nat n]"
  by (simp add: numeral_2_eq_2)

lemma small_field_literals:
  "[0x00] = field 1 []" "[0x01, 0x00] = field 1 [0]"
  "[0x00, 0x08, a, b, c, d, e, f, g, h] = field 2 [a, b, c, d, e, f, g, h]"
  by (simp_all add: field_def be_encode_1 be_encode_2)

lemma tls_client_hello_Inr_iff:
  "tls_client_hello ps = Inr bs \<longleftrightarrow>
     list_all alpn_ok ps \<and> ps \<noteq> [] \<and> length (alpn_list ps) \<le> 65379 \<and>
     bs = hello_wire (hello13 ps)"
proof (cases "list_all alpn_ok ps \<and> ps \<noteq> [] \<and> length (alpn_list ps) \<le> 65535")
  case False
  then have "tls_alpn ps \<noteq> Inr x" for x by (auto simp: tls_alpn_Inr_iff alpn_list_def)
  with False show ?thesis
    by (auto simp: tls_client_hello_def server_name_value_eq bind_result_eq_Inr)
next
  case True
  then have a: "tls_alpn ps = Inr (field 2 (alpn_list ps))"
    by (simp add: tls_alpn_Inr_iff alpn_list_def)
  let ?x = "concat (map ext_wire (ch_extensions (hello13 ps)))"
  show ?thesis
  proof (cases "length (alpn_list ps) < 65534")
    case False
    then have "tls_extension 16 (field 2 (alpn_list ps)) \<noteq> Inr x" for x
      by (simp add: tls_extension_Inr_iff)
    with False show ?thesis
      by (auto simp: tls_client_hello_def server_name_value_eq key_share_value_eq a
          bind_result_eq_Inr)
  next
    case small: True
    have "tls_client_hello ps = bind_result (len_bytes 2 ?x) (\<lambda>l. hello_message
        ([3, 3] @ bytes_range 0 32 @ [0] @
         [0x00, 0x08, 0x13, 0x01, 0x13, 0x02, 0x13, 0x03, 0xc0, 0x2f] @ [1, 0] @ l @ ?x))"
      using small
      by (simp add: tls_client_hello_def server_name_value_eq key_share_value_eq a
          tls_extension_ok [of 0, simplified] tls_extension_ok [of "numeral n" for n, simplified]
          bind_result_assoc hello13_def sni_value_def)
    moreover have "[3, 3] @ bytes_range 0 32 @ [0] @
         [0x00, 0x08, 0x13, 0x01, 0x13, 0x02, 0x13, 0x03, 0xc0, 0x2f] @ [1, 0] @
         be_encode 2 (length ?x) @ ?x = hello_body (hello13 ps)"
      by (simp add: hello_body_def hello13_def field_def be_encode_1 be_encode_2)
    moreover have "length ?x = 103 + length (alpn_list ps)"
      by (simp add: hello13_def)
    ultimately show ?thesis
      using True by (auto simp: bind_result_eq_Inr len_bytes_Inr_iff hello_message_Inr_iff hello_wire_def)
  qed
qed

definition hello12 :: client_hello where
  "hello12 = \<lparr>ch_version = [3, 3], ch_random = rev (bytes_range 0 32), ch_session = [],
     ch_ciphers = [0xc0, 0x2f, 0xc0, 0x2b, 0xcc, 0xa8, 0x00, 0x9c], ch_compression = [0],
     ch_extensions = [
       \<lparr>ext_number = 0, ext_value = sni_value\<rparr>,
       \<lparr>ext_number = 16, ext_value = field 2 (alpn_list [lit ''http/1.1'', lit ''h2''])\<rparr>,
       \<lparr>ext_number = 10, ext_value = [0x00, 0x06, 0x00, 0x17, 0x00, 0x18, 0x00, 0x1d]\<rparr>,
       \<lparr>ext_number = 11, ext_value = [0x01, 0x00]\<rparr>,
       \<lparr>ext_number = 13, ext_value =
          [0x00, 0x08, 0x04, 0x03, 0x05, 0x03, 0x04, 0x01, 0x02, 0x01]\<rparr>,
       \<lparr>ext_number = 0x0A0A, ext_value = []\<rparr>]\<rparr>"

lemma alpn12_literal:
  "[0x08] @ lit ''http/1.1'' @ [0x02] @ lit ''h2'' = alpn_list [lit ''http/1.1'', lit ''h2'']"
  by (simp add: alpn_list_def field_def be_encode_1)

lemma length_alpn12 [simp]: "length (alpn_list [lit ''http/1.1'', lit ''h2'']) = 12"
  by (simp add: alpn_list_def)

lemma tls12_client_hello_eq: "tls12_client_hello = Inr (hello_wire hello12)"
proof -
  let ?a = "alpn_list [lit ''http/1.1'', lit ''h2'']"
  let ?x = "concat (map ext_wire (ch_extensions hello12))"
  have "len_bytes 2 ?a = Inr (be_encode 2 (length ?a))" by (rule len_bytes_Inr) simp
  then have a: "cat [len_bytes 2 ?a, Inr ?a] = Inr (field 2 ?a)" by (simp add: field_def)
  have x: "length ?x = 72" by (simp add: hello12_def)
  have "tls12_client_hello = bind_result (len_bytes 2 ?x) (\<lambda>l. hello_message
      ([3, 3] @ rev (bytes_range 0 32) @ [0] @
       [0x00, 0x08, 0xc0, 0x2f, 0xc0, 0x2b, 0xcc, 0xa8, 0x00, 0x9c] @ [1, 0] @ l @ ?x))"
    unfolding tls12_client_hello_def alpn12_literal Let_def a
    by (simp add: server_name_value_eq
        tls_extension_ok [of 0, simplified] tls_extension_ok [of "numeral n" for n, simplified]
        bind_result_assoc hello12_def sni_value_def)
  moreover have "[3, 3] @ rev (bytes_range 0 32) @ [0] @
       [0x00, 0x08, 0xc0, 0x2f, 0xc0, 0x2b, 0xcc, 0xa8, 0x00, 0x9c] @ [1, 0] @
       be_encode 2 (length ?x) @ ?x = hello_body hello12"
    by (simp add: hello_body_def hello12_def field_def be_encode_1 be_encode_2)
  moreover have "length (hello_body hello12) = 121"
    using x by (simp add: hello_body_def) (simp add: hello12_def)
  moreover from this have "hello_message (hello_body hello12) = Inr (hello_wire hello12)"
    by (simp add: hello_message_Inr_iff hello_wire_def)
  moreover have "len_bytes 2 ?x = Inr (be_encode 2 (length ?x))"
    by (rule len_bytes_Inr) (simp add: x)
  ultimately show ?thesis by (simp only: bind_result_Inr)
qed

lemma hello12_ok: "hello_ok hello12"
  by (simp add: hello_ok_def hello_body_def) (simp add: hello12_def ext_ok_def)

lemma hello13_ok: "length (alpn_list ps) \<le> 65379 \<Longrightarrow> hello_ok (hello13 ps)"
  by (simp add: hello_ok_def) (simp add: hello13_def ext_ok_def)

section \<open>What a receiver reads\<close>

definition extension :: "client_hello \<Rightarrow> nat \<Rightarrow> bytes option" where
  "extension h n = map_of (map (\<lambda>e. (ext_number e, ext_value e)) (ch_extensions h)) n"

definition whole_field :: "nat \<Rightarrow> bytes \<Rightarrow> bytes option" where
  "whole_field k bs = (case take_field k bs of Some (v, []) \<Rightarrow> Some v | _ \<Rightarrow> None)"

definition offered_protocols :: "client_hello \<Rightarrow> bytes list option" where
  "offered_protocols h =
     Option.bind (extension h 16) (\<lambda>v. Option.bind (whole_field 2 v) (decode_all alpn_parse))"

definition server_name :: "client_hello \<Rightarrow> bytes option" where
  "server_name h =
     Option.bind (extension h 0) (\<lambda>v. Option.bind (whole_field 2 v) (\<lambda>l.
       case l of t # r \<Rightarrow> if t = 0 then whole_field 2 r else None | [] \<Rightarrow> None))"

lemma whole_field_field: "length v < 256 ^ k \<Longrightarrow> whole_field k (field k v) = Some v"
  using take_field_field [of v k "[]"] by (simp add: whole_field_def)

lemma offered_alpn:
  assumes "extension h 16 = Some (field 2 (alpn_list ps))" and "list_all alpn_ok ps"
    and "length (alpn_list ps) < 65536"
  shows "offered_protocols h = Some ps"
  using assms alpn.decode_all_concat [of ps]
  by (simp add: offered_protocols_def whole_field_field alpn_list_def)

lemma server_name_sni: "extension h 0 = Some sni_value \<Longrightarrow> server_name h = Some (lit ''localhost'')"
  by (simp add: server_name_def sni_value_def whole_field_field)

section \<open>Properties\<close>

text \<open>
  C36: the ALPN list and the hello have different limits. \<open>tls_alpn\<close> accepts exactly the
  nonempty lists of names of 1 to 255 bytes whose encoding has at most 65535 bytes;
  \<open>tls_client_hello\<close> succeeds on exactly those whose encoding has at most 65379 bytes,
  since everything has to fit one record.
\<close>

theorem tls_alpn_and_hello_limits:
  "(succeeds (tls_alpn ps) \<longleftrightarrow>
      ps \<noteq> [] \<and> list_all (\<lambda>p. length p \<in> {1..255}) ps \<and>
      sum_list (map (\<lambda>p. 1 + length p) ps) \<le> 65535) \<and>
   (succeeds (tls_client_hello ps) \<longleftrightarrow>
      ps \<noteq> [] \<and> list_all (\<lambda>p. length p \<in> {1..255}) ps \<and>
      sum_list (map (\<lambda>p. 1 + length p) ps) \<le> 65379)"
proof -
  have a: "list_all alpn_ok ps \<longleftrightarrow> list_all (\<lambda>p. length p \<in> {1..255}) ps"
    by (simp add: list_all_iff alpn_ok_def)
  have l: "length (alpn_list ps) = sum_list (map (\<lambda>p. 1 + length p) ps)"
    by (simp add: alpn_list_def length_concat comp_def)
  show ?thesis
    unfolding succeeds_iff tls_alpn_Inr_iff tls_client_hello_Inr_iff a l [symmetric]
    by (auto simp: alpn_list_def)
qed

text \<open>
  C26: whenever \<open>tls_client_hello\<close> succeeds, every length field in the record is right:
  a receiver that follows them parses the whole record, reads the offered protocols in
  order, the server name localhost, and the seven extensions under their numbers.
\<close>

theorem tls_client_hello_parses:
  assumes "tls_client_hello ps = Inr bs"
  shows "\<exists>h. parse_hello bs = Some h \<and> offered_protocols h = Some ps \<and>
    server_name h = Some (lit ''localhost'') \<and>
    map ext_number (ch_extensions h) = [0, 16, 10, 13, 43, 45, 51] \<and>
    ch_random h = bytes_range 0 32 \<and>
    ch_ciphers h = [0x13, 0x01, 0x13, 0x02, 0x13, 0x03, 0xc0, 0x2f]"
proof (intro exI conjI)
  from assms have ps: "list_all alpn_ok ps" "length (alpn_list ps) \<le> 65379"
    and bs: "bs = hello_wire (hello13 ps)"
    by (simp_all add: tls_client_hello_Inr_iff)
  show "parse_hello bs = Some (hello13 ps)"
    unfolding bs by (rule parse_hello_wire) (rule hello13_ok [OF ps(2)])
  show "offered_protocols (hello13 ps) = Some ps"
    using ps by (intro offered_alpn) (simp_all add: extension_def hello13_def)
  show "server_name (hello13 ps) = Some (lit ''localhost'')"
    by (rule server_name_sni) (simp add: extension_def hello13_def)
qed (simp_all add: hello13_def)

theorem tls_client_hello_parses_witness:
  "\<exists>bs h. tls_client_hello [lit ''h2'', lit ''http/1.1''] = Inr bs \<and>
    parse_hello bs = Some h \<and> offered_protocols h = Some [lit ''h2'', lit ''http/1.1'']"
proof -
  have "tls_client_hello [lit ''h2'', lit ''http/1.1''] =
      Inr (hello_wire (hello13 [lit ''h2'', lit ''http/1.1'']))"
    by (simp add: tls_client_hello_Inr_iff alpn_ok_def alpn_list_def)
  with tls_client_hello_parses [OF this] show ?thesis by blast
qed

text \<open>
  The TLS 1.2 hello is well formed: a receiver parses it completely, reads the
  protocols http/1.1 and h2 in this order and the server name localhost, and finds the
  unknown GREASE extension 0x0A0A empty at the end.
\<close>

theorem tls12_client_hello_parses:
  "\<exists>bs h. tls12_client_hello = Inr bs \<and> parse_hello bs = Some h \<and>
    offered_protocols h = Some [lit ''http/1.1'', lit ''h2''] \<and>
    server_name h = Some (lit ''localhost'') \<and>
    map ext_number (ch_extensions h) = [0, 16, 10, 11, 13, 0x0A0A] \<and>
    extension h 0x0A0A = Some []"
proof (intro exI conjI)
  show "tls12_client_hello = Inr (hello_wire hello12)" by (rule tls12_client_hello_eq)
  show "parse_hello (hello_wire hello12) = Some hello12"
    by (rule parse_hello_wire) (rule hello12_ok)
  show "offered_protocols hello12 = Some [lit ''http/1.1'', lit ''h2'']"
    by (intro offered_alpn) (simp_all add: extension_def hello12_def alpn_ok_def)
  show "server_name hello12 = Some (lit ''localhost'')"
    by (rule server_name_sni) (simp add: extension_def hello12_def)
qed (simp_all add: extension_def hello12_def)

text \<open>
  The two-byte header of the SSLv2 hello has its top bit set and announces exactly
  the number of bytes that follow.
\<close>

theorem sslv2_header_length:
  "\<exists>b1 b2 body. sslv2_client_hello = Inr (b1 # b2 # body) \<and> 128 \<le> unat b1 \<and>
    (unat b1 - 128) * 256 + unat b2 = length body"
  by (simp add: sslv2_client_hello_def Let_def bytes_of_simps byte_of_def)

end
