(* ===== verification/Http2_Frames.thy ===== *)
theory Http2_Frames
  imports Py_Bytes Prefix_Codec
begin

text \<open>
  \<open>h2_frame\<close> and \<open>h2_request_headers\<close> of \<open>generate-interesting-corpus.py\<close>,
  read back by the HTTP/2 frame layout and by the part of HPACK the generator writes.
\<close>

unbundle bit_operations_syntax

section \<open>The builders\<close>

definition h2_frame :: "int \<Rightarrow> int \<Rightarrow> int \<Rightarrow> bytes \<Rightarrow> bytes result" where
  "h2_frame frame_type flags stream payload =
     cat [len_bytes 3 payload, bytes_of [frame_type, flags],
          to_bytes_big (stream AND 0x7FFFFFFF) 4, Inr payload]"

definition h2_request_headers :: "int \<Rightarrow> bytes \<Rightarrow> bytes result" where
  "h2_request_headers stream path =
     (if path = [] \<or> length path > 0x7F
      then Inl (ValueError ''HTTP/2 seed path must contain 1 through 127 bytes'')
      else bind_result
        (cat [Inr [0x82, 0x86, 0x04], bytes_of [int (length path)], Inr path])
        (\<lambda>block. h2_frame 0x01 0x05 stream (block @ [0x01, 0x09] @ lit ''localhost'')))"

section \<open>The frame layout\<close>

text \<open>A 9-byte header (24-bit length, type, flags, 31-bit stream), then the payload.\<close>

record h2_frame_view =
  h2_type :: nat
  h2_flags :: nat
  h2_stream :: nat
  h2_payload :: bytes

definition h2_valid :: "h2_frame_view \<Rightarrow> bool" where
  "h2_valid f \<longleftrightarrow> h2_type f < 256 \<and> h2_flags f < 256 \<and> h2_stream f < 2 ^ 31 \<and>
     length (h2_payload f) < 2 ^ 24"

definition h2_wire :: "h2_frame_view \<Rightarrow> bytes" where
  "h2_wire f = be_encode 3 (length (h2_payload f)) @ [of_nat (h2_type f), of_nat (h2_flags f)] @
     be_encode 4 (h2_stream f) @ h2_payload f"

text \<open>A receiver ignores the reserved top bit of the stream field.\<close>

definition h2_parse :: "bytes \<Rightarrow> (h2_frame_view \<times> bytes) option" where
  "h2_parse bs =
     (if length bs < 9 then None
      else let n = from_bytes_big (take 3 bs); rest = drop 9 bs
           in if length rest < n then None
              else Some (\<lparr>h2_type = unat (bs ! 3), h2_flags = unat (bs ! 4),
                          h2_stream = from_bytes_big (take 4 (drop 5 bs)) mod 2 ^ 31,
                          h2_payload = take n rest\<rparr>, drop n rest))"

lemma length_h2_wire [simp, bytes_simps]: "length (h2_wire f) = 9 + length (h2_payload f)"
  by (simp add: h2_wire_def)

lemma h2_parse_wire:
  assumes "h2_valid f"
  shows "h2_parse (h2_wire f @ rest) = Some (f, rest)"
proof -
  let ?n = "length (h2_payload f)"
  have n: "from_bytes_big (be_encode 3 ?n) = ?n" and s: "from_bytes_big (be_encode 4 (h2_stream f)) = h2_stream f"
    using assms by (simp_all add: h2_valid_def)
  have "(h2_wire f @ rest) ! 3 = of_nat (h2_type f)" "(h2_wire f @ rest) ! 4 = of_nat (h2_flags f)"
    "take 3 (h2_wire f @ rest) = be_encode 3 ?n"
    "take 4 (drop 5 (h2_wire f @ rest)) = be_encode 4 (h2_stream f)"
    "drop 9 (h2_wire f @ rest) = h2_payload f @ rest"
    by (simp_all add: h2_wire_def nth_append)
  then show ?thesis
    using assms n s by (simp add: h2_parse_def Let_def h2_valid_def unat_of_nat_byte)
qed

interpretation h2: prefix_codec h2_wire h2_parse h2_valid
  by unfold_locales (simp_all only: h2_parse_wire, simp add: h2_wire_def)

section \<open>What the builders produce\<close>

lemma stream_mask: "stream AND 0x7FFFFFFF = stream mod 2 ^ 31" for stream :: int
proof -
  have "stream AND mask 31 = take_bit 31 stream" by (simp add: take_bit_eq_mask)
  then show ?thesis by (simp add: mask_eq_exp_minus_1 take_bit_eq_mod)
qed

definition h2_view :: "int \<Rightarrow> int \<Rightarrow> int \<Rightarrow> bytes \<Rightarrow> h2_frame_view" where
  "h2_view frame_type flags stream payload =
     \<lparr>h2_type = nat frame_type, h2_flags = nat flags, h2_stream = nat (stream mod 2 ^ 31),
      h2_payload = payload\<rparr>"

lemma h2_frame_Inr_iff:
  "h2_frame t fl s p = Inr bs \<longleftrightarrow>
     length p < 2 ^ 24 \<and> 0 \<le> t \<and> t < 256 \<and> 0 \<le> fl \<and> fl < 256 \<and> bs = h2_wire (h2_view t fl s p)"
proof -
  have "0 \<le> s mod 2147483648" and "s mod 2147483648 < 2147483648" by simp_all
  then have "\<not> s mod 2147483648 < 0" and "s mod 2147483648 < 4294967296" by linarith+
  then have "to_bytes_big (s AND 0x7FFFFFFF) 4 = Inr (be_encode 4 (nat (s mod 2 ^ 31)))"
    by (simp add: stream_mask to_bytes_big_def)
  moreover have "(of_nat (nat x) :: byte) = word_of_int x" if "0 \<le> x" for x
    using that by simp
  ultimately show ?thesis
    by (auto simp: h2_frame_def h2_wire_def h2_view_def bind_result_eq_Inr len_bytes_Inr_iff
        bytes_of_simps byte_of_Inr_iff)
qed

lemma h2_view_valid:
  "h2_frame t fl s p = Inr bs \<Longrightarrow> h2_valid (h2_view t fl s p)"
  using pos_mod_bound [of "2 ^ 31" s]
  by (auto simp: h2_frame_Inr_iff h2_valid_def h2_view_def nat_less_iff)

section \<open>HPACK\<close>

text \<open>
  The representations the generator writes: an indexed field of the static table, and a
  literal field without indexing whose name is indexed or spelled out, with strings that
  are not Huffman-coded.
\<close>

definition hpack_name :: "nat \<Rightarrow> string option" where
  "hpack_name i =
     (if i = 1 then Some '':authority'' else if i = 2 \<or> i = 3 then Some '':method''
      else if i = 4 \<or> i = 5 then Some '':path'' else if i = 6 \<or> i = 7 then Some '':scheme''
      else None)"

definition hpack_indexed :: "nat \<Rightarrow> (string \<times> bytes) option" where
  "hpack_indexed i =
     (if i = 2 then Some ('':method'', lit ''GET'') else if i = 3 then Some ('':method'', lit ''POST'')
      else if i = 4 then Some ('':path'', lit ''/'')
      else if i = 6 then Some ('':scheme'', lit ''http'') else if i = 7 then Some ('':scheme'', lit ''https'')
      else None)"

text \<open>The 7-bit prefix integer: 127 announces continuation bytes.\<close>

fun hpack_more :: "nat \<Rightarrow> nat \<Rightarrow> bytes \<Rightarrow> (nat \<times> bytes) option" where
  "hpack_more acc m [] = None"
| "hpack_more acc m (b # bs) =
     (let acc' = acc + (unat b mod 128) * 2 ^ m
      in if unat b < 128 then Some (acc', bs) else hpack_more acc' (m + 7) bs)"

definition hpack_length :: "bytes \<Rightarrow> (nat \<times> bytes) option" where
  "hpack_length bs = (case bs of
     [] \<Rightarrow> None
   | b # rest \<Rightarrow>
       if unat b \<ge> 128 then None
       else if unat b < 127 then Some (unat b, rest)
       else hpack_more 127 0 rest)"

definition hpack_string :: "bytes \<Rightarrow> (bytes \<times> bytes) option" where
  "hpack_string bs = (case hpack_length bs of
     None \<Rightarrow> None
   | Some (n, rest) \<Rightarrow> if length rest < n then None else Some (take n rest, drop n rest))"

definition hpack_field :: "bytes \<Rightarrow> ((string \<times> bytes) \<times> bytes) option" where
  "hpack_field bs = (case bs of
     [] \<Rightarrow> None
   | b # rest \<Rightarrow>
       if unat b \<ge> 128 then map_option (\<lambda>f. (f, rest)) (hpack_indexed (unat b - 128))
       else if 0 < unat b \<and> unat b < 15 then
         (case (hpack_name (unat b), hpack_string rest) of
            (Some name, Some (v, rest')) \<Rightarrow> Some ((name, v), rest')
          | _ \<Rightarrow> None)
       else if unat b = 0 then
         (case hpack_string rest of
            None \<Rightarrow> None
          | Some (name, rest') \<Rightarrow>
              map_option (\<lambda>(v, rest''). ((map (\<lambda>c. char_of (unat c)) name, v), rest''))
                (hpack_string rest'))
       else None)"

text \<open>The header block of \<open>h2_request_headers\<close>, and what a receiver reads from it.\<close>

definition request_block :: "bytes \<Rightarrow> bytes" where
  "request_block path = [0x82, 0x86, 0x04] @ [of_nat (length path)] @ path @
     [0x01, 0x09] @ lit ''localhost''"

lemma h2_request_headers_eq:
  "path \<noteq> [] \<Longrightarrow> length path \<le> 127 \<Longrightarrow>
   h2_request_headers stream path = h2_frame 1 5 stream (request_block path)"
  by (simp add: h2_request_headers_def request_block_def bytes_of_simps byte_of_nat)

lemma decode_all_hpack:
  "hpack_field bs = Some (f, rest) \<Longrightarrow> length rest < length bs \<Longrightarrow>
   decode_all hpack_field bs = map_option (Cons f) (decode_all hpack_field rest)"
  by (subst decode_all.simps) auto

lemma hpack_string_short:
  "length v < 127 \<Longrightarrow> hpack_string (of_nat (length v) # v @ rest) = Some (v, rest)"
  by (simp add: hpack_string_def hpack_length_def unat_of_nat_byte)

lemma hpack_literal:
  assumes "0 < unat b" "unat b < 15" "hpack_name (unat b) = Some name" "length v < 127"
  shows "decode_all hpack_field (b # of_nat (length v) # v @ rest) =
    map_option (Cons (name, v)) (decode_all hpack_field rest)"
  using assms by (intro decode_all_hpack) (simp_all add: hpack_field_def hpack_string_short)

lemma request_block_decodes:
  assumes "length path < 127"
  shows "decode_all hpack_field (request_block path) =
    Some [('':method'', lit ''GET''), ('':scheme'', lit ''http''), ('':path'', path),
          ('':authority'', lit ''localhost'')]"
proof -
  let ?rest = "[0x01, 0x09] @ lit ''localhost''"
  have "decode_all hpack_field ([0x01] @ [of_nat (length (lit ''localhost''))] @ lit ''localhost'' @ []) =
      Some [('':authority'', lit ''localhost'')]"
    by (simp add: hpack_literal [of 1 "'':authority''" "lit ''localhost''" "[]", simplified] hpack_name_def)
  then have l: "decode_all hpack_field ?rest = Some [('':authority'', lit ''localhost'')]" by simp
  have "decode_all hpack_field (0x04 # of_nat (length path) # path @ ?rest) =
      Some [('':path'', path), ('':authority'', lit ''localhost'')]"
    using assms l by (subst hpack_literal) (simp_all add: hpack_name_def)
  then show ?thesis
    unfolding request_block_def
    by (simp add: decode_all_hpack hpack_field_def hpack_indexed_def)
qed

text \<open>A length byte of 127 is read as the start of a longer integer.\<close>

lemma request_block_127:
  assumes "length path = 127" and "path = b # tail" and "10 < unat b" and "unat b < 128"
  shows "decode_all hpack_field (request_block path) = None"
proof -
  let ?rest = "[0x01, 0x09] @ lit ''localhost''"
  have "length tail = 126" using assms(1,2) by simp
  then have "hpack_string (0x7F # path @ ?rest) = None"
    using assms(2-4) by (simp add: hpack_string_def hpack_length_def)
  then have "decode_all hpack_field (0x04 # 0x7F # path @ ?rest) = None"
    by (subst decode_all.simps) (simp add: hpack_field_def hpack_name_def)
  then show ?thesis
    unfolding request_block_def using assms(1)
    by (simp add: decode_all_hpack hpack_field_def hpack_indexed_def)
qed

section \<open>Properties\<close>

text \<open>
  C27: \<open>h2_frame\<close> succeeds exactly for payloads below 2^24 bytes and one-byte type and
  flags, and then a receiver reads back type, flags, payload and the stream number
  modulo 2^31, and finds whatever follows the frame untouched.
\<close>

theorem h2_frame_roundtrip:
  "case h2_frame t fl s p of
     Inl _ \<Rightarrow> \<not> (length p < 2 ^ 24 \<and> t \<in> {0..255} \<and> fl \<in> {0..255})
   | Inr bs \<Rightarrow> length p < 2 ^ 24 \<and> t \<in> {0..255} \<and> fl \<in> {0..255} \<and>
       h2_parse (bs @ rest) =
         Some (\<lparr>h2_type = nat t, h2_flags = nat fl, h2_stream = nat (s mod 2 ^ 31),
                h2_payload = p\<rparr>, rest)"
proof (cases "h2_frame t fl s p")
  case (Inl e)
  then have "h2_frame t fl s p \<noteq> Inr (h2_wire (h2_view t fl s p))" by simp
  then have "\<not> (length p < 2 ^ 24 \<and> 0 \<le> t \<and> t < 256 \<and> 0 \<le> fl \<and> fl < 256)"
    unfolding h2_frame_Inr_iff by blast
  with Inl show ?thesis by auto
next
  case (Inr bs)
  from h2_view_valid [OF Inr] have "h2_parse (h2_wire (h2_view t fl s p) @ rest) =
      Some (h2_view t fl s p, rest)" by (rule h2.dec_enc)
  with Inr [unfolded h2_frame_Inr_iff] show ?thesis
    unfolding Inr sum.case by (auto simp: h2_view_def)
qed

text \<open>
  C37: for a path of 1 to 126 bytes, the frame of \<open>h2_request_headers\<close> is a HEADERS
  frame that ends headers and stream, and HPACK decodes its block to a GET request for
  exactly that path on localhost.
\<close>

theorem h2_request_headers_decode:
  assumes "path \<noteq> []" and "length path < 127"
  shows "\<exists>bs block. h2_request_headers s path = Inr bs \<and>
    h2_parse bs = Some (\<lparr>h2_type = 1, h2_flags = 5, h2_stream = nat (s mod 2 ^ 31),
                         h2_payload = block\<rparr>, []) \<and>
    decode_all hpack_field block =
      Some [('':method'', lit ''GET''), ('':scheme'', lit ''http''), ('':path'', path),
            ('':authority'', lit ''localhost'')]"
proof -
  have f: "h2_request_headers s path = Inr (h2_wire (h2_view 1 5 s (request_block path)))"
    using assms by (simp add: h2_request_headers_eq h2_frame_Inr_iff request_block_def)
  then have "h2_valid (h2_view 1 5 s (request_block path))"
    using assms by (intro h2_view_valid) (simp add: h2_request_headers_eq)
  then have "h2_parse (h2_wire (h2_view 1 5 s (request_block path)) @ []) =
      Some (h2_view 1 5 s (request_block path), [])" by (rule h2.dec_enc)
  with f request_block_decodes [OF assms(2)] show ?thesis
    by (auto simp: h2_view_def)
qed

theorem h2_request_headers_decode_witness:
  "\<exists>bs block. h2_request_headers 3 (lit ''/index.txt'') = Inr bs \<and>
    h2_parse bs = Some (\<lparr>h2_type = 1, h2_flags = 5, h2_stream = 3, h2_payload = block\<rparr>, []) \<and>
    decode_all hpack_field block =
      Some [('':method'', lit ''GET''), ('':scheme'', lit ''http''), ('':path'', lit ''/index.txt''),
            ('':authority'', lit ''localhost'')]"
  using h2_request_headers_decode [of "lit ''/index.txt''" 3] by simp

text \<open>
  C38: the guard of \<open>h2_request_headers\<close> also admits a path of 127 bytes, whose length
  byte HPACK takes for the start of a longer integer: the frame is built, but for a path
  that starts with a printable character its header block does not decode.
\<close>

theorem h2_request_headers_127_misread:
  assumes "length path = 127" and "hd path \<in> {0x20..0x7e}"
  shows "\<exists>bs block. h2_request_headers s path = Inr bs \<and>
    h2_parse bs = Some (\<lparr>h2_type = 1, h2_flags = 5, h2_stream = nat (s mod 2 ^ 31),
                         h2_payload = block\<rparr>, []) \<and>
    decode_all hpack_field block = None"
proof -
  obtain b tl where p: "path = b # tl" using assms(1) by (cases path) auto
  have b: "10 < unat b" "unat b < 128"
    using assms(2) p by (simp_all add: word_le_nat_alt)
  have f: "h2_request_headers s path = Inr (h2_wire (h2_view 1 5 s (request_block path)))"
    using assms(1) p by (simp add: h2_request_headers_eq h2_frame_Inr_iff request_block_def)
  then have "h2_valid (h2_view 1 5 s (request_block path))"
    using assms(1) p by (intro h2_view_valid) (simp add: h2_request_headers_eq)
  then have "h2_parse (h2_wire (h2_view 1 5 s (request_block path)) @ []) =
      Some (h2_view 1 5 s (request_block path), [])" by (rule h2.dec_enc)
  with f request_block_127 [OF assms(1) p b] show ?thesis
    by (auto simp: h2_view_def)
qed

theorem h2_request_headers_127_misread_witness:
  "\<exists>bs block. h2_request_headers 1 (replicate 127 0x61) = Inr bs \<and>
    h2_parse bs = Some (\<lparr>h2_type = 1, h2_flags = 5, h2_stream = 1, h2_payload = block\<rparr>, []) \<and>
    decode_all hpack_field block = None"
  using h2_request_headers_127_misread [of "replicate 127 0x61" 1] by (simp add: hd_replicate)

end
