(* ===== verification/Py_Text.thy ===== *)
theory Py_Text
  imports Fuzz_Base
begin

text \<open>
  The parts of Python's string formatting the tools print with: decimal and hexadecimal
  integers, padded fields, \<open>repr\<close> of a string, and line splitting and stripping.
  Strings hold the code points below 256.
\<close>

section \<open>Numbers\<close>

definition digit_char :: "nat \<Rightarrow> char" where
  "digit_char d = (if d < 10 then char_of (48 + d) else char_of (87 + d))"

fun show_nat :: "nat \<Rightarrow> string" where
  "show_nat n = (if n < 10 then [digit_char n] else show_nat (n div 10) @ [digit_char (n mod 10)])"

declare show_nat.simps [simp del]

definition show_int :: "int \<Rightarrow> string" where
  "show_int i = (if i < 0 then ''-'' @ show_nat (nat (- i)) else show_nat (nat i))"

fun show_hex :: "nat \<Rightarrow> string" where
  "show_hex n = (if n < 16 then [digit_char n] else show_hex (n div 16) @ [digit_char (n mod 16)])"

declare show_hex.simps [simp del]

section \<open>Fields\<close>

definition ljust :: "nat \<Rightarrow> string \<Rightarrow> string" where
  "ljust w s = s @ replicate (w - length s) CHR '' ''"

definition rjust :: "nat \<Rightarrow> string \<Rightarrow> string" where
  "rjust w s = replicate (w - length s) CHR '' '' @ s"

definition zero_pad :: "nat \<Rightarrow> string \<Rightarrow> string" where
  "zero_pad w s = replicate (w - length s) CHR ''0'' @ s"

lemma length_ljust: "length (ljust w s) = max w (length s)"
  by (simp add: ljust_def)

text \<open>Two lower-case hexadecimal digits, as \<open>bytes.hex\<close> prints each byte.\<close>

definition hex2 :: "nat \<Rightarrow> string" where
  "hex2 n = zero_pad 2 (show_hex n)"

section \<open>Character classes\<close>

definition code :: "char \<Rightarrow> nat" where
  "code c = of_char c"

definition is_digit :: "char \<Rightarrow> bool" where
  "is_digit c \<longleftrightarrow> 48 \<le> code c \<and> code c \<le> 57"

definition is_upper :: "char \<Rightarrow> bool" where
  "is_upper c \<longleftrightarrow> 65 \<le> code c \<and> code c \<le> 90"

definition is_lower :: "char \<Rightarrow> bool" where
  "is_lower c \<longleftrightarrow> 97 \<le> code c \<and> code c \<le> 122"

definition is_letter :: "char \<Rightarrow> bool" where
  "is_letter c \<longleftrightarrow> is_upper c \<or> is_lower c"

definition is_hex :: "char \<Rightarrow> bool" where
  "is_hex c \<longleftrightarrow> is_digit c \<or> (65 \<le> code c \<and> code c \<le> 70) \<or> (97 \<le> code c \<and> code c \<le> 102)"

text \<open>\<open>str.isspace\<close>, the class of \<open>str.strip\<close>, \<open>str.split\<close> and of \<open>\s\<close>.\<close>

definition is_space :: "char \<Rightarrow> bool" where
  "is_space c \<longleftrightarrow> (9 \<le> code c \<and> code c \<le> 13) \<or> (28 \<le> code c \<and> code c \<le> 32) \<or>
     code c = 133 \<or> code c = 160"

text \<open>The characters \<open>str.splitlines\<close> ends a line at.\<close>

definition is_line_end :: "char \<Rightarrow> bool" where
  "is_line_end c \<longleftrightarrow> (10 \<le> code c \<and> code c \<le> 13) \<or> (28 \<le> code c \<and> code c \<le> 30) \<or>
     code c = 133"

definition newline :: char where
  "newline = CHR 0x0A"

section \<open>Stripping and splitting\<close>

definition strip :: "string \<Rightarrow> string" where
  "strip s = rev (dropWhile is_space (rev (dropWhile is_space s)))"

text \<open>
  \<open>str.splitlines()\<close>: \<open>\r\n\<close> is one line end, and no empty line follows the last
  line end.
\<close>

fun splitlines_from :: "string \<Rightarrow> string \<Rightarrow> string list" where
  "splitlines_from cur [] = (if cur = [] then [] else [rev cur])"
| "splitlines_from cur (c # cs) =
     (if code c = 13 \<and> cs \<noteq> [] \<and> code (hd cs) = 10 then rev cur # splitlines_from [] (tl cs)
      else if is_line_end c then rev cur # splitlines_from [] cs
      else splitlines_from (c # cur) cs)"

definition splitlines :: "string \<Rightarrow> string list" where
  "splitlines s = splitlines_from [] s"

text \<open>\<open>str.split()\<close>: the maximal runs of characters that are not white space.\<close>

fun words_from :: "string \<Rightarrow> string \<Rightarrow> string list" where
  "words_from cur [] = (if cur = [] then [] else [rev cur])"
| "words_from cur (c # cs) =
     (if is_space c then (if cur = [] then words_from [] cs else rev cur # words_from [] cs)
      else words_from (c # cur) cs)"

definition split_ws :: "string \<Rightarrow> string list" where
  "split_ws s = words_from [] s"

text \<open>A text given by its lines.\<close>

definition unlines :: "string list \<Rightarrow> string" where
  "unlines ls = concat (map (\<lambda>l. l @ [newline]) ls)"

lemma unlines_simps [simp]:
  "unlines [] = []" "unlines (l # ls) = l @ newline # unlines ls"
  by (simp_all add: unlines_def)

section \<open>repr\<close>

text \<open>\<open>str.isprintable\<close> below 256: everything but controls, U+00A0 and U+00AD.\<close>

definition printable :: "char \<Rightarrow> bool" where
  "printable c \<longleftrightarrow> (32 \<le> code c \<and> code c < 127) \<or> (160 < code c \<and> code c \<noteq> 173)"

definition repr_char :: "char \<Rightarrow> char \<Rightarrow> string" where
  "repr_char quote c =
     (if c = quote \<or> code c = 92 then [CHR 0x5C, c]
      else if code c = 9 then [CHR 0x5C, CHR ''t'']
      else if code c = 10 then [CHR 0x5C, CHR ''n'']
      else if code c = 13 then [CHR 0x5C, CHR ''r'']
      else if printable c then [c]
      else [CHR 0x5C, CHR ''x''] @ hex2 (code c))"

definition repr_quote :: "string \<Rightarrow> char" where
  "repr_quote s = (if CHR 0x27 \<in> set s \<and> CHR 0x22 \<notin> set s then CHR 0x22 else CHR 0x27)"

definition py_repr :: "string \<Rightarrow> string" where
  "py_repr s = (let q = repr_quote s in [q] @ concat (map (repr_char q) s) @ [q])"

section \<open>Facts\<close>

lemma splitlines_from_nonempty_runs:
  "\<forall>c \<in> set cur. \<not> is_line_end c \<Longrightarrow> l \<in> set (splitlines_from cur s) \<Longrightarrow> c \<in> set l \<Longrightarrow> \<not> is_line_end c"
  by (induction cur s arbitrary: l rule: splitlines_from.induct) (auto split: if_splits)

definition is_word :: "string \<Rightarrow> bool" where
  "is_word w \<longleftrightarrow> w \<noteq> [] \<and> list_all (\<lambda>c. \<not> is_space c) w"

lemma words_from_no_space:
  "list_all (\<lambda>c. \<not> is_space c) cur \<Longrightarrow> list_all is_word (words_from cur s)"
  by (induction cur s rule: words_from.induct) (simp_all add: is_word_def list_all_rev)

lemma split_ws_words: "list_all is_word (split_ws s)"
  by (simp add: split_ws_def words_from_no_space)

lemma strip_in_set: "set (strip s) \<subseteq> set s"
  unfolding strip_def by (metis set_dropWhileD set_rev subsetI)

lemma strip_idem [simp]: "strip (strip s) = strip s"
proof -
  define t where "t = dropWhile is_space s"
  define u where "u = rev (dropWhile is_space (rev t))"
  have su: "strip s = u" by (simp add: strip_def t_def u_def)
  have tu: "t = u @ rev (takeWhile is_space (rev t))"
    unfolding u_def by (metis rev_append rev_rev_ident takeWhile_dropWhile_id)
  have "dropWhile is_space u = u"
  proof (cases u)
    case (Cons c cs)
    then have "t = c # cs @ rev (takeWhile is_space (rev t))" using tu by simp
    then have "\<not> is_space c"
      unfolding t_def by (metis dropWhile_eq_Cons_conv)
    with Cons show ?thesis by simp
  qed simp
  moreover have "dropWhile is_space (rev u) = rev u"
    by (simp add: u_def dropWhile_idem)
  ultimately show ?thesis unfolding su by (simp add: strip_def)
qed

end
