(* ===== verification/Corpus_Locals.thy ===== *)
theory Corpus_Locals
  imports Tls_Facts Http2_Frames Replay_Input Py_Text
begin

text \<open>
  The variables that \<open>corpus_seeds\<close> of \<open>generate-interesting-corpus.py\<close> binds before
  it builds its dictionary, one definition per assignment. \<open>gzip.compress(x, mtime=0)\<close>
  belongs to the standard library's binding of zlib: it is the parameter \<open>gz\<close>. Then
  the rules by which a seed is shown to be built and accepted by the decoder.
\<close>

unbundle bit_operations_syntax

section \<open>The local variables of corpus_seeds\<close>

abbreviation dq :: string where
  "dq \<equiv> [CHR 0x22]"

definition cs_get :: "bytes" where
  "cs_get = request ''GET'' ''/'' [] no_body"

definition cs_head :: "bytes" where
  "cs_head = request ''HEAD'' ''/index.html'' [''Connection: keep-alive''] no_body"

definition cs_options :: "bytes" where
  "cs_options = request ''OPTIONS'' ''*'' [''Connection: keep-alive''] no_body"

definition cs_chunk_headers :: "bytes" where
  "cs_chunk_headers =
     request ''POST'' ''/upload''
         [''Transfer-Encoding: chunked'',
          ''Trailer: X-Checksum'',
          ''Content-Type: text/plain''] no_body"

definition cs_expect_headers :: "bytes" where
  "cs_expect_headers =
     request ''POST'' ''/upload''
         [''Content-Length: 11'',
          ''Expect: 100-continue'',
          ''Content-Type: text/plain''] no_body"

definition cs_h2_settings :: "bytes result" where
  "cs_h2_settings = h2_frame 0x04 0x00 0 [0x00, 0x03, 0x00, 0x00, 0x00, 0x64]"

definition cs_h2_headers :: "bytes result" where
  "cs_h2_headers = h2_request_headers 1 (lit ''/'')"

definition cs_h2_ping :: "bytes result" where
  "cs_h2_ping = h2_frame 0x06 0x00 0 (lit ''fuzzhttp'')"

definition cs_h2_preface :: "bytes" where
  "cs_h2_preface = lit (''PRI * HTTP/2.0'' @ crlf @ crlf @ ''SM'' @ crlf @ crlf)"

definition cs_h2_post_path :: "bytes" where
  "cs_h2_post_path = lit ''/upload''"

definition cs_h2_post_block :: "bytes result" where
  "cs_h2_post_block =
     cat [Inr [0x83, 0x86, 0x04],
          bytes_of [int (length cs_h2_post_path)],
          Inr cs_h2_post_path,
          Inr ([0x01, 0x09] @ lit ''localhost'')]"

definition cs_h2_large_post :: "bytes result" where
  "cs_h2_large_post =
     cat [Inr cs_h2_preface,
          cs_h2_settings,
          bind_result cs_h2_post_block (\<lambda>b. h2_frame 0x01 0x04 1 b),
          h2_frame 0x00 0x01 1 (replicate 8001 0x41)]"

definition cs_h2_upgrade :: "bytes" where
  "cs_h2_upgrade =
     request ''GET'' ''/h2c''
         [''Connection: Upgrade, HTTP2-Settings'',
          ''Upgrade: h2c'',
          ''HTTP2-Settings: AAMAAABkAAQAAP__''] no_body"

definition cs_hello :: "bytes result" where
  "cs_hello = tls_client_hello [lit ''h2'', lit ''http/1.1'']"

definition cs_hello12 :: "bytes result" where
  "cs_hello12 = tls12_client_hello"

definition cs_hello_h2_only :: "bytes result" where
  "cs_hello_h2_only = tls_client_hello [lit ''h2'']"

definition cs_longest_alpn_name :: "bytes" where
  "cs_longest_alpn_name = (lit ''fuzz-'') @ replicate 250 0x61"

definition cs_hello_alpn_boundary :: "bytes result" where
  "cs_hello_alpn_boundary = tls_client_hello [cs_longest_alpn_name, lit ''h2'']"

definition cs_gzip_body :: "(bytes \<Rightarrow> bytes) \<Rightarrow> bytes" where
  "cs_gzip_body gz = gz (concat (replicate 4 (lit (''fuzz input filter'' @ [CHR 0x0A]))))"

definition cs_gzip_bad_crc :: "(bytes \<Rightarrow> bytes) \<Rightarrow> bytes" where
  "cs_gzip_bad_crc gz =
     (slice_to (cs_gzip_body gz) (- 8)) @
       (map (\<lambda>b. b XOR 0xFF) (slice_from (cs_gzip_body gz) (- 8)))"

definition cs_gzip_members :: "(bytes \<Rightarrow> bytes) \<Rightarrow> bytes" where
  "cs_gzip_members gz =
     (gz (lit (''first fuzz member'' @ [CHR 0x0A]))) @
       (gz (lit (''second fuzz member'' @ [CHR 0x0A])))"

definition cs_form_body :: "bytes" where
  "cs_form_body = lit ''httpd_username=fuzz&httpd_password=fuzz&login=Login''"

definition cs_proppatch_body :: "bytes" where
  "cs_proppatch_body =
     lit (''<?xml version='' @ dq @ ''1.0'' @ dq @ ''?><D:propertyupdate xmlns:D='' @ dq @
          ''DAV:'' @ dq @ '' xmlns:F='' @ dq @ ''urn:fuzz'' @ dq @
          ''><D:set><D:prop><F:value>fuzz</F:value></D:prop></D:set></D:propertyupdate>'')"

definition cs_propfind_lock_body :: "bytes" where
  "cs_propfind_lock_body =
     lit (''<D:propfind xmlns:D='' @ dq @ ''DAV:'' @ dq @
          ''><D:prop><D:lockdiscovery/><D:supportedlock/></D:prop></D:propfind>'')"

definition cs_balancer_manager_body :: "bytes" where
  "cs_balancer_manager_body =
     lit (''b=managed&w=http%3A%2F%2F%5B%3A%3A1%5D%3A6827&nonce=fuzz'' @
          ''&w_lf=1.25&w_ls=1&w_wr=one&w_status_I=0&w_status_N=0'' @
          ''&w_status_D=0&b_lbm=byrequests&b_tmo=1&b_max=2&b_sforce=0'' @
          ''&b_ss=FUZZROUTE&xml=1'')"

definition cs_proxy_v2_signature :: "bytes" where
  "cs_proxy_v2_signature = lit (crlf @ crlf) @ [0x00] @ lit (crlf @ ''QUIT'') @ [0x0a]"

definition cs_proxy_v1_tcp4 :: "bytes" where
  "cs_proxy_v1_tcp4 = lit (''PROXY TCP4 192.0.2.1 198.51.100.2 12345 5835'' @ crlf)"

definition cs_proxy_v1_tcp6 :: "bytes" where
  "cs_proxy_v1_tcp6 = lit (''PROXY TCP6 2001:db8::1 2001:db8::2 443 5835'' @ crlf)"

definition cs_proxy_v1_unknown :: "bytes" where
  "cs_proxy_v1_unknown = lit (''PROXY UNKNOWN fuzz'' @ crlf)"

definition cs_proxy_v2_tcp4 :: "bytes" where
  "cs_proxy_v2_tcp4 =
     cs_proxy_v2_signature @ [0x21, 0x11, 0x00, 0x0c] @
       [0xc0, 0x00, 0x02, 0x01, 0xc6, 0x33, 0x64, 0x02] @ [0x30, 0x39, 0x16, 0xcb]"

definition cs_proxy_v2_tcp6 :: "bytes" where
  "cs_proxy_v2_tcp6 =
     cs_proxy_v2_signature @ [0x21, 0x21, 0x00, 0x24] @
       [0x20, 0x01, 0x0d, 0xb8, 0x00, 0x00, 0x00, 0x00, 0x00, 0x00, 0x00, 0x00, 0x00, 0x00,
        0x00, 0x01] @
       [0x20, 0x01, 0x0d, 0xb8, 0x00, 0x00, 0x00, 0x00, 0x00, 0x00, 0x00, 0x00, 0x00, 0x00,
        0x00, 0x02] @ [0x01, 0xbb, 0x16, 0xcb]"

definition cs_proxy_v2_local :: "bytes" where
  "cs_proxy_v2_local = cs_proxy_v2_signature @ [0x20, 0x00, 0x00, 0x00]"

definition cs_proxy_v2_oversize :: "bytes" where
  "cs_proxy_v2_oversize = cs_proxy_v2_signature @ [0x21, 0x11, 0x00, 0xd9]"

definition cs_proxy_v2_short_tcp4 :: "bytes" where
  "cs_proxy_v2_short_tcp4 = cs_proxy_v2_signature @ [0x21, 0x11, 0x00, 0x00]"

definition cs_proxy_v2_short_tcp6 :: "bytes" where
  "cs_proxy_v2_short_tcp6 = cs_proxy_v2_signature @ [0x21, 0x21, 0x00, 0x00]"

section \<open>When a seed is accepted\<close>

text \<open>
  A seed is good when it is built, the decoder accepts it with its flags and packets, and
  each packet, also one without a frame, is of a size that a frame can carry.
\<close>

definition seed_ok :: "bytes result \<Rightarrow> bool" where
  "seed_ok r \<longleftrightarrow> (case r of Inl _ \<Rightarrow> False
     | Inr d \<Rightarrow> (case parse_fuzzer_input d of Inl _ \<Rightarrow> False
         | Inr fi \<Rightarrow> list_all frame_ok (packets fi)))"

named_theorems seed_rules \<open>rules that decide whether a seed is good\<close>

lemma seed_ok_raw [seed_rules]:
  "0 \<le> fl \<Longrightarrow> fl < 256 \<Longrightarrow> fl AND 2 = 0 \<Longrightarrow> frame_ok p \<Longrightarrow> seed_ok (raw p fl)"
proof -
  assume fl: "0 \<le> fl" "fl < 256" "fl AND 2 = 0" and p: "frame_ok p"
  then have "raw p fl = Inr (word_of_int fl # p)" by (simp add: raw_Inr_iff)
  with p parse_raw [OF this fl(3)] show "seed_ok (raw p fl)" by (simp add: seed_ok_def)
qed

lemma seed_ok_multipacket [seed_rules]:
  "0 \<le> fl \<Longrightarrow> fl < 256 \<Longrightarrow> fl AND 2 \<noteq> 0 \<Longrightarrow> ps \<noteq> [] \<Longrightarrow> length ps \<le> 64 \<Longrightarrow>
   list_all frame_ok ps \<Longrightarrow> seed_ok (multipacket ps fl)"
proof -
  assume fl: "0 \<le> fl" "fl < 256" "fl AND 2 \<noteq> 0"
    and ps: "ps \<noteq> []" "length ps \<le> 64" "list_all frame_ok ps"
  then have "multipacket ps fl = Inr (word_of_int fl # concat (map frame ps))"
    by (simp add: multipacket_Inr_iff)
  with ps parse_multipacket [OF this fl(3) ps(2)] show "seed_ok (multipacket ps fl)"
    by (simp add: seed_ok_def)
qed

text \<open>What a seed sends over its connection: all its packets, one after the other.\<close>

definition seed_stream :: "bytes result \<Rightarrow> bytes option" where
  "seed_stream r = (case bind_result r parse_fuzzer_input of
     Inl _ \<Rightarrow> None | Inr fi \<Rightarrow> Some (concat (packets fi)))"

lemma seed_stream_raw:
  "0 \<le> fl \<Longrightarrow> fl < 256 \<Longrightarrow> fl AND 2 = 0 \<Longrightarrow> seed_stream (raw p fl) = Some p"
proof -
  assume fl: "0 \<le> fl" "fl < 256" "fl AND 2 = 0"
  then have r: "raw p fl = Inr (word_of_int fl # p)" by (simp add: raw_Inr_iff)
  with parse_raw [OF this fl(3)] show ?thesis by (simp add: seed_stream_def)
qed

lemma seed_stream_multipacket:
  "0 \<le> fl \<Longrightarrow> fl < 256 \<Longrightarrow> fl AND 2 \<noteq> 0 \<Longrightarrow> ps \<noteq> [] \<Longrightarrow> length ps \<le> 64 \<Longrightarrow>
   list_all frame_ok ps \<Longrightarrow> seed_stream (multipacket ps fl) = Some (concat ps)"
proof -
  assume fl: "0 \<le> fl" "fl < 256" "fl AND 2 \<noteq> 0"
    and ps: "ps \<noteq> []" "length ps \<le> 64" "list_all frame_ok ps"
  then have r: "multipacket ps fl = Inr (word_of_int fl # concat (map frame ps))"
    by (simp add: multipacket_Inr_iff)
  with parse_multipacket [OF this fl(3) ps(2)] show ?thesis
    by (simp add: seed_stream_def)
qed

lemma length_join: "length (join sep xs) + length sep \<le> sum_list (map length xs) + length sep * (length xs + 1)"
  by (induction sep xs rule: join.induct) auto

lemma length_request:
  "length (request_v m t hs b v) \<le> 2 * (length m + length t + length v + sum_list (map length hs) +
     2 * length hs + 40) + length (body_bytes b)"
proof -
  let ?lines = "[m @ '' '' @ t @ '' '' @ v, ''Host: localhost''] @ hs"
  let ?head = "join crlf ?lines @ crlf @ crlf"
  have "length (encode ?head) \<le> 2 * length ?head" using length_encode_bounds by blast
  also have "length ?head \<le> length m + length t + length v + sum_list (map length hs) + 2 * length hs + 40"
    using length_join [of crlf ?lines] by (simp add: crlf_def)
  finally have "length (encode ?head) \<le> 2 * (length m + length t + length v +
    sum_list (map length hs) + 2 * length hs + 40)" by simp
  then show ?thesis unfolding request_v_def Let_def length_append by (rule add_right_mono)
qed

lemma request_nonempty: "request_v m t hs b v \<noteq> []"
proof -
  have "encode (join crlf ([m @ '' '' @ t @ '' '' @ v, ''Host: localhost''] @ hs) @ crlf @ crlf) \<noteq> []"
    by (simp only: encode_eq_Nil) (simp add: crlf_def)
  then show ?thesis by (simp only: request_v_def Let_def append_is_Nil_conv) simp
qed

lemma frame_ok_request [seed_rules]:
  assumes "2 * (length m + length t + length v + sum_list (map length hs) + 2 * length hs + 40)
    + length (body_bytes b) \<le> 65535"
  shows "frame_ok (request_v m t hs b v)"
  using assms length_request [of m t hs b v] request_nonempty [of m t hs b v]
  unfolding frame_ok_def by linarith

lemma frame_ok_append_request [seed_rules]:
  assumes "length xs + 2 * (length m + length t + length v + sum_list (map length hs) +
    2 * length hs + 40) + length (body_bytes b) \<le> 65535"
  shows "frame_ok (xs @ request_v m t hs b v)"
  using assms length_request [of m t hs b v] request_nonempty [of m t hs b v]
  unfolding frame_ok_def length_append append_is_Nil_conv by linarith

lemma frame_ok_two_requests [seed_rules]:
  assumes "2 * (length m + length t + length v + sum_list (map length hs) + 2 * length hs + 40)
    + length (body_bytes b) \<le> 30000"
    and "2 * (length m' + length t' + length v' + sum_list (map length hs') + 2 * length hs' + 40)
    + length (body_bytes b') \<le> 30000"
  shows "frame_ok (request_v m t hs b v @ request_v m' t' hs' b' v')"
proof (rule frame_ok_append_request)
  show "length (request_v m t hs b v) + 2 * (length m' + length t' + length v' +
      sum_list (map length hs') + 2 * length hs' + 40) + length (body_bytes b') \<le> 65535"
    using assms length_request [of m t hs b v] by linarith
qed

lemma frame_ok_lit [seed_rules]: "s \<noteq> [] \<Longrightarrow> length s \<le> 65535 \<Longrightarrow> frame_ok (lit s)"
  by (simp add: frame_ok_def)

lemma frame_ok_replicate [seed_rules]: "0 < n \<Longrightarrow> n \<le> 65535 \<Longrightarrow> frame_ok (replicate n x)"
  by (simp add: frame_ok_def)

lemma frame_ok_lit_append [seed_rules]:
  "s \<noteq> [] \<Longrightarrow> length s + length bs \<le> 65535 \<Longrightarrow> frame_ok (lit s @ bs)"
  by (simp add: frame_ok_def)

lemma frame_ok_slices [seed_rules]:
  "xs \<noteq> [] \<Longrightarrow> length xs \<le> 65535 \<Longrightarrow> 0 < k \<Longrightarrow> frame_ok (slice_to xs k)"
  "length xs \<le> 65535 \<Longrightarrow> 0 \<le> k \<Longrightarrow> k < int (length xs) \<Longrightarrow> frame_ok (slice_from xs k)"
  "length xs \<le> 65535 \<Longrightarrow> 0 \<le> i \<Longrightarrow> i < j \<Longrightarrow> i < int (length xs) \<Longrightarrow> frame_ok (py_slice xs i j)"
  by (auto simp: frame_ok_def slice_to_def slice_from_def py_slice_def slice_bound_def Let_def
      min_def split: if_splits)

lemma length_body_bytes [seed_rules]: "length (body_bytes (Octets bs)) = length bs"
  by (simp add: body_bytes_def)

lemma length_crlf [simp]: "length crlf = 2" "crlf \<noteq> []"
  by (simp_all add: crlf_def)

text \<open>The packets the seeds share.\<close>

lemma frame_ok_shared [seed_rules]:
  "frame_ok cs_get"
  "frame_ok cs_head"
  "frame_ok cs_options"
  "frame_ok cs_chunk_headers"
  "frame_ok cs_expect_headers"
  "frame_ok cs_h2_upgrade"
  by (simp_all add: cs_get_def cs_head_def cs_options_def cs_chunk_headers_def cs_expect_headers_def cs_h2_upgrade_def frame_ok_request
      length_body_bytes del: length_greater_0_conv)

end
