(* ===== verification/Seeds_Http.thy ===== *)
theory Seeds_Http
  imports Corpus_Locals
begin

text \<open>
  Entries of the dictionary that \<open>corpus_seeds\<close> returns, one definition per key,
  named after it: the seeds for the HTTP core.
\<close>

definition seed_get_index :: "bytes result" where
  "seed_get_index = raw cs_get 0x00"

definition seed_prelude_get :: "bytes result" where
  "seed_prelude_get = raw (request ''GET'' ''/status?full=1'' [''Accept: */*''] no_body) 0x01"

definition seed_options_star :: "bytes result" where
  "seed_options_star = raw cs_options 0x00"

definition seed_http10_keepalive :: "bytes result" where
  "seed_http10_keepalive =
     raw (request_v ''GET'' ''/index.html'' [''Connection: keep-alive''] no_body ''HTTP/1.0'')
       0x00"

definition seed_path_parsing :: "bytes result" where
  "seed_path_parsing =
     raw (request ''GET'' ''/a/../b/%2e%2e/%252e%252e//c;param?x=%00&x=%ff&empty='' [''Accept: text/html, application/json;q=0.9, */*;q=0.1'']
          no_body) 0x00"

definition seed_header_boundaries :: "bytes result" where
  "seed_header_boundaries =
     raw (request ''GET'' ''/headers''
            [''Host: [::1]:5800'',
             ''X-Empty:'',
             ''X-Spaces:    a'' @ [CHR 0x09] @ ''b   '',
             ''X-Duplicate: first'',
             ''X-Duplicate: second'',
             ''TE: trailers'',
             ''Connection: keep-alive, X-Hop'',
             ''X-Hop: remove-me''] no_body) 0x00"

definition seed_content_length_boundary :: "bytes result" where
  "seed_content_length_boundary =
     raw (request ''POST'' ''/upload''
            [''Content-Length: 4'',
             ''Content-Length: 4'',
             ''Content-Type: application/octet-stream''] (Octets (lit ''test''))) 0x00"

definition seed_cl_te_conflict :: "bytes result" where
  "seed_cl_te_conflict =
     raw (request ''POST'' ''/upload''
            [''Content-Length: 4'',
             ''Transfer-Encoding: chunked''] (Octets (lit (''0'' @ crlf @ crlf)))) 0x00"

definition seed_pipeline_one_write :: "bytes result" where
  "seed_pipeline_one_write =
     raw ((request ''GET'' ''/one'' [''Connection: keep-alive''] no_body) @
          (request ''HEAD'' ''/two'' [''Connection: close''] no_body)) 0x00"

definition seed_keepalive_fixed :: "bytes result" where
  "seed_keepalive_fixed = multipacket [cs_get, cs_head, cs_options] 0x03"

definition seed_keepalive_wait :: "bytes result" where
  "seed_keepalive_wait =
     multipacket [request ''GET'' ''/one'' [''Connection: keep-alive''] no_body,
                  request ''GET'' ''/two?x=1'' [''Connection: keep-alive''] no_body,
                  request ''HEAD'' ''/missing'' [''Connection: close''] no_body] 0x07"

definition seed_chunk_split :: "bytes result" where
  "seed_chunk_split =
     multipacket [cs_chunk_headers,
                  lit (''5'' @ crlf @ ''hello'' @ crlf),
                  lit (''6;name=value'' @ crlf @ '' world'' @ crlf),
                  lit (''0'' @ crlf @ ''X-Checksum: 0123456789abcdef'' @ crlf @ crlf)] 0x03"

definition seed_chunk_boundaries :: "bytes result" where
  "seed_chunk_boundaries =
     raw (request ''POST'' ''/upload'' [''Transfer-Encoding: chunked''] (Octets (lit (''1;foo=bar'' @
                crlf @ ''a'' @ crlf @ ''0000000000000001'' @ crlf @ ''b'' @ crlf @ ''0'' @
                crlf @ crlf)))) 0x00"

definition seed_chunk_offt_max :: "bytes result" where
  "seed_chunk_offt_max =
     multipacket [cs_chunk_headers,
                  lit ''0000000000000000'',
                  lit (''7fffffffffffffff;edge=max'' @ crlf)] 0x02"

definition seed_chunk_offt_overflow :: "bytes result" where
  "seed_chunk_offt_overflow =
     multipacket [cs_chunk_headers,
                  lit ''0000000000000000'',
                  lit (''8000000000000000;edge=overflow'' @ crlf)] 0x02"

definition seed_chunk_width_rejected :: "bytes result" where
  "seed_chunk_width_rejected =
     multipacket [cs_chunk_headers,
                  lit ''1000000000000000'',
                  lit (''0;edge=width'' @ crlf)] 0x02"

definition seed_chunk_extensions_trailers :: "bytes result" where
  "seed_chunk_extensions_trailers =
     multipacket [request ''POST'' ''/upload''
                      [''Transfer-Encoding: chunked'',
                       ''Trailer: X-Fuzz-Checksum, X-Fuzz-Duplicate'',
                       ''Content-Type: application/octet-stream''] no_body,
                  lit (''000000000000000a;token=value;quoted='' @ dq @ ''a'' @ [CHR 0x5C] @
                       dq @ ''b'' @ dq @ crlf),
                  lit (''0123456789'' @ crlf @ ''1;flag'' @ crlf @ ''Z'' @ crlf),
                  lit (''000;last=yes'' @ crlf @ ''X-Fuzz-Checksum: 0123456789abcdef'' @
                       crlf @ ''X-Fuzz-Duplicate: one'' @ crlf @ ''X-Fuzz-Duplicate: two'' @
                       crlf @ crlf)] 0x02"

definition seed_expect_continue :: "bytes result" where
  "seed_expect_continue = multipacket [cs_expect_headers, lit ''hello world''] 0x07"

definition seed_range_conditional :: "bytes result" where
  "seed_range_conditional =
     multipacket [request ''GET'' ''/index.html'' [''Range: bytes=0-0,-1,2-4,999999-'']
                    no_body,
                  request ''GET'' ''/index.html'' [''If-None-Match: '' @ dq @ ''fuzz-etag'' @
                      dq] no_body,
                  request ''GET'' ''/index.html''
                      [''If-Modified-Since: Sun, 06 Nov 1994 08:49:37 GMT'',
                       ''If-Range: Wed, 21 Oct 2015 07:28:00 GMT'',
                       ''Range: bytes=1-2''] no_body] 0x07"

definition seed_auth_schemes :: "bytes result" where
  "seed_auth_schemes =
     multipacket [request ''GET'' ''/auth/basic'' [''Authorization: Basic ZnV6ejpmdXp6'']
                    no_body,
                  request ''GET'' ''/auth/digest'' [''Authorization: Digest username='' @ dq @
                      ''fuzz'' @ dq @ '', realm='' @ dq @ ''fuzz'' @ dq @ '', nonce='' @ dq @
                      ''00'' @ dq @ '', uri='' @ dq @ ''/auth/digest'' @ dq @
                      '', response='' @ dq @ ''00000000000000000000000000000000'' @ dq @
                      '', algorithm=MD5, qop=auth, nc=00000001, cnonce='' @ dq @ ''ff'' @ dq]
                    no_body,
                  request ''GET'' ''/auth/basic'' [''Authorization: Bearer a.b.c''] no_body]
       0x03"

definition seed_rewrite_paths :: "bytes result" where
  "seed_rewrite_paths =
     multipacket [request ''GET'' ''/tenant/a/b?name=value''
                      [''Host: blue.fuzz.test'',
                       ''Forwarded: for='' @ dq @ ''[::1]'' @ dq @ '';proto=http'',
                       ''X-Forwarded-For: ::1'',
                       ''X-Fuzz-Input: rewrite''] no_body,
                  request ''GET'' ''/%2f%2e%2e/%2e/%3f/%23?q=a+b%26c'' [] no_body,
                  request ''GET'' ''/index.html/path/info;matrix=1'' [] no_body] 0x03"

definition seed_content_filters :: "bytes result" where
  "seed_content_filters =
     multipacket [request ''GET'' ''/index.txt'' [''Accept-Encoding: br, gzip;q=0.8, identity;q=0.1'']
                    no_body,
                  request ''GET'' ''/substitute/index.txt'' [''Accept-Encoding: gzip, br'']
                    no_body,
                  request ''GET'' ''/include.shtml'' [''Accept-Encoding: br''] no_body] 0x07"

section \<open>Every entry is good\<close>

lemma seeds_http_ok:
  "seed_ok seed_get_index"
  "seed_ok seed_prelude_get"
  "seed_ok seed_options_star"
  "seed_ok seed_http10_keepalive"
  "seed_ok seed_path_parsing"
  "seed_ok seed_header_boundaries"
  "seed_ok seed_content_length_boundary"
  "seed_ok seed_cl_te_conflict"
  "seed_ok seed_pipeline_one_write"
  "seed_ok seed_keepalive_fixed"
  "seed_ok seed_keepalive_wait"
  "seed_ok seed_chunk_split"
  "seed_ok seed_chunk_boundaries"
  "seed_ok seed_chunk_offt_max"
  "seed_ok seed_chunk_offt_overflow"
  "seed_ok seed_chunk_width_rejected"
  "seed_ok seed_chunk_extensions_trailers"
  "seed_ok seed_expect_continue"
  "seed_ok seed_range_conditional"
  "seed_ok seed_auth_schemes"
  "seed_ok seed_rewrite_paths"
  "seed_ok seed_content_filters"
  by (simp_all add: seed_rules
      seed_get_index_def seed_prelude_get_def
      seed_options_star_def seed_http10_keepalive_def
      seed_path_parsing_def seed_header_boundaries_def
      seed_content_length_boundary_def seed_cl_te_conflict_def
      seed_pipeline_one_write_def seed_keepalive_fixed_def
      seed_keepalive_wait_def seed_chunk_split_def
      seed_chunk_boundaries_def seed_chunk_offt_max_def
      seed_chunk_offt_overflow_def seed_chunk_width_rejected_def
      seed_chunk_extensions_trailers_def seed_expect_continue_def
      seed_range_conditional_def seed_auth_schemes_def
      seed_rewrite_paths_def seed_content_filters_def)

end
