(* ===== verification/Seeds_Proxy.thy ===== *)
theory Seeds_Proxy
  imports Corpus_Locals
begin

text \<open>
  Entries of the dictionary that \<open>corpus_seeds\<close> returns, one definition per key,
  named after it: the seeds for proxying, balancing and the PROXY protocol.
\<close>

definition seed_proxy_forms :: "bytes result" where
  "seed_proxy_forms =
     multipacket [request ''GET'' ''/proxy/index.txt'' [''Proxy-Connection: keep-alive'']
                    no_body,
                  lit (''GET http://[::1]:6810/backend/index.txt HTTP/1.1'' @ crlf @
                       ''Host: [::1]:6810'' @ crlf @ ''Proxy-Connection: keep-alive'' @ crlf @
                       crlf),
                  request ''OPTIONS'' ''http://[::1]:6810/*'' [''Max-Forwards: 0''] no_body]
       0x02"

definition seed_proxy_balancer_websocket :: "bytes result" where
  "seed_proxy_balancer_websocket =
     multipacket [request ''GET'' ''/balancer/index.txt'' [''Connection: keep-alive''] no_body,
                  request ''GET'' ''/socket/''
                      [''Connection: Upgrade'',
                       ''Upgrade: websocket'',
                       ''Sec-WebSocket-Version: 13'',
                       ''Sec-WebSocket-Key: ZHVtbXlrZXlkdW1teWs=''] no_body,
                  request ''GET'' ''/combined-proxy/index.txt'' [] no_body] 0x07"

definition seed_proxy_connect_tunnel :: "bytes result" where
  "seed_proxy_connect_tunnel =
     multipacket [lit (''CONNECT [::1]:6810 HTTP/1.1'' @ crlf @ ''Host: [::1]:6810'' @ crlf @
                       crlf),
                  request ''GET'' ''/index.txt'' [''Connection: close''] no_body] 0x06"

definition seed_proxy_ajp :: "bytes result" where
  "seed_proxy_ajp =
     raw (request ''POST'' ''/proxy-ajp/fuzz''
            [''Content-Type: application/octet-stream'',
             ''Content-Length: 4''] (Octets (lit ''fuzz''))) 0x00"

definition seed_proxy_fcgi :: "bytes result" where
  "seed_proxy_fcgi =
     raw (request ''POST'' ''/proxy-fcgi/fuzz''
            [''Content-Type: application/x-www-form-urlencoded'',
             ''Content-Length: 7''] (Octets (lit ''x=fuzz!''))) 0x00"

definition seed_proxy_scgi :: "bytes result" where
  "seed_proxy_scgi =
     raw (request ''GET'' ''/proxy-scgi/fuzz?x=1'' [''X-Fuzz-SCGI: yes''] no_body) 0x00"

definition seed_proxy_uwsgi :: "bytes result" where
  "seed_proxy_uwsgi =
     raw (request ''GET'' ''/proxy-uwsgi/fuzz/path'' [''X-Fuzz-UWSGI: yes''] no_body) 0x00"

definition seed_proxy_express_hosts :: "bytes result" where
  "seed_proxy_express_hosts =
     multipacket [lit (''GET /index.txt HTTP/1.1'' @ crlf @ ''Host: express.fuzz.test'' @
                       crlf @ crlf),
                  lit (''GET http://express.fuzz.test/index.txt HTTP/1.1'' @ crlf @
                       ''Host: blue.express.fuzz.test'' @ crlf @ crlf),
                  lit (''GET /missing HTTP/1.1'' @ crlf @
                       ''Host: missing.express.fuzz.test:5826'' @ crlf @ crlf)] 0x07"

definition seed_balancer_methods :: "bytes result" where
  "seed_balancer_methods =
     multipacket [request ''GET'' ''/traffic/index.txt'' [''Cookie: FUZZROUTE=.one''] no_body,
                  request ''GET'' ''/traffic/index.txt'' [''Cookie: FUZZROUTE=.two''] no_body,
                  request ''GET'' ''/busy/index.txt'' [] no_body,
                  request ''GET'' ''/busy/missing?repeat=1'' [] no_body] 0x07"

definition seed_balancer_manager :: "bytes result" where
  "seed_balancer_manager =
     multipacket [request ''GET'' ''/balancer-manager?b=managed&xml=1'' [] no_body,
                  request ''GET'' ''/balancer-manager?b=managed&w=bad%3A%2F%2Fvalue&dw=1'' [''Referer: http://localhost/balancer-manager'']
                    no_body,
                  request ''POST'' ''/balancer-manager''
                      [''Content-Type: application/x-www-form-urlencoded'',
                       ''Content-Length: '' @ show_nat (length cs_balancer_manager_body),
                       ''Referer: http://localhost/balancer-manager''] (Octets cs_balancer_manager_body)]
       0x07"

definition seed_proxy_response_rewrite :: "bytes result" where
  "seed_proxy_response_rewrite =
     multipacket [lit (''GET /response/redirect HTTP/1.1'' @ crlf @
                       ''Host: frontend.fuzz.test'' @ crlf @ crlf),
                  lit (''GET /response/error/fuzz HTTP/1.1'' @ crlf @
                       ''Host: frontend.fuzz.test'' @ crlf @ crlf),
                  lit (''GET /response/destination/index.txt HTTP/1.1'' @ crlf @
                       ''Host: frontend.fuzz.test'' @ crlf @ ''Cookie: id=fuzz'' @ crlf @
                       ''Range: bytes=0-3'' @ crlf @ crlf)] 0x07"

definition seed_tls_backend_proxy :: "bytes result" where
  "seed_tls_backend_proxy =
     multipacket [request ''GET'' ''/tls-backend/index.txt?tls=one''
                      [''Connection: keep-alive'',
                       ''X-Forwarded-Proto: fuzz''] no_body,
                  request ''HEAD'' ''/tls-backend/index.html''
                      [''Range: bytes=0-7'',
                       ''If-None-Match: '' @ dq @ ''tls-fuzz'' @ dq] no_body,
                  request ''POST'' ''/tls-backend/index.txt''
                      [''Content-Type: application/octet-stream'',
                       ''Content-Length: 8''] (Octets (lit ''tls-fuzz''))] 0x07"

definition seed_proxy_protocol_v1_tcp4 :: "bytes result" where
  "seed_proxy_protocol_v1_tcp4 =
     raw (cs_proxy_v1_tcp4 @ (request ''GET'' ''/index.txt'' [] no_body)) 0x00"

definition seed_proxy_protocol_v1_tcp6 :: "bytes result" where
  "seed_proxy_protocol_v1_tcp6 =
     raw (cs_proxy_v1_tcp6 @ (request ''GET'' ''/index.txt'' [] no_body)) 0x00"

definition seed_proxy_protocol_v1_unknown :: "bytes result" where
  "seed_proxy_protocol_v1_unknown =
     multipacket [slice_to cs_proxy_v1_unknown 15,
                  slice_from cs_proxy_v1_unknown 15,
                  request ''GET'' ''/index.txt'' [] no_body] 0x02"

definition seed_proxy_protocol_v1_split :: "bytes result" where
  "seed_proxy_protocol_v1_split =
     multipacket [slice_to cs_proxy_v1_tcp4 15,
                  slice_from cs_proxy_v1_tcp4 15,
                  request ''GET'' ''/index.txt'' [] no_body] 0x02"

definition seed_proxy_protocol_v2_tcp4 :: "bytes result" where
  "seed_proxy_protocol_v2_tcp4 =
     raw (cs_proxy_v2_tcp4 @ (request ''GET'' ''/index.txt'' [] no_body)) 0x00"

definition seed_proxy_protocol_v2_tcp6_split :: "bytes result" where
  "seed_proxy_protocol_v2_tcp6_split =
     multipacket [slice_to cs_proxy_v2_tcp6 15,
                  py_slice cs_proxy_v2_tcp6 15 16,
                  slice_from cs_proxy_v2_tcp6 16,
                  request ''GET'' ''/index.txt'' [] no_body] 0x02"

definition seed_proxy_protocol_v2_local :: "bytes result" where
  "seed_proxy_protocol_v2_local =
     raw (cs_proxy_v2_local @ (request ''GET'' ''/index.txt'' [] no_body)) 0x00"

definition seed_proxy_protocol_v2_oversize :: "bytes result" where
  "seed_proxy_protocol_v2_oversize =
     raw (cs_proxy_v2_oversize @ (request ''GET'' ''/index.txt'' [] no_body)) 0x00"

definition seed_proxy_protocol_v2_short_tcp4 :: "bytes result" where
  "seed_proxy_protocol_v2_short_tcp4 =
     raw (cs_proxy_v2_short_tcp4 @ (request ''GET'' ''/index.txt'' [] no_body)) 0x00"

definition seed_proxy_protocol_v2_short_tcp6 :: "bytes result" where
  "seed_proxy_protocol_v2_short_tcp6 =
     raw (cs_proxy_v2_short_tcp6 @ (request ''GET'' ''/index.txt'' [] no_body)) 0x00"

section \<open>Every entry is good\<close>

lemma proxy_header_lengths [seed_rules]:
  "length cs_proxy_v1_tcp6 = 45" "length cs_proxy_v2_tcp4 = 28" "length cs_proxy_v2_local = 16"
  "length cs_proxy_v2_oversize = 16" "length cs_proxy_v2_short_tcp4 = 16"
  "length cs_proxy_v2_short_tcp6 = 16"
  by (simp_all add: cs_proxy_v1_tcp6_def cs_proxy_v2_tcp4_def cs_proxy_v2_local_def
      cs_proxy_v2_oversize_def cs_proxy_v2_short_tcp4_def cs_proxy_v2_short_tcp6_def
      cs_proxy_v2_signature_def)

lemma seeds_proxy_ok:
  "seed_ok seed_proxy_forms"
  "seed_ok seed_proxy_balancer_websocket"
  "seed_ok seed_proxy_connect_tunnel"
  "seed_ok seed_proxy_ajp"
  "seed_ok seed_proxy_fcgi"
  "seed_ok seed_proxy_scgi"
  "seed_ok seed_proxy_uwsgi"
  "seed_ok seed_proxy_express_hosts"
  "seed_ok seed_balancer_methods"
  "seed_ok seed_balancer_manager"
  "seed_ok seed_proxy_response_rewrite"
  "seed_ok seed_tls_backend_proxy"
  "seed_ok seed_proxy_protocol_v1_tcp4"
  "seed_ok seed_proxy_protocol_v1_tcp6"
  "seed_ok seed_proxy_protocol_v1_unknown"
  "seed_ok seed_proxy_protocol_v1_split"
  "seed_ok seed_proxy_protocol_v2_tcp4"
  "seed_ok seed_proxy_protocol_v2_tcp6_split"
  "seed_ok seed_proxy_protocol_v2_local"
  "seed_ok seed_proxy_protocol_v2_oversize"
  "seed_ok seed_proxy_protocol_v2_short_tcp4"
  "seed_ok seed_proxy_protocol_v2_short_tcp6"
  by (simp_all add: seed_rules show_nat.simps cs_balancer_manager_body_def
      cs_proxy_v1_tcp4_def cs_proxy_v1_unknown_def cs_proxy_v2_tcp6_def cs_proxy_v2_signature_def
      seed_proxy_forms_def seed_proxy_balancer_websocket_def
      seed_proxy_connect_tunnel_def seed_proxy_ajp_def
      seed_proxy_fcgi_def seed_proxy_scgi_def
      seed_proxy_uwsgi_def seed_proxy_express_hosts_def
      seed_balancer_methods_def seed_balancer_manager_def
      seed_proxy_response_rewrite_def seed_tls_backend_proxy_def
      seed_proxy_protocol_v1_tcp4_def seed_proxy_protocol_v1_tcp6_def
      seed_proxy_protocol_v1_unknown_def seed_proxy_protocol_v1_split_def
      seed_proxy_protocol_v2_tcp4_def seed_proxy_protocol_v2_tcp6_split_def
      seed_proxy_protocol_v2_local_def seed_proxy_protocol_v2_oversize_def
      seed_proxy_protocol_v2_short_tcp4_def seed_proxy_protocol_v2_short_tcp6_def)

end
