(* ===== verification/Seeds_Wire.thy ===== *)
theory Seeds_Wire
  imports Corpus_Locals
begin

text \<open>
  Entries of the dictionary that \<open>corpus_seeds\<close> returns, one definition per key,
  named after it: the seeds for HTTP/2 and TLS.
\<close>

definition seed_h2c_prior_knowledge :: "bytes result" where
  "seed_h2c_prior_knowledge =
     bind_result (cat [Inr cs_h2_preface,
                       cs_h2_settings,
                       h2_frame 0x08 0x00 0 [0x00, 0x01, 0x00, 0x00],
                       cs_h2_ping,
                       cs_h2_headers]) (\<lambda>p. raw p 0x00)"

definition seed_h2c_upgrade :: "bytes result" where
  "seed_h2c_upgrade =
     bind_result (sequence [Inr cs_h2_upgrade,
                            cat [Inr cs_h2_preface, cs_h2_settings],
                            h2_request_headers 3 (lit ''/'')]) (\<lambda>ps. multipacket ps 0x06)"

definition seed_h2_frame_boundaries :: "bytes result" where
  "seed_h2_frame_boundaries =
     bind_result (sequence [Inr cs_h2_preface,
                            bind_result cs_h2_settings (\<lambda>b. Inr (slice_to b 5)),
                            bind_result cs_h2_settings (\<lambda>b. Inr (slice_from b 5)),
                            cs_h2_ping,
                            cs_h2_headers]) (\<lambda>ps. multipacket ps 0x02)"

definition seed_h2_control_matrix :: "bytes result" where
  "seed_h2_control_matrix =
     bind_result (cat [Inr cs_h2_preface,
                       h2_frame 0x04 0x00 0 [0x00, 0x01, 0x00, 0x00, 0x00, 0x00, 0x00, 0x02,
                           0x00, 0x00, 0x00, 0x01, 0x00, 0x04, 0x7f, 0xff, 0xff, 0xff, 0x00,
                           0xff, 0xde, 0xad, 0xbe, 0xef],
                       h2_frame 0x04 0x01 0 [],
                       h2_frame 0x06 0x00 0 (lit ''fuzzping''),
                       h2_frame 0x06 0x01 0 (lit ''fuzzping''),
                       h2_frame 0x08 0x00 0 [0x00, 0x01, 0x00, 0x00],
                       h2_frame 0x02 0x00 1 [0x00, 0x00, 0x00, 0x00, 0xff],
                       h2_request_headers 1 (lit ''/h2-push''),
                       h2_frame 0x08 0x00 1 [0x00, 0x00, 0x10, 0x00],
                       h2_request_headers 3 (lit ''/index.txt''),
                       h2_frame 0x03 0x00 3 [0x00, 0x00, 0x00, 0x08],
                       h2_frame 0x07 0x00 0 ([0x00, 0x00, 0x00, 0x00, 0x00, 0x00, 0x00, 0x00] @
                           lit ''fuzz'')]) (\<lambda>p. raw p 0x00)"

definition seed_h2_window_error :: "bytes result" where
  "seed_h2_window_error =
     bind_result (cat [Inr cs_h2_preface,
                       cs_h2_settings,
                       h2_request_headers 1 (lit ''/''),
                       h2_frame 0x08 0x00 1 [0x00, 0x00, 0x00, 0x00]]) (\<lambda>p. raw p 0x00)"

definition seed_h2_priority_error :: "bytes result" where
  "seed_h2_priority_error =
     bind_result (cat [Inr cs_h2_preface,
                       cs_h2_settings,
                       h2_frame 0x02 0x00 1 [0x00, 0x00, 0x00, 0x01, 0x0f]]) (\<lambda>p. raw p 0x00)"

definition seed_h2_continuation :: "bytes result" where
  "seed_h2_continuation =
     bind_result (cat [Inr cs_h2_preface,
                       cs_h2_settings,
                       h2_frame 0x01 0x01 1 ([0x82, 0x86, 0x04, 0x08] @ lit ''/h2-''),
                       h2_frame 0x09 0x04 1 (lit ''push'' @ [0x01, 0x09] @ lit ''localhost'')])
       (\<lambda>p. raw p 0x00)"

definition seed_h2_websocket_connect :: "bytes result" where
  "seed_h2_websocket_connect =
     bind_result (cat [Inr cs_h2_preface,
                       cs_h2_settings,
                       h2_frame 0x01 0x05 1 ([0x02, 0x07] @ lit ''CONNECT'' @ [0x00, 0x09] @
                           lit '':protocol'' @ [0x09] @ lit ''websocket'' @
                           [0x86, 0x04, 0x08] @ lit ''/socket/'' @ [0x01, 0x09] @
                           lit ''localhost'')]) (\<lambda>p. raw p 0x00)"

definition seed_h2_large_data :: "bytes result" where
  "seed_h2_large_data = bind_result cs_h2_large_post (\<lambda>p. raw p 0x00)"

definition seed_tls_clienthello :: "bytes result" where
  "seed_tls_clienthello = bind_result cs_hello (\<lambda>p. raw p 0x00)"

definition seed_tls_alpn_h2_only :: "bytes result" where
  "seed_tls_alpn_h2_only = bind_result cs_hello_h2_only (\<lambda>p. raw p 0x00)"

definition seed_tls_alpn_name_boundary :: "bytes result" where
  "seed_tls_alpn_name_boundary = bind_result cs_hello_alpn_boundary (\<lambda>p. raw p 0x00)"

definition seed_tls_record_split :: "bytes result" where
  "seed_tls_record_split =
     bind_result (sequence [bind_result cs_hello (\<lambda>b. Inr (slice_to b 5)),
                            bind_result cs_hello (\<lambda>b. Inr (py_slice b 5 41)),
                            bind_result cs_hello (\<lambda>b. Inr (slice_from b 41))]) (\<lambda>ps. multipacket ps 0x02)"

definition seed_tls12_clienthello :: "bytes result" where
  "seed_tls12_clienthello = bind_result cs_hello12 (\<lambda>p. raw p 0x00)"

definition seed_tls_fragmented_handshake :: "bytes result" where
  "seed_tls_fragmented_handshake =
     bind_result (cat [bind_result (bind_result cs_hello (\<lambda>b. Inr (py_slice b 5 29))) (\<lambda>b. tls_record 0x16 b
                             [0x03,
                              0x01]),
                       bind_result (bind_result cs_hello (\<lambda>b. Inr (slice_from b 29))) (\<lambda>b. tls_record 0x16 b
                             [0x03,
                              0x03])]) (\<lambda>p. raw p 0x00)"

definition seed_tls_unexpected_ccs :: "bytes result" where
  "seed_tls_unexpected_ccs =
     bind_result (tls_record 0x14 [0x01] [0x03, 0x03]) (\<lambda>p. raw p 0x00)"

definition seed_tls_alert :: "bytes result" where
  "seed_tls_alert =
     bind_result (tls_record 0x15 [0x02, 0x28] [0x03, 0x03]) (\<lambda>p. raw p 0x00)"

definition seed_tls_bad_length :: "bytes result" where
  "seed_tls_bad_length =
     bind_result (cat [tls_record 0x16 [0x01, 0xff, 0xff, 0xff] [0x03, 0x03],
                       Inr [0x16, 0x03, 0x03, 0xff, 0xff]]) (\<lambda>p. raw p 0x00)"

definition seed_tls_record_matrix :: "bytes result" where
  "seed_tls_record_matrix =
     bind_result (cat [tls_record 0x16 [] [0x03, 0x01],
                       tls_record 0x16 [] [0x03, 0x03],
                       tls_record 0x14 [0x01] [0x03, 0x03]]) (\<lambda>p. raw p 0x00)"

definition seed_sslv2_clienthello :: "bytes result" where
  "seed_sslv2_clienthello = bind_result sslv2_client_hello (\<lambda>p. raw p 0x00)"

section \<open>The HTTP/2 connections\<close>

named_theorems wire_simps \<open>exact results of the frame and hello builders\<close>

lemma h2_frame_ok [wire_simps]:
  "length p < 2 ^ 24 \<Longrightarrow> 0 \<le> t \<Longrightarrow> t < 256 \<Longrightarrow> 0 \<le> fl \<Longrightarrow> fl < 256 \<Longrightarrow>
   h2_frame t fl s p = Inr (h2_wire (h2_view t fl s p))"
  by (simp add: h2_frame_Inr_iff)

lemma h2_view_ok:
  "length p < 2 ^ 24 \<Longrightarrow> 0 \<le> t \<Longrightarrow> t < 256 \<Longrightarrow> 0 \<le> fl \<Longrightarrow> fl < 256 \<Longrightarrow> h2_valid (h2_view t fl s p)"
  using h2_view_valid [of t fl s p] h2_frame_ok [of p t fl s] by simp

lemma h2_request_headers_ok [wire_simps]:
  "path \<noteq> [] \<Longrightarrow> length path \<le> 127 \<Longrightarrow>
   h2_request_headers s path = Inr (h2_wire (h2_view 1 5 s (request_block path)))"
  by (simp add: h2_request_headers_eq h2_frame_ok request_block_def)

lemma h2_wire_nonempty [simp]: "h2_wire f \<noteq> []"
  by (metis length_h2_wire list.size(3) add_is_0 zero_neq_numeral)

text \<open>A receiver strips the preface and reads frames to the end of the stream.\<close>

definition h2_connection :: "bytes \<Rightarrow> h2_frame_view list option" where
  "h2_connection stream =
     (let n = length cs_h2_preface
      in if take n stream = cs_h2_preface then decode_all h2_parse (drop n stream) else None)"

lemma h2_connection_frames:
  "list_all h2_valid fs \<Longrightarrow> h2_connection (cs_h2_preface @ concat (map h2_wire fs)) = Some fs"
  by (simp add: h2_connection_def Let_def h2.decode_all_concat)

text \<open>The frames that the variables of the generator hold.\<close>

definition settings_frame :: h2_frame_view where
  "settings_frame = h2_view 4 0 0 [0, 3, 0, 0, 0, 100]"

definition ping_frame :: h2_frame_view where
  "ping_frame = h2_view 6 0 0 (lit ''fuzzhttp'')"

lemma h2_locals [wire_simps]:
  "cs_h2_settings = Inr (h2_wire settings_frame)"
  "cs_h2_ping = Inr (h2_wire ping_frame)"
  "cs_h2_headers = Inr (h2_wire (h2_view 1 5 1 (request_block (lit ''/''))))"
  by (simp_all add: cs_h2_settings_def cs_h2_ping_def cs_h2_headers_def settings_frame_def
      ping_frame_def wire_simps)

lemma h2_locals_valid: "h2_valid settings_frame" "h2_valid ping_frame"
  by (simp_all add: settings_frame_def ping_frame_def h2_view_ok)

lemma cs_h2_post_block_eq [wire_simps]:
  "cs_h2_post_block = Inr ([0x83, 0x86, 0x04, 7] @ lit ''/upload'' @ [0x01, 0x09] @ lit ''localhost'')"
  by (simp add: cs_h2_post_block_def cs_h2_post_path_def bytes_of_simps byte_of_def)

lemma raw_frames:
  assumes "list_all h2_valid fs" and "seed = raw (cs_h2_preface @ concat (map h2_wire fs)) 0"
  shows "Option.bind (seed_stream seed) h2_connection = Some fs"
  using assms by (simp add: seed_stream_raw h2_connection_frames)

lemma h2_seed_frames:
  "Option.bind (seed_stream seed_h2c_prior_knowledge) h2_connection =
     Some [settings_frame, h2_view 8 0 0 [0, 1, 0, 0], ping_frame,
           h2_view 1 5 1 (request_block (lit ''/''))]"
  "Option.bind (seed_stream seed_h2_window_error) h2_connection =
     Some [settings_frame, h2_view 1 5 1 (request_block (lit ''/'')), h2_view 8 0 1 [0, 0, 0, 0]]"
  "Option.bind (seed_stream seed_h2_priority_error) h2_connection =
     Some [settings_frame, h2_view 2 0 1 [0, 0, 0, 1, 15]]"
  "Option.bind (seed_stream seed_h2_continuation) h2_connection =
     Some [settings_frame, h2_view 1 1 1 ([0x82, 0x86, 0x04, 0x08] @ lit ''/h2-''),
           h2_view 9 4 1 (lit ''push'' @ [0x01, 0x09] @ lit ''localhost'')]"
  "Option.bind (seed_stream seed_h2_large_data) h2_connection =
     Some [settings_frame,
           h2_view 1 4 1 ([0x83, 0x86, 0x04, 7] @ lit ''/upload'' @ [0x01, 0x09] @ lit ''localhost''),
           h2_view 0 1 1 (replicate 8001 0x41)]"
  by (rule raw_frames; simp add: h2_locals_valid h2_view_ok request_block_def wire_simps
      seed_h2c_prior_knowledge_def seed_h2_window_error_def seed_h2_priority_error_def
      seed_h2_continuation_def seed_h2_large_data_def cs_h2_large_post_def)+

lemma h2_control_matrix_frames:
  "Option.bind (seed_stream seed_h2_control_matrix) h2_connection =
     Some [h2_view 4 0 0 [0, 1, 0, 0, 0, 0, 0, 2, 0, 0, 0, 1, 0, 4, 0x7f, 0xff, 0xff, 0xff,
                          0, 0xff, 0xde, 0xad, 0xbe, 0xef],
           h2_view 4 1 0 [], h2_view 6 0 0 (lit ''fuzzping''), h2_view 6 1 0 (lit ''fuzzping''),
           h2_view 8 0 0 [0, 1, 0, 0], h2_view 2 0 1 [0, 0, 0, 0, 0xff],
           h2_view 1 5 1 (request_block (lit ''/h2-push'')), h2_view 8 0 1 [0, 0, 0x10, 0],
           h2_view 1 5 3 (request_block (lit ''/index.txt'')), h2_view 3 0 3 [0, 0, 0, 8],
           h2_view 7 0 0 ([0, 0, 0, 0, 0, 0, 0, 0] @ lit ''fuzz'')]"
  by (rule raw_frames) (simp_all add: h2_view_ok request_block_def wire_simps seed_h2_control_matrix_def)

text \<open>Cutting the settings frame across two packets does not change the connection.\<close>

lemma h2_frame_boundaries_frames:
  "Option.bind (seed_stream seed_h2_frame_boundaries) h2_connection =
     Some [settings_frame, ping_frame, h2_view 1 5 1 (request_block (lit ''/''))]"
proof -
  let ?s = "h2_wire settings_frame" and ?p = "h2_wire ping_frame"
    and ?h = "h2_wire (h2_view 1 5 1 (request_block (lit ''/'')))"
  have l: "length ?s = 15" "length ?p = 17" "length ?h = 25"
    by (simp_all add: settings_frame_def ping_frame_def h2_view_def request_block_def)
  have "list_all frame_ok [cs_h2_preface, slice_to ?s 5, slice_from ?s 5, ?p, ?h]"
    using l by (auto simp: seed_rules frame_ok_def cs_h2_preface_def slice_to_def slice_from_def
        slice_bound_def)
  then have "seed_stream seed_h2_frame_boundaries =
      Some (cs_h2_preface @ concat (map h2_wire [settings_frame, ping_frame,
        h2_view 1 5 1 (request_block (lit ''/''))]))"
    by (simp add: seed_h2_frame_boundaries_def wire_simps seed_stream_multipacket
        slice_split [THEN arg_cong [of _ _ "\<lambda>x. x @ r" for r], simplified append_assoc])
  then show ?thesis
    by (simp only: Option.bind.bind_lunit, subst h2_connection_frames)
      (simp_all add: h2_locals_valid h2_view_ok request_block_def)
qed

lemma h2_websocket_frames:
  "Option.bind (seed_stream seed_h2_websocket_connect) h2_connection =
     Some [settings_frame,
           h2_view 1 5 1 ([0x02, 0x07] @ lit ''CONNECT'' @ [0x00, 0x09] @ lit '':protocol'' @ [0x09] @
             lit ''websocket'' @ [0x86, 0x04, 0x08] @ lit ''/socket/'' @ [0x01, 0x09] @ lit ''localhost'')]"
  by (rule raw_frames) (simp_all add: h2_locals_valid h2_view_ok wire_simps seed_h2_websocket_connect_def)

text \<open>The upgrade seed speaks HTTP/1.1 first; what follows its request is a connection.\<close>

lemma h2_upgrade_stream:
  "seed_stream seed_h2c_upgrade = Some (cs_h2_upgrade @ cs_h2_preface @ concat (map h2_wire
     [settings_frame, h2_view 1 5 3 (request_block (lit ''/''))]))"
proof -
  let ?h = "h2_wire (h2_view 1 5 3 (request_block (lit ''/'')))"
  have "list_all frame_ok [cs_h2_upgrade, cs_h2_preface @ h2_wire settings_frame, ?h]"
    by (simp add: seed_rules)
      (simp add: frame_ok_def cs_h2_preface_def settings_frame_def h2_view_def request_block_def)
  then show ?thesis
    by (simp add: seed_h2c_upgrade_def wire_simps seed_stream_multipacket)
qed

lemma h2_upgrade_frames:
  "h2_connection (cs_h2_preface @ concat (map h2_wire
     [settings_frame, h2_view 1 5 3 (request_block (lit ''/''))])) =
   Some [settings_frame, h2_view 1 5 3 (request_block (lit ''/''))]"
  by (rule h2_connection_frames) (simp add: h2_locals_valid h2_view_ok request_block_def)

text \<open>The header block that the continuation completes.\<close>

lemma continuation_block:
  "([0x82, 0x86, 0x04, 0x08] @ lit ''/h2-'') @ lit ''push'' @ [0x01, 0x09] @ lit ''localhost'' =
     request_block (lit ''/h2-push'')"
  by (simp add: request_block_def lit_def)

section \<open>The frame layer of a server\<close>

text \<open>
  What an HTTP/2 server demands of a client connection before it looks at the meaning of
  a frame: payload sizes, the stream a frame type may be on (requests of a client have odd
  numbers), header blocks that are not interrupted, and a first frame that is SETTINGS.
\<close>

definition h2_size_ok :: "h2_frame_view \<Rightarrow> bool" where
  "h2_size_ok f \<longleftrightarrow> (let n = length (h2_payload f); t = h2_type f in
     if t = 2 then n = 5
     else if t = 3 then n = 4
     else if t = 4 then (if odd (h2_flags f) then n = 0 else n mod 6 = 0)
     else if t = 6 then n = 8
     else if t = 7 then 8 \<le> n
     else if t = 8 then n = 4
     else n \<le> 16384)"

definition h2_stream_ok :: "h2_frame_view \<Rightarrow> bool" where
  "h2_stream_ok f \<longleftrightarrow> (let t = h2_type f in
     if t = 4 \<or> t = 6 \<or> t = 7 then h2_stream f = 0
     else if t = 0 \<or> t = 1 \<or> t = 2 \<or> t = 3 \<or> t = 9 then odd (h2_stream f)
     else True)"

text \<open>
  The header blocks: a HEADERS frame, continued until END_HEADERS (bit 2 of the flags). The
  first argument is the open block, if any; only its continuation may follow it.
\<close>

fun h2_blocks :: "(nat \<times> bytes) option \<Rightarrow> h2_frame_view list \<Rightarrow> bytes list option" where
  "h2_blocks None [] = Some []"
| "h2_blocks (Some open_block) [] = None"
| "h2_blocks None (f # fs) =
     (if h2_type f = 9 then None
      else if h2_type f \<noteq> 1 then h2_blocks None fs
      else if odd (h2_flags f div 4) then map_option (Cons (h2_payload f)) (h2_blocks None fs)
      else h2_blocks (Some (h2_stream f, h2_payload f)) fs)"
| "h2_blocks (Some (s, block)) (f # fs) =
     (if h2_type f \<noteq> 9 \<or> h2_stream f \<noteq> s then None
      else if odd (h2_flags f div 4) then map_option (Cons (block @ h2_payload f)) (h2_blocks None fs)
      else h2_blocks (Some (s, block @ h2_payload f)) fs)"

definition h2_request_fields :: "bytes \<Rightarrow> bool" where
  "h2_request_fields block \<longleftrightarrow> (case decode_all hpack_field block of
     None \<Rightarrow> False
   | Some pairs \<Rightarrow>
       list_all (\<lambda>name. name \<in> set (map fst pairs)) ['':method'', '':scheme'', '':path'', '':authority''])"

definition h2_well_formed :: "h2_frame_view list \<Rightarrow> bool" where
  "h2_well_formed fs \<longleftrightarrow> fs \<noteq> [] \<and> h2_type (hd fs) = 4 \<and> even (h2_flags (hd fs)) \<and>
     list_all h2_size_ok fs \<and> list_all h2_stream_ok fs \<and>
     (case h2_blocks None fs of None \<Rightarrow> False | Some blocks \<Rightarrow> list_all h2_request_fields blocks)"

definition h2_accepts :: "bytes \<Rightarrow> bool" where
  "h2_accepts stream \<longleftrightarrow> (case h2_connection stream of None \<Rightarrow> False | Some fs \<Rightarrow> h2_well_formed fs)"

lemma request_block_fields: "length path < 127 \<Longrightarrow> h2_request_fields (request_block path)"
  by (simp add: h2_request_fields_def request_block_decodes)

lemma other_block_fields:
  "h2_request_fields ([0x83, 0x86, 0x04, 7] @ lit ''/upload'' @ [0x01, 0x09] @ lit ''localhost'')"
  "h2_request_fields ([0x02, 0x07] @ lit ''CONNECT'' @ [0x00, 0x09] @ lit '':protocol'' @ [0x09] @
     lit ''websocket'' @ [0x86, 0x04, 0x08] @ lit ''/socket/'' @ [0x01, 0x09] @ lit ''localhost'')"
  by code_simp+

lemma accepted_frames:
  "Option.bind (seed_stream seed) h2_connection = Some fs \<Longrightarrow> h2_well_formed fs \<Longrightarrow>
   \<exists>s. seed_stream seed = Some s \<and> h2_accepts s"
  by (cases "seed_stream seed") (auto simp: h2_accepts_def)

lemmas h2_rules = h2_well_formed_def h2_size_ok_def h2_stream_ok_def settings_frame_def ping_frame_def
  h2_view_def request_block_fields

lemma length_request_block: "length (request_block path) = length path + 15"
  by (simp add: request_block_def)

lemma h2_prior_knowledge_accepted:
  "\<exists>s. seed_stream seed_h2c_prior_knowledge = Some s \<and> h2_accepts s"
  "\<exists>s. seed_stream seed_h2_frame_boundaries = Some s \<and> h2_accepts s"
  "\<exists>s. seed_stream seed_h2_control_matrix = Some s \<and> h2_accepts s"
  "\<exists>s. seed_stream seed_h2_window_error = Some s \<and> h2_accepts s"
  "\<exists>s. seed_stream seed_h2_priority_error = Some s \<and> h2_accepts s"
  "\<exists>s. seed_stream seed_h2_continuation = Some s \<and> h2_accepts s"
  "\<exists>s. seed_stream seed_h2_websocket_connect = Some s \<and> h2_accepts s"
  "\<exists>s. seed_stream seed_h2_large_data = Some s \<and> h2_accepts s"
proof -
  note r = h2_rules length_request_block
  note block = continuation_block request_block_fields [of "lit ''/h2-push''"]
  show "\<exists>s. seed_stream seed_h2c_prior_knowledge = Some s \<and> h2_accepts s"
    by (rule h2_seed_frames [THEN accepted_frames]) (simp add: r)
  show "\<exists>s. seed_stream seed_h2_frame_boundaries = Some s \<and> h2_accepts s"
    by (rule h2_frame_boundaries_frames [THEN accepted_frames]) (simp add: r)
  show "\<exists>s. seed_stream seed_h2_control_matrix = Some s \<and> h2_accepts s"
    by (rule h2_control_matrix_frames [THEN accepted_frames]) (simp add: r)
  show "\<exists>s. seed_stream seed_h2_window_error = Some s \<and> h2_accepts s"
    by (rule h2_seed_frames [THEN accepted_frames]) (simp add: r)
  show "\<exists>s. seed_stream seed_h2_priority_error = Some s \<and> h2_accepts s"
    by (rule h2_seed_frames [THEN accepted_frames]) (simp add: r)
  show "\<exists>s. seed_stream seed_h2_continuation = Some s \<and> h2_accepts s"
    by (rule h2_seed_frames [THEN accepted_frames]) (use block in \<open>simp add: r\<close>)
  show "\<exists>s. seed_stream seed_h2_websocket_connect = Some s \<and> h2_accepts s"
    by (rule h2_websocket_frames [THEN accepted_frames]) (use other_block_fields in \<open>simp add: r\<close>)
  show "\<exists>s. seed_stream seed_h2_large_data = Some s \<and> h2_accepts s"
    by (rule h2_seed_frames [THEN accepted_frames]) (use other_block_fields in \<open>simp add: r\<close>)
qed

lemma h2_upgrade_accepted:
  "\<exists>s. seed_stream seed_h2c_upgrade = Some (cs_h2_upgrade @ s) \<and> h2_accepts s"
  using h2_upgrade_stream h2_upgrade_frames
  by (intro exI conjI) (assumption, simp add: h2_accepts_def h2_rules length_request_block)

section \<open>The TLS streams\<close>

lemma hellos [wire_simps]:
  "cs_hello = Inr (hello_wire (hello13 [lit ''h2'', lit ''http/1.1'']))"
  "cs_hello_h2_only = Inr (hello_wire (hello13 [lit ''h2'']))"
  "cs_hello_alpn_boundary = Inr (hello_wire (hello13 [cs_longest_alpn_name, lit ''h2'']))"
  "cs_hello12 = Inr (hello_wire hello12)"
  by (simp_all add: cs_hello_def cs_hello_h2_only_def cs_hello_alpn_boundary_def cs_hello12_def
      cs_longest_alpn_name_def tls12_client_hello_eq tls_client_hello_Inr_iff alpn_ok_def alpn_list_def)

text \<open>A record: content type, two bytes of version, a 16-bit length and the payload.\<close>

record tls_rec =
  rec_type :: byte
  rec_version :: bytes
  rec_payload :: bytes

definition rec_ok :: "tls_rec \<Rightarrow> bool" where
  "rec_ok r \<longleftrightarrow> length (rec_version r) = 2 \<and> length (rec_payload r) < 65536"

definition rec_wire :: "tls_rec \<Rightarrow> bytes" where
  "rec_wire r = [rec_type r] @ rec_version r @ field 2 (rec_payload r)"

definition rec_parse :: "bytes \<Rightarrow> (tls_rec \<times> bytes) option" where
  "rec_parse bs =
     (if length bs < 3 then None
      else case take_field 2 (drop 3 bs) of
             None \<Rightarrow> None
           | Some (v, rest) \<Rightarrow>
               Some (\<lparr>rec_type = bs ! 0, rec_version = take 2 (drop 1 bs), rec_payload = v\<rparr>, rest))"

interpretation rec: canonical_codec rec_wire rec_parse rec_ok
proof
  fix r rest
  assume "rec_ok r"
  then show "rec_parse (rec_wire r @ rest) = Some (r, rest)"
    by (simp add: rec_parse_def rec_wire_def rec_ok_def take_field_field)
next
  fix r
  show "rec_wire r \<noteq> []" by (simp add: rec_wire_def)
next
  fix bs r rest
  assume p: "rec_parse bs = Some (r, rest)"
  then obtain v where l: "3 \<le> length bs" and t: "take_field 2 (drop 3 bs) = Some (v, rest)"
    and r: "r = \<lparr>rec_type = bs ! 0, rec_version = take 2 (drop 1 bs), rec_payload = v\<rparr>"
    by (auto simp: rec_parse_def split: if_splits option.splits)
  have "[bs ! 0] @ take 2 (drop 1 bs) = take 3 bs"
    using l by (cases bs) (auto simp: numeral_3_eq_3 numeral_2_eq_2)
  moreover have "bs = take 3 bs @ field 2 v @ rest"
    using take_field_sound [OF t] by (metis append_take_drop_id)
  ultimately have "bs = ([bs ! 0] @ take 2 (drop 1 bs)) @ field 2 v @ rest" by simp
  then show "rec_ok r \<and> bs = rec_wire r @ rest"
    using l r take_field_sound [OF t] by (simp add: rec_ok_def rec_wire_def)
qed

lemma tls_record_ok [wire_simps]:
  "0 \<le> ct \<Longrightarrow> ct < 256 \<Longrightarrow> length p < 65536 \<Longrightarrow>
   tls_record ct p v = Inr (rec_wire \<lparr>rec_type = word_of_int ct, rec_version = v, rec_payload = p\<rparr>)"
  by (simp add: tls_record_Inr_iff rec_wire_def)

text \<open>The handshake message inside the record of a hello.\<close>

definition handshake :: "client_hello \<Rightarrow> bytes" where
  "handshake h = [0x01] @ field 3 (hello_body h)"

lemma hello_wire_record:
  "hello_wire h = rec_wire \<lparr>rec_type = 0x16, rec_version = [3, 1], rec_payload = handshake h\<rparr>"
  by (simp add: hello_wire_def rec_wire_def handshake_def)

lemma hello_wire_split: "hello_wire h = [0x16, 3, 1] @ be_encode 2 (length (handshake h)) @ handshake h"
  by (simp add: hello_wire_def handshake_def field_def)

lemma seed_hello_length:
  "length (handshake (hello13 [lit ''h2'', lit ''http/1.1''])) = 168"
  "length (hello_wire (hello13 [lit ''h2'', lit ''http/1.1''])) = 173"
  by (simp_all add: hello_wire_split) (simp_all add: handshake_def alpn_list_def)

lemma raw_records:
  assumes "list_all rec_ok rs" and "seed = raw (concat (map rec_wire rs)) 0"
  shows "Option.bind (seed_stream seed) (decode_all rec_parse) = Some rs"
  using assms by (simp add: seed_stream_raw rec.decode_all_concat)

text \<open>The fragmented handshake: two records whose payloads make up the message.\<close>

lemma fragmented_records:
  "Option.bind (seed_stream seed_tls_fragmented_handshake) (decode_all rec_parse) =
     (let m = handshake (hello13 [lit ''h2'', lit ''http/1.1''])
      in Some [\<lparr>rec_type = 0x16, rec_version = [3, 1], rec_payload = take 24 m\<rparr>,
               \<lparr>rec_type = 0x16, rec_version = [3, 3], rec_payload = drop 24 m\<rparr>])"
proof -
  let ?h = "hello13 [lit ''h2'', lit ''http/1.1'']"
  let ?m = "handshake ?h"
  let ?rs = "[\<lparr>rec_type = 0x16, rec_version = [3, 1], rec_payload = take 24 ?m\<rparr>,
               \<lparr>rec_type = 0x16, rec_version = [3, 3], rec_payload = drop 24 ?m\<rparr>]"
  have w: "length (hello_wire ?h) = 173" and m: "length ?m = 168" by (rule seed_hello_length)+
  have "py_slice (hello_wire ?h) 5 29 = take 24 ?m" "slice_from (hello_wire ?h) 29 = drop 24 ?m"
    using w by (simp_all add: py_slice_def slice_from_def slice_bound_def Let_def)
      (simp_all add: hello_wire_split)
  then have "seed_tls_fragmented_handshake = raw (concat (map rec_wire ?rs)) 0"
    using m by (simp add: seed_tls_fragmented_handshake_def wire_simps)
  moreover have "list_all rec_ok ?rs" using m by (simp add: rec_ok_def)
  ultimately show ?thesis unfolding Let_def by (rule raw_records [rotated])
qed

text \<open>The seed that cuts the first record across three packets sends the same stream.\<close>

lemma record_split_stream: "seed_stream seed_tls_record_split = seed_stream seed_tls_clienthello"
proof -
  let ?w = "hello_wire (hello13 [lit ''h2'', lit ''http/1.1''])"
  have w: "length ?w = 173" by (rule seed_hello_length)
  have s: "slice_to ?w 5 = take 5 ?w" "py_slice ?w 5 41 = take 36 (drop 5 ?w)" "slice_from ?w 41 = drop 41 ?w"
    using w by (simp_all add: py_slice_def slice_from_def slice_to_def slice_bound_def Let_def)
  have w36: "drop 36 (drop 5 ?w) = drop 41 ?w" by simp
  have "?w \<noteq> []" using w by force
  then have "list_all frame_ok [take 5 ?w, take 36 (drop 5 ?w), drop 41 ?w]"
    using w by (simp add: frame_ok_def)
  moreover have "take 5 ?w @ take 36 (drop 5 ?w) @ drop 41 ?w = ?w"
    by (metis append_take_drop_id w36)
  ultimately show ?thesis
    by (simp add: seed_tls_record_split_def seed_tls_clienthello_def wire_simps s
        seed_stream_multipacket seed_stream_raw)
qed

lemma sslv2_ok: "\<exists>bs. sslv2_client_hello = Inr bs"
  by (simp add: sslv2_client_hello_def Let_def bytes_of_simps byte_of_def)

section \<open>Every entry is good\<close>

text \<open>A stream that fits one frame is enough: its packets are no longer.\<close>

lemma seed_ok_stream:
  assumes "seed_stream r = Some s" and "frame_ok s"
  shows "seed_ok r"
proof -
  from assms(1) obtain d fi where d: "r = Inr d" "parse_fuzzer_input d = Inr fi" "s = concat (packets fi)"
    by (cases r; cases "parse_fuzzer_input (projr r)") (auto simp: seed_stream_def)
  from d(2) have "list_all frame_ok (packets fi)"
  proof (cases "flags fi AND 2 = 0")
    case True
    with raw_parse [OF d(2)] d(3) assms(2) show ?thesis by auto
  next
    case False
    with multipacket_parse [OF d(2)] show ?thesis by (simp add: multipacket_Inr_iff)
  qed
  with d show ?thesis by (simp add: seed_ok_def)
qed

lemma h2_parse_length:
  "h2_parse bs = Some (f, rest) \<Longrightarrow> length bs = 9 + length (h2_payload f) + length rest"
  by (auto simp: h2_parse_def Let_def split: if_splits)

lemma decode_h2_length:
  "decode_all h2_parse bs = Some fs \<Longrightarrow> length bs = sum_list (map (\<lambda>f. 9 + length (h2_payload f)) fs)"
proof (induction bs arbitrary: fs rule: measure_induct_rule [of length])
  case (less bs)
  then show ?case
    by (cases "bs = []")
      (auto simp: decode_all.simps [of _ bs] dest!: h2_parse_length split: option.splits if_splits)
qed

lemma seed_ok_h2:
  assumes "Option.bind (seed_stream r) h2_connection = Some fs"
    and "sum_list (map (\<lambda>f. 9 + length (h2_payload f)) fs) \<le> 65000"
  shows "seed_ok r"
proof -
  let ?n = "length cs_h2_preface"
  from assms(1) obtain s where s: "seed_stream r = Some s" "take ?n s = cs_h2_preface"
    "decode_all h2_parse (drop ?n s) = Some fs"
    by (cases "seed_stream r") (auto simp: h2_connection_def Let_def split: if_splits)
  have "?n = 24" by (simp add: cs_h2_preface_def)
  moreover have "s \<noteq> []"
  proof
    assume "s = []"
    with s(2) have "?n = 0" by (metis list.size(3) take_Nil)
    with \<open>?n = 24\<close> show False by simp
  qed
  ultimately have "frame_ok s"
    using decode_h2_length [OF s(3)] assms(2) by (simp add: frame_ok_def)
  with s(1) show ?thesis by (rule seed_ok_stream)
qed

lemma seed_ok_records:
  assumes "Option.bind (seed_stream r) (decode_all rec_parse) = Some rs" and "rs \<noteq> []"
    and "sum_list (map (\<lambda>r. 5 + length (rec_payload r)) rs) \<le> 65535"
  shows "seed_ok r"
proof -
  from assms(1) obtain s where s: "seed_stream r = Some s" "decode_all rec_parse s = Some rs"
    by (cases "seed_stream r") auto
  from rec.decode_all_sound [OF s(2)] have v: "list_all rec_ok rs" "s = concat (map rec_wire rs)" by simp_all
  then have "length s = sum_list (map (\<lambda>r. 5 + length (rec_payload r)) rs)"
    by (induction rs arbitrary: s) (simp_all add: rec_wire_def rec_ok_def)
  with assms(2,3) have "frame_ok s" unfolding frame_ok_def by (cases rs) auto
  with s(1) show ?thesis by (rule seed_ok_stream)
qed

lemma h2_seeds_ok:
  "seed_ok seed_h2c_prior_knowledge" "seed_ok seed_h2_window_error" "seed_ok seed_h2_priority_error"
  "seed_ok seed_h2_continuation" "seed_ok seed_h2_large_data" "seed_ok seed_h2_control_matrix"
  "seed_ok seed_h2_frame_boundaries"
  by (rule h2_seed_frames [THEN seed_ok_h2] h2_control_matrix_frames [THEN seed_ok_h2]
      h2_frame_boundaries_frames [THEN seed_ok_h2],
      simp add: settings_frame_def ping_frame_def h2_view_def request_block_def)+

lemma upgrade_and_websocket_ok: "seed_ok seed_h2c_upgrade" "seed_ok seed_h2_websocket_connect"
proof -
  have "length cs_h2_upgrade \<le> 60000"
    using length_request [of "''GET''" "''/h2c''"] unfolding cs_h2_upgrade_def
    by (rule order.trans) (simp add: length_body_bytes)
  then show "seed_ok seed_h2c_upgrade"
    by (intro seed_ok_stream [OF h2_upgrade_stream])
      (simp add: frame_ok_def cs_h2_preface_def settings_frame_def h2_view_def request_block_def)
  show "seed_ok seed_h2_websocket_connect"
    by (rule h2_websocket_frames [THEN seed_ok_h2]) (simp add: settings_frame_def h2_view_def)
qed

lemma length_rec_wire: "length (rec_wire r) = 3 + length (rec_version r) + length (rec_payload r)"
  by (simp add: rec_wire_def)

lemma hello_lengths:
  "length (handshake (hello13 [lit ''h2''])) \<le> 1000"
  "length (handshake (hello13 [cs_longest_alpn_name, lit ''h2''])) \<le> 1000"
  by (simp_all add: handshake_def alpn_list_def cs_longest_alpn_name_def)

lemma hello12_length: "length (handshake hello12) \<le> 1000"
  by (simp add: handshake_def hello_body_def) (simp add: hello12_def)

lemma tls_seeds_ok:
  "seed_ok seed_tls_clienthello"
  "seed_ok seed_tls_alpn_h2_only"
  "seed_ok seed_tls_alpn_name_boundary"
  "seed_ok seed_tls12_clienthello"
  "seed_ok seed_tls_unexpected_ccs"
  "seed_ok seed_tls_alert"
  "seed_ok seed_tls_bad_length"
  "seed_ok seed_tls_record_matrix"
  using hello_lengths hello12_length
  by (simp_all add: wire_simps seed_ok_raw frame_ok_def hello_wire_record length_rec_wire
      seed_hello_length rec.enc_nonempty rec_wire_def
      seed_tls_clienthello_def seed_tls_alpn_h2_only_def
      seed_tls_alpn_name_boundary_def seed_tls12_clienthello_def
      seed_tls_unexpected_ccs_def seed_tls_alert_def
      seed_tls_bad_length_def seed_tls_record_matrix_def)

lemma tls_split_seeds_ok:
  "seed_ok seed_tls_record_split" "seed_ok seed_tls_fragmented_handshake"
  "seed_ok seed_sslv2_clienthello"
proof -
  show "seed_ok seed_tls_record_split"
    by (rule seed_ok_stream [of _ "hello_wire (hello13 [lit ''h2'', lit ''http/1.1''])"])
      (simp_all add: record_split_stream seed_tls_clienthello_def wire_simps seed_stream_raw
        frame_ok_def seed_hello_length flip: length_greater_0_conv)
  show "seed_ok seed_tls_fragmented_handshake"
    by (rule seed_ok_records, rule fragmented_records [unfolded Let_def])
      (simp_all add: seed_hello_length)
  show "seed_ok seed_sslv2_clienthello"
  proof -
    have "\<exists>bs. sslv2_client_hello = Inr bs \<and> frame_ok bs"
      by (simp add: sslv2_client_hello_def Let_def bytes_of_simps byte_of_def frame_ok_def bytes_range_def)
    then obtain bs where b: "sslv2_client_hello = Inr bs" "frame_ok bs" by blast
    then show ?thesis
      unfolding seed_sslv2_clienthello_def b(1) bind_result_Inr by (intro seed_ok_raw) simp_all
  qed
qed

section \<open>Properties\<close>

text \<open>
  C31: every HTTP/2 seed of the dictionary gets past the frame layer of a server. The
  eight with prior knowledge are the connection preface and frames to the last byte, the
  upgrade seed is so behind its HTTP/1.1 request; the first frame is SETTINGS, payload
  sizes and stream numbers are those the frame types allow, header blocks are closed
  before anything else follows, and every block, also the one completed by CONTINUATION,
  decodes to a request. The window and priority errors are in values, not in the framing.
\<close>

theorem h2_seeds_well_formed:
  "list_all (\<lambda>seed. \<exists>s. seed_stream seed = Some s \<and> h2_accepts s)
     [seed_h2c_prior_knowledge, seed_h2_frame_boundaries, seed_h2_control_matrix,
      seed_h2_window_error, seed_h2_priority_error, seed_h2_continuation,
      seed_h2_websocket_connect, seed_h2_large_data] \<and>
   (\<exists>s. seed_stream seed_h2c_upgrade = Some (cs_h2_upgrade @ s) \<and> h2_accepts s)"
  using h2_prior_knowledge_accepted h2_upgrade_accepted by simp

text \<open>
  The continuation seed splits one header block over a HEADERS frame that does not
  end the headers and a CONTINUATION frame on the same stream that does; joined, the two
  payloads decode to a GET request for /h2-push, although neither the path string nor
  the block is complete in the first frame.
\<close>

theorem continuation_seed_reassembles:
  "\<exists>f1 f2. Option.bind (seed_stream seed_h2_continuation) h2_connection = Some [settings_frame, f1, f2] \<and>
     h2_type f1 = 1 \<and> h2_flags f1 = 1 \<and> h2_type f2 = 9 \<and> h2_flags f2 = 4 \<and>
     h2_stream f1 = h2_stream f2 \<and>
     decode_all hpack_field (h2_payload f1) = None \<and>
     decode_all hpack_field (h2_payload f1 @ h2_payload f2) =
       Some [('':method'', lit ''GET''), ('':scheme'', lit ''http''), ('':path'', lit ''/h2-push''),
             ('':authority'', lit ''localhost'')]"
proof (intro exI conjI)
  let ?f1 = "h2_view 1 1 1 ([0x82, 0x86, 0x04, 0x08] @ lit ''/h2-'')"
  let ?f2 = "h2_view 9 4 1 (lit ''push'' @ [0x01, 0x09] @ lit ''localhost'')"
  show "Option.bind (seed_stream seed_h2_continuation) h2_connection = Some [settings_frame, ?f1, ?f2]"
    by (rule h2_seed_frames)
  show "decode_all hpack_field (h2_payload ?f1) = None"
    by (simp add: h2_view_def decode_all_hpack hpack_field_def hpack_indexed_def hpack_name_def
        hpack_string_def hpack_length_def decode_all.simps [of _ "4 # x" for x])
  have "h2_payload ?f1 @ h2_payload ?f2 = request_block (lit ''/h2-push'')"
    using continuation_block by (simp add: h2_view_def)
  then show "decode_all hpack_field (h2_payload ?f1 @ h2_payload ?f2) =
       Some [('':method'', lit ''GET''), ('':scheme'', lit ''http''), ('':path'', lit ''/h2-push''),
             ('':authority'', lit ''localhost'')]"
    using request_block_decodes [of "lit ''/h2-push''"] by simp
qed (simp_all add: h2_view_def)

text \<open>
  C32: the TLS seeds that only cut the hello differently carry the same handshake: the
  record split over three packets is byte for byte the stream of the unsplit seed, and
  the fragmented handshake is two handshake records whose payloads, joined, are the
  message that the unsplit seed carries in one record.
\<close>

theorem tls_split_seeds_carry_hello:
  "seed_stream seed_tls_record_split = seed_stream seed_tls_clienthello \<and>
   (\<exists>r1 r2 m. Option.bind (seed_stream seed_tls_fragmented_handshake) (decode_all rec_parse) =
        Some [r1, r2] \<and>
      rec_type r1 = 0x16 \<and> rec_type r2 = 0x16 \<and> rec_payload r1 @ rec_payload r2 = m \<and>
      rec_payload r1 \<noteq> [] \<and> rec_payload r2 \<noteq> [] \<and>
      Option.bind (seed_stream seed_tls_clienthello) (decode_all rec_parse) =
        Some [\<lparr>rec_type = 0x16, rec_version = [3, 1], rec_payload = m\<rparr>])"
proof (intro conjI exI)
  let ?m = "handshake (hello13 [lit ''h2'', lit ''http/1.1''])"
  show "seed_stream seed_tls_record_split = seed_stream seed_tls_clienthello"
    by (rule record_split_stream)
  show "Option.bind (seed_stream seed_tls_fragmented_handshake) (decode_all rec_parse) =
      Some [\<lparr>rec_type = 0x16, rec_version = [3, 1], rec_payload = take 24 ?m\<rparr>,
            \<lparr>rec_type = 0x16, rec_version = [3, 3], rec_payload = drop 24 ?m\<rparr>]"
    by (rule fragmented_records [unfolded Let_def])
  show "Option.bind (seed_stream seed_tls_clienthello) (decode_all rec_parse) =
      Some [\<lparr>rec_type = 0x16, rec_version = [3, 1], rec_payload = ?m\<rparr>]"
    by (rule raw_records)
      (simp_all add: rec_ok_def seed_hello_length seed_tls_clienthello_def wire_simps hello_wire_record)
qed (use seed_hello_length(1) in auto)

text \<open>
  The ALPN boundary seed offers a name of exactly 255 bytes, the longest that is
  allowed, followed by h2, and its record parses completely.
\<close>

theorem alpn_boundary_seed:
  "length cs_longest_alpn_name = 255 \<and>
   (\<exists>s h. seed_stream seed_tls_alpn_name_boundary = Some s \<and> parse_hello s = Some h \<and>
      offered_protocols h = Some [cs_longest_alpn_name, lit ''h2''])"
proof (intro conjI exI)
  let ?ps = "[cs_longest_alpn_name, lit ''h2'']"
  show l: "length cs_longest_alpn_name = 255" by (simp add: cs_longest_alpn_name_def)
  then have a: "length (alpn_list ?ps) = 259" "list_all alpn_ok ?ps"
    by (simp_all add: alpn_list_def alpn_ok_def)
  show "seed_stream seed_tls_alpn_name_boundary = Some (hello_wire (hello13 ?ps))"
    by (simp add: seed_tls_alpn_name_boundary_def wire_simps seed_stream_raw)
  show "parse_hello (hello_wire (hello13 ?ps)) = Some (hello13 ?ps)"
    using a by (intro parse_hello_wire hello13_ok) simp
  show "offered_protocols (hello13 ?ps) = Some ?ps"
    using a by (intro offered_alpn) (simp_all add: extension_def hello13_def)
qed

end
