(* ===== verification/Corpus.thy ===== *)
theory Corpus
  imports Seeds_Http Seeds_Modules Seeds_Proxy Seeds_Wire
begin

text \<open>
  \<open>corpus_seeds\<close> and \<open>main\<close> of \<open>generate-interesting-corpus.py\<close>: the dictionary
  of seeds in the order of the source, and the files that \<open>main\<close> writes.
\<close>

section \<open>The dictionary\<close>

text \<open>The variables whose builders may raise; they are bound before the dictionary is built.\<close>

definition corpus_locals :: "bytes result list" where
  "corpus_locals =
     [cs_h2_settings, cs_h2_headers, cs_h2_ping, cs_h2_post_block, cs_h2_large_post,
      cs_hello, cs_hello12, cs_hello_h2_only, cs_hello_alpn_boundary]"

definition corpus_entries :: "(bytes \<Rightarrow> bytes) \<Rightarrow> (string \<times> bytes result) list" where
  "corpus_entries gz = [
      (''seed-get-index'', seed_get_index),
      (''seed-prelude-get'', seed_prelude_get),
      (''seed-options-star'', seed_options_star),
      (''seed-http10-keepalive'', seed_http10_keepalive),
      (''seed-path-parsing'', seed_path_parsing),
      (''seed-header-boundaries'', seed_header_boundaries),
      (''seed-content-length-boundary'', seed_content_length_boundary),
      (''seed-cl-te-conflict'', seed_cl_te_conflict),
      (''seed-pipeline-one-write'', seed_pipeline_one_write),
      (''seed-keepalive-fixed'', seed_keepalive_fixed),
      (''seed-keepalive-wait'', seed_keepalive_wait),
      (''seed-chunk-split'', seed_chunk_split),
      (''seed-chunk-boundaries'', seed_chunk_boundaries),
      (''seed-chunk-offt-max'', seed_chunk_offt_max),
      (''seed-chunk-offt-overflow'', seed_chunk_offt_overflow),
      (''seed-chunk-width-rejected'', seed_chunk_width_rejected),
      (''seed-chunk-extensions-trailers'', seed_chunk_extensions_trailers),
      (''seed-expect-continue'', seed_expect_continue),
      (''seed-range-conditional'', seed_range_conditional),
      (''seed-auth-schemes'', seed_auth_schemes),
      (''seed-rewrite-paths'', seed_rewrite_paths),
      (''seed-proxy-forms'', seed_proxy_forms),
      (''seed-proxy-balancer-websocket'', seed_proxy_balancer_websocket),
      (''seed-content-filters'', seed_content_filters),
      (''seed-deflate-input-stream'', seed_deflate_input_stream gz),
      (''seed-deflate-input-bad-crc'', seed_deflate_input_bad_crc gz),
      (''seed-deflate-input-truncated'', seed_deflate_input_truncated gz),
      (''seed-deflate-input-errors'', seed_deflate_input_errors gz),
      (''seed-sed-stream-boundaries'', seed_sed_stream_boundaries),
      (''seed-cache-validators'', seed_cache_validators),
      (''seed-cache-socache'', seed_cache_socache),
      (''seed-negotiation-index'', seed_negotiation_index),
      (''seed-cgi-body'', seed_cgi_body),
      (''seed-cgi-response-matrix'', seed_cgi_response_matrix),
      (''seed-cgi-response-errors'', seed_cgi_response_errors),
      (''seed-cgi-partial-output'', seed_cgi_partial_output),
      (''seed-cgi-empty-output'', seed_cgi_empty_output),
      (''seed-cgi-nph-ssi'', seed_cgi_nph_ssi),
      (''seed-cgi-body-split'', seed_cgi_body_split),
      (''seed-cgi-body-chunked'', seed_cgi_body_chunked),
      (''seed-ssi-actions'', seed_ssi_actions),
      (''seed-handlers-status-reflect'', seed_handlers_status_reflect),
      (''seed-trace-max-forwards'', seed_trace_max_forwards),
      (''seed-trace-chunked-body'', seed_trace_chunked_body),
      (''seed-request-line-modes'', seed_request_line_modes),
      (''seed-webdav-propfind'', seed_webdav_propfind),
      (''seed-webdav-stateful'', seed_webdav_stateful),
      (''seed-webdav-lock'', seed_webdav_lock),
      (''seed-webdav-properties'', seed_webdav_properties),
      (''seed-webdav-destination-ports'', seed_webdav_destination_ports),
      (''seed-h2c-prior-knowledge'', seed_h2c_prior_knowledge),
      (''seed-h2c-upgrade'', seed_h2c_upgrade),
      (''seed-h2-frame-boundaries'', seed_h2_frame_boundaries),
      (''seed-h2-control-matrix'', seed_h2_control_matrix),
      (''seed-h2-window-error'', seed_h2_window_error),
      (''seed-h2-priority-error'', seed_h2_priority_error),
      (''seed-h2-continuation'', seed_h2_continuation),
      (''seed-h2-websocket-connect'', seed_h2_websocket_connect),
      (''seed-h2-large-data'', seed_h2_large_data),
      (''seed-tls-clienthello'', seed_tls_clienthello),
      (''seed-tls-alpn-h2-only'', seed_tls_alpn_h2_only),
      (''seed-tls-alpn-name-boundary'', seed_tls_alpn_name_boundary),
      (''seed-tls-record-split'', seed_tls_record_split),
      (''seed-tls12-clienthello'', seed_tls12_clienthello),
      (''seed-tls-fragmented-handshake'', seed_tls_fragmented_handshake),
      (''seed-tls-unexpected-ccs'', seed_tls_unexpected_ccs),
      (''seed-tls-alert'', seed_tls_alert),
      (''seed-tls-bad-length'', seed_tls_bad_length),
      (''seed-tls-record-matrix'', seed_tls_record_matrix),
      (''seed-sslv2-clienthello'', seed_sslv2_clienthello),
      (''seed-auth-cache-form-session'', seed_auth_cache_form_session),
      (''seed-proxy-connect-tunnel'', seed_proxy_connect_tunnel),
      (''seed-proxy-ajp'', seed_proxy_ajp),
      (''seed-proxy-fcgi'', seed_proxy_fcgi),
      (''seed-proxy-scgi'', seed_proxy_scgi),
      (''seed-proxy-uwsgi'', seed_proxy_uwsgi),
      (''seed-autoindex-query'', seed_autoindex_query),
      (''seed-authz-providers'', seed_authz_providers),
      (''seed-buffer-filter-pipeline'', seed_buffer_filter_pipeline),
      (''seed-rate-limit-output'', seed_rate_limit_output),
      (''seed-ext-filter-lifecycle'', seed_ext_filter_lifecycle),
      (''seed-vhost-userdir'', seed_vhost_userdir),
      (''seed-rewrite-map-matrix'', seed_rewrite_map_matrix),
      (''seed-proxy-express-hosts'', seed_proxy_express_hosts),
      (''seed-balancer-methods'', seed_balancer_methods),
      (''seed-balancer-manager'', seed_balancer_manager),
      (''seed-error-subrequests'', seed_error_subrequests),
      (''seed-cache-policy-lock'', seed_cache_policy_lock),
      (''seed-proxy-response-rewrite'', seed_proxy_response_rewrite),
      (''seed-data-filter-lengths'', seed_data_filter_lengths),
      (''seed-imagemap-coordinates'', seed_imagemap_coordinates),
      (''seed-charset-translate'', seed_charset_translate),
      (''seed-tls-backend-proxy'', seed_tls_backend_proxy),
      (''seed-cache-socache-dbm'', seed_cache_socache_dbm),
      (''seed-proxy-protocol-v1-tcp4'', seed_proxy_protocol_v1_tcp4),
      (''seed-proxy-protocol-v1-tcp6'', seed_proxy_protocol_v1_tcp6),
      (''seed-proxy-protocol-v1-unknown'', seed_proxy_protocol_v1_unknown),
      (''seed-proxy-protocol-v1-split'', seed_proxy_protocol_v1_split),
      (''seed-proxy-protocol-v2-tcp4'', seed_proxy_protocol_v2_tcp4),
      (''seed-proxy-protocol-v2-tcp6-split'', seed_proxy_protocol_v2_tcp6_split),
      (''seed-proxy-protocol-v2-local'', seed_proxy_protocol_v2_local),
      (''seed-proxy-protocol-v2-oversize'', seed_proxy_protocol_v2_oversize),
      (''seed-proxy-protocol-v2-short-tcp4'', seed_proxy_protocol_v2_short_tcp4),
      (''seed-proxy-protocol-v2-short-tcp6'', seed_proxy_protocol_v2_short_tcp6)]"

definition build_entry :: "string \<times> bytes result \<Rightarrow> (string \<times> bytes) result" where
  "build_entry e = bind_result (snd e) (\<lambda>d. Inr (fst e, d))"

definition corpus_seeds :: "(bytes \<Rightarrow> bytes) \<Rightarrow> (string \<times> bytes) list result" where
  "corpus_seeds gz =
     bind_result (sequence corpus_locals) (\<lambda>_.
       sequence (map build_entry (corpus_entries gz)))"

section \<open>Writing the files\<close>

text \<open>
  The file system as \<open>main\<close> sees it: file contents by path, the directories, the paths
  that cannot be created or opened for writing (with the error), and what was printed.
  \<open>mkdir(parents=True, exist_ok=True)\<close> is one step: the parents it may create hold no
  file of the corpus and are not tracked.
\<close>

record disk =
  contents :: "string \<Rightarrow> bytes option"
  directories :: "string set"
  write_error :: "string \<Rightarrow> string option"
  printed :: "string list"

definition mkdir :: "string \<Rightarrow> disk \<Rightarrow> disk result" where
  "mkdir dir w =
     (if dir \<in> directories w then Inr w
      else if contents w dir \<noteq> None then Inl (OSError ''File exists'')
      else case write_error w dir of
             Some e \<Rightarrow> Inl (OSError e)
           | None \<Rightarrow> Inr (w\<lparr>directories := insert dir (directories w)\<rparr>))"

definition write_bytes :: "string \<Rightarrow> bytes \<Rightarrow> disk \<Rightarrow> disk result" where
  "write_bytes path d w =
     (if path \<in> directories w then Inl (OSError ''Is a directory'')
      else case write_error w path of
        Some e \<Rightarrow> Inl (OSError e)
      | None \<Rightarrow> Inr (w\<lparr>contents := (contents w)(path \<mapsto> d)\<rparr>))"

definition in_dir :: "string \<Rightarrow> string \<Rightarrow> string" where
  "in_dir dir name = dir @ ''/'' @ name"

definition size_line :: "string \<Rightarrow> bytes \<Rightarrow> string" where
  "size_line name d = name @ '': '' @ show_nat (length d) @ '' bytes''"

text \<open>
  The loop of \<open>main\<close>. What it has done stays done when a later step raises, so the
  outcome is the final disk together with the exception, if there is one.
\<close>

fun write_seeds :: "string \<Rightarrow> (string \<times> bytes) list \<Rightarrow> disk \<Rightarrow> disk \<times> py_exn option" where
  "write_seeds dir [] w = (w, None)"
| "write_seeds dir ((name, d) # seeds) w =
     (case write_bytes (in_dir dir name) d w of
        Inl e \<Rightarrow> (w, Some e)
      | Inr w' \<Rightarrow> write_seeds dir seeds (w'\<lparr>printed := printed w' @ [size_line name d]\<rparr>))"

definition generate_main :: "(bytes \<Rightarrow> bytes) \<Rightarrow> string \<Rightarrow> disk \<Rightarrow> disk \<times> py_exn option" where
  "generate_main gz dir w =
     (case mkdir dir w of
        Inl e \<Rightarrow> (w, Some e)
      | Inr w' \<Rightarrow>
          (case corpus_seeds gz of
             Inl e \<Rightarrow> (w', Some e)
           | Inr seeds \<Rightarrow> write_seeds dir seeds w'))"

section \<open>The dictionary is complete\<close>

lemma corpus_locals_ok: "succeeds (sequence corpus_locals)"
  by (simp add: corpus_locals_def wire_simps cs_h2_large_post_def)

lemma corpus_names_distinct: "distinct (map fst (corpus_entries gz))"
  by (simp add: corpus_entries_def)

lemma corpus_entries_length: "length (corpus_entries gz) = 104"
  by (simp add: corpus_entries_def)

lemma corpus_entries_ok:
  assumes "gzip_sizes gz"
  shows "list_all (\<lambda>e. seed_ok (snd e)) (corpus_entries gz)"
  unfolding corpus_entries_def list.pred_inject snd_conv
  by (intro conjI list.pred_inject(1) seeds_http_ok seeds_modules_ok seeds_proxy_ok h2_seeds_ok
      upgrade_and_websocket_ok tls_seeds_ok tls_split_seeds_ok deflate_ok [OF assms])

lemma sequence_build:
  "list_all (\<lambda>e. seed_ok (snd e)) es \<Longrightarrow>
   \<exists>ss. sequence (map build_entry es) = Inr ss \<and> map fst ss = map fst es \<and>
     list_all (\<lambda>s. seed_ok (Inr (snd s))) ss"
proof (induction es)
  case Nil
  then show ?case by simp
next
  case (Cons e es)
  then obtain ss d where "sequence (map build_entry es) = Inr ss" "map fst ss = map fst es"
    "list_all (\<lambda>s. seed_ok (Inr (snd s))) ss" "snd e = Inr d" "seed_ok (Inr d)"
    by (auto simp: seed_ok_def split: sum.splits)
  moreover from this(4) have "build_entry e = Inr (fst e, d)" by (simp add: build_entry_def)
  ultimately show ?case by (intro exI [of _ "(fst e, d) # ss"]) simp
qed

lemma corpus_seeds_built:
  assumes "gzip_sizes gz"
  obtains seeds where "corpus_seeds gz = Inr seeds"
    and "map fst seeds = map fst (corpus_entries gz)"
    and "list_all (\<lambda>s. seed_ok (Inr (snd s))) seeds"
proof -
  obtain ls where "sequence corpus_locals = Inr ls"
    using corpus_locals_ok by (auto simp: succeeds_iff)
  with sequence_build [OF corpus_entries_ok [OF assms]] that show ?thesis
    by (auto simp: corpus_seeds_def)
qed

text \<open>A good seed decodes, and is far shorter than a 64-bit size can say.\<close>

lemma seed_ok_decodes:
  assumes "seed_ok (Inr d)"
  obtains fi where "parse_fuzzer_input d = Inr fi" and "list_all frame_ok (packets fi)"
  using assms by (auto simp: seed_ok_def split: sum.splits)

lemma seed_ok_length:
  assumes "seed_ok (Inr d)"
  shows "length d \<le> 64 * 65537 + 1"
proof -
  obtain fi where fi: "parse_fuzzer_input d = Inr fi" and ok: "list_all frame_ok (packets fi)"
    using assms by (rule seed_ok_decodes)
  show ?thesis
  proof (cases "flags fi AND 2 = 0")
    case True
    with raw_parse [OF fi] ok show ?thesis by (auto simp: raw_Inr_iff frame_ok_def)
  next
    case False
    have "length (concat (map frame (packets fi))) \<le> 65537 * length (map frame (packets fi))"
      using ok by (intro list_all_concat_length) (auto simp: list_all_iff frame_ok_def)
    moreover obtain b rest where d: "d = b # rest" using fi by (cases d) simp_all
    moreover have "uint b AND 2 \<noteq> 0"
      using False fi d by (cases "uint b AND 2 = 0") (auto simp: parse_single)
    ultimately show ?thesis using fi by (simp add: parse_multi_iff)
  qed
qed

text \<open>
  C4: whatever the compressor, as long as its output has the sizes of gzip members, the
  generator builds its whole dictionary without raising: 104 seeds with distinct names,
  each of which the replay tool's decoder accepts.
\<close>

theorem corpus_builds_and_decodes:
  assumes "gzip_sizes gz"
  shows "\<exists>seeds. corpus_seeds gz = Inr seeds \<and> length seeds = 104 \<and> distinct (map fst seeds) \<and>
    (\<forall>(name, d) \<in> set seeds. succeeds (parse_fuzzer_input d))"
proof -
  obtain seeds where s: "corpus_seeds gz = Inr seeds"
    and n: "map fst seeds = map fst (corpus_entries gz)"
    and p: "list_all (\<lambda>s. seed_ok (Inr (snd s))) seeds"
    using corpus_seeds_built [OF assms] by metis
  have "length seeds = 104" using arg_cong [OF n, of length] by (simp add: corpus_entries_length)
  with s n p corpus_names_distinct [of gz] show ?thesis
    by (auto simp: list_all_iff split_beta succeeds_iff elim!: seed_ok_decodes)
qed

theorem corpus_builds_and_decodes_witness:
  "\<exists>seeds. corpus_seeds stored_gzip = Inr seeds \<and> length seeds = 104 \<and>
    distinct (map fst seeds) \<and> (\<forall>(name, d) \<in> set seeds. succeeds (parse_fuzzer_input d))"
  by (rule corpus_builds_and_decodes [OF stored_gzip_sizes])

section \<open>The corpus directory\<close>

lemma in_dir_inj [simp]: "in_dir dir a = in_dir dir b \<longleftrightarrow> a = b"
  by (simp add: in_dir_def)

text \<open>One turn of the loop when nothing fails, and all of them.\<close>

definition put_seed :: "string \<Rightarrow> string \<times> bytes \<Rightarrow> disk \<Rightarrow> disk" where
  "put_seed dir s w = w\<lparr>contents := (contents w)(in_dir dir (fst s) \<mapsto> snd s),
     printed := printed w @ [size_line (fst s) (snd s)]\<rparr>"

lemma put_seed_simps [simp]:
  "contents (put_seed dir s w) = (contents w)(in_dir dir (fst s) \<mapsto> snd s)"
  "printed (put_seed dir s w) = printed w @ [size_line (fst s) (snd s)]"
  "directories (put_seed dir s w) = directories w" "write_error (put_seed dir s w) = write_error w"
  by (simp_all add: put_seed_def)

lemma write_seeds_all:
  "(\<And>name. write_error w (in_dir dir name) = None) \<Longrightarrow>
   (\<And>name. in_dir dir name \<notin> directories w) \<Longrightarrow>
   write_seeds dir seeds w = (fold (put_seed dir) seeds w, None)"
proof (induction seeds arbitrary: w)
  case Nil
  then show ?case by simp
next
  case (Cons s seeds)
  have "write_seeds dir (s # seeds) w = write_seeds dir seeds (put_seed dir s w)"
    using Cons.prems by (cases s) (simp add: write_bytes_def put_seed_def)
  with Cons show ?case by simp
qed

lemma printed_fold: "printed (fold (put_seed dir) seeds w) =
    printed w @ map (\<lambda>s. size_line (fst s) (snd s)) seeds"
  by (induction seeds arbitrary: w) simp_all

lemma contents_fold_other:
  "p \<notin> in_dir dir ` fst ` set seeds \<Longrightarrow> contents (fold (put_seed dir) seeds w) p = contents w p"
  by (induction seeds arbitrary: w) auto

lemma contents_fold:
  "distinct (map fst seeds) \<Longrightarrow> s \<in> set seeds \<Longrightarrow>
   contents (fold (put_seed dir) seeds w) (in_dir dir (fst s)) = Some (snd s)"
proof (induction seeds arbitrary: w)
  case Nil
  then show ?case by simp
next
  case (Cons t seeds)
  show ?case
  proof (cases "s = t")
    case True
    with Cons.prems(1) have "in_dir dir (fst s) \<notin> in_dir dir ` fst ` set seeds"
      by (simp add: inj_image_mem_iff inj_def)
    with True show ?thesis by (simp add: contents_fold_other)
  next
    case False
    with Cons show ?thesis by simp
  qed
qed

text \<open>
  C30: on a disk where nothing fails, \<open>main\<close> ends normally and the corpus directory holds
  exactly the dictionary: each seed under its name, nothing else changed, one line printed
  per file.
\<close>

theorem generate_main_writes_corpus:
  assumes "gzip_sizes gz" and "\<And>p. write_error w p = None"
    and "contents w dir = None" and "\<And>name. in_dir dir name \<notin> directories w"
  shows "\<exists>seeds. corpus_seeds gz = Inr seeds \<and> snd (generate_main gz dir w) = None \<and>
    (\<forall>(name, d) \<in> set seeds. contents (fst (generate_main gz dir w)) (in_dir dir name) = Some d) \<and>
    (\<forall>p. p \<notin> in_dir dir ` fst ` set seeds \<longrightarrow>
       contents (fst (generate_main gz dir w)) p = contents w p) \<and>
    printed (fst (generate_main gz dir w)) = printed w @ map (\<lambda>(n, d). size_line n d) seeds"
proof -
  obtain seeds where s: "corpus_seeds gz = Inr seeds"
    and n: "map fst seeds = map fst (corpus_entries gz)"
    using corpus_seeds_built [OF assms(1)] by metis
  have d: "distinct (map fst seeds)" using n corpus_names_distinct [of gz] by simp
  let ?w = "w\<lparr>directories := insert dir (directories w)\<rparr>"
  have "mkdir dir w = Inr ?w"
    using assms(2,3) by (simp add: mkdir_def insert_absorb)
  moreover have "in_dir dir name \<notin> directories ?w" for name
    using assms(4) by (simp add: in_dir_def)
  ultimately have g: "generate_main gz dir w = (fold (put_seed dir) seeds ?w, None)"
    using s assms(2) by (simp add: generate_main_def write_seeds_all)
  have "contents (fold (put_seed dir) seeds ?w) (in_dir dir name) = Some x"
    if "(name, x) \<in> set seeds" for name x
    using contents_fold [OF d that] by simp
  with s g show ?thesis
    by (intro exI [of _ seeds]) (auto simp: contents_fold_other printed_fold split_beta)
qed

definition empty_disk :: disk where
  "empty_disk = \<lparr>contents = Map.empty, directories = {}, write_error = Map.empty, printed = []\<rparr>"

theorem generate_main_writes_corpus_witness:
  "\<exists>seeds. corpus_seeds stored_gzip = Inr seeds \<and>
    snd (generate_main stored_gzip ''corpus'' empty_disk) = None \<and>
    (\<forall>(name, d) \<in> set seeds.
       contents (fst (generate_main stored_gzip ''corpus'' empty_disk)) (in_dir ''corpus'' name) = Some d)"
  using generate_main_writes_corpus [OF stored_gzip_sizes, of empty_disk "''corpus''"]
  by (auto simp: empty_disk_def)

end
