(* ===== verification/Replay_Session.thy ===== *)
theory Replay_Session
  imports Complex_Main Replay_Input Py_Text
begin

text \<open>
  The networked half of \<open>send-test-case.py\<close>: receiving responses, printing them, and
  \<open>main\<close> from argument checks to the exit code. The outside world is a script of what the
  file system and the peer do, and every effect is appended to a log, so that orderings
  are statements about the log.
\<close>

section \<open>The world\<close>

text \<open>Command-line floats: \<open>float("nan")\<close> and the infinities parse too.\<close>

datatype pyfloat = NaN | PosInf | NegInf | Fin rat

text \<open>A duration handed to the library: \<open>Millis x\<close> stands for \<open>x / 1000.0\<close>.\<close>

datatype duration = Seconds pyfloat | Millis pyfloat

fun in_seconds :: "duration \<Rightarrow> pyfloat" where
  "in_seconds (Millis (Fin q)) = Fin (q / 1000)"
| "in_seconds (Millis x) = x"
| "in_seconds (Seconds x) = x"

text \<open>
  What the peer does: bytes arrive, the time limit passes with nothing to read, or the
  connection fails. After the last item the peer has closed the connection.
\<close>

datatype arrival = Data bytes | Quiet | Broken string

datatype action =
    Read_Input
  | Connect duration
  | Set_Timeout duration
  | Send bytes
  | Recv int "bytes option"
  | Recv_Error string
  | Sleep duration
  | Print string
  | Warn string
  | Traceback
  | Close

text \<open>
  Faults of the file and of the connection are the messages of the OSError raised. Looking
  the host up raises an OSError (\<open>gaierror\<close>) or, for a malformed name, a ValueError
  (\<open>UnicodeError\<close>); otherwise it gives the addresses to try, of which the socket
  may not open or may not connect.
\<close>

datatype lookup_fault = Unresolved string | Bad_Name string

record address =
  socket_fault :: "string option"
  connect_fault :: "string option"

record world =
  input_file :: "string + bytes"
  resolution :: "lookup_fault + address list"
  send_faults :: "string option list"
  arrivals :: "arrival list"
  log :: "action list"

type_synonym 'a io = "world \<Rightarrow> 'a result \<times> world"

definition return_io :: "'a \<Rightarrow> 'a io" where
  "return_io x = (\<lambda>w. (Inr x, w))"

definition raise_io :: "py_exn \<Rightarrow> 'a io" where
  "raise_io e = (\<lambda>w. (Inl e, w))"

definition bind_io :: "'a io \<Rightarrow> ('a \<Rightarrow> 'b io) \<Rightarrow> 'b io" where
  "bind_io m f = (\<lambda>w. case m w of (Inl e, w') \<Rightarrow> (Inl e, w') | (Inr x, w') \<Rightarrow> f x w')"

definition emit :: "action \<Rightarrow> unit io" where
  "emit a = (\<lambda>w. (Inr (), w\<lparr>log := log w @ [a]\<rparr>))"

definition lift_result :: "'a result \<Rightarrow> 'a io" where
  "lift_result r = (\<lambda>w. (r, w))"

definition print_line :: "string \<Rightarrow> unit io" where
  "print_line s = emit (Print s)"

section \<open>The socket\<close>

text \<open>
  What \<open>settimeout\<close> and \<open>time.sleep\<close> raise for a value, if anything. Both turn
  the seconds into nanoseconds, which must fit a signed 64-bit integer.
\<close>

definition overflow_error :: py_exn where
  "overflow_error = OverflowError ''timestamp out of range for platform time_t''"

definition nan_error :: py_exn where
  "nan_error = ValueError ''Invalid value NaN (not a number)''"

definition timeout_error :: "duration \<Rightarrow> py_exn option" where
  "timeout_error d = (case in_seconds d of
     NaN \<Rightarrow> Some nan_error
   | PosInf \<Rightarrow> Some overflow_error
   | NegInf \<Rightarrow> Some overflow_error
   | Fin q \<Rightarrow>
       if q * 10 ^ 9 < - (2 ^ 63) \<or> 2 ^ 63 \<le> q * 10 ^ 9 then Some overflow_error
       else if q < 0 then Some (ValueError ''Timeout value out of range'')
       else None)"

definition sleep_error :: "duration \<Rightarrow> py_exn option" where
  "sleep_error d = (case in_seconds d of
     NaN \<Rightarrow> Some nan_error
   | PosInf \<Rightarrow> Some overflow_error
   | NegInf \<Rightarrow> Some overflow_error
   | Fin q \<Rightarrow>
       if q * 10 ^ 9 < - (2 ^ 63) \<or> 2 ^ 63 \<le> q * 10 ^ 9 then Some overflow_error
       else if q < 0 then Some (ValueError ''sleep length must be non-negative'')
       else None)"

definition guarded :: "py_exn option \<Rightarrow> unit io \<Rightarrow> unit io" where
  "guarded fault m = (case fault of Some e \<Rightarrow> raise_io e | None \<Rightarrow> m)"

definition set_timeout :: "duration \<Rightarrow> unit io" where
  "set_timeout d = guarded (timeout_error d) (emit (Set_Timeout d))"

definition sleep :: "duration \<Rightarrow> unit io" where
  "sleep d = guarded (sleep_error d) (emit (Sleep d))"

text \<open>\<open>sock.sendall(data)\<close>; the world decides whether the connection takes it.\<close>

definition sendall :: "bytes \<Rightarrow> unit io" where
  "sendall data = (\<lambda>w. case send_faults w of
     Some m # fs \<Rightarrow> (Inl (OSError m), w\<lparr>send_faults := fs\<rparr>)
   | None # fs \<Rightarrow> emit (Send data) (w\<lparr>send_faults := fs\<rparr>)
   | [] \<Rightarrow> emit (Send data) w)"

text \<open>
  \<open>sock.recv(n)\<close>: at most \<open>n\<close> of the bytes at the head of what arrives, \<open>b""\<close>
  once the peer has closed, \<open>None\<close> where it raises \<open>socket.timeout\<close>.
\<close>

definition recv :: "int \<Rightarrow> bytes option io" where
  "recv n = (\<lambda>w.
     if n < 0 then (Inl (ValueError ''negative buffersize in recv''), w)
     else case arrivals w of
       [] \<Rightarrow> (Inr (Some []), w\<lparr>log := log w @ [Recv n (Some [])]\<rparr>)
     | Quiet # es \<Rightarrow> (Inr None, w\<lparr>arrivals := es, log := log w @ [Recv n None]\<rparr>)
     | Broken m # es \<Rightarrow> (Inl (OSError m), w\<lparr>arrivals := es, log := log w @ [Recv_Error m]\<rparr>)
     | Data bs # es \<Rightarrow>
         let got = take (nat n) bs; left = drop (nat n) bs
         in (Inr (Some got), w\<lparr>arrivals := (if left = [] then es else Data left # es),
                                log := log w @ [Recv n (Some got)]\<rparr>))"

section \<open>receive_response\<close>

text \<open>
  The loop that drains a response, for any socket given by its \<open>recv\<close>. It stops at the
  limit, on a timeout, or when \<open>recv\<close> returns nothing.
\<close>

function receive_loop ::
  "(int \<Rightarrow> 's \<Rightarrow> bytes option result \<times> 's) \<Rightarrow> bytes \<Rightarrow> int \<Rightarrow> 's \<Rightarrow> bytes result \<times> 's" where
  "receive_loop rcv response limit s =
     (if int (length response) < limit then
        case rcv (min 4096 (limit - int (length response))) s of
          (Inl e, s') \<Rightarrow> (Inl e, s')
        | (Inr None, s') \<Rightarrow> (Inr response, s')
        | (Inr (Some chunk), s') \<Rightarrow>
            if chunk = [] then (Inr response, s')
            else receive_loop rcv (response @ chunk) limit s'
      else (Inr response, s))"
  by pat_completeness auto
termination
  by (relation "measure (\<lambda>(rcv, response, limit, s). nat (limit - int (length response)))") auto

declare receive_loop.simps [simp del]

definition receive_response :: "duration \<Rightarrow> int \<Rightarrow> bytes option io" where
  "receive_response timeout limit =
     bind_io (set_timeout timeout) (\<lambda>_.
     bind_io (recv (min 4096 limit)) (\<lambda>first.
       case first of
         None \<Rightarrow> return_io None
       | Some bs \<Rightarrow>
           if bs = [] then return_io (Some [])
           else bind_io (set_timeout (Seconds (Fin 0.05))) (\<lambda>_.
                bind_io (receive_loop recv bs limit) (\<lambda>response. return_io (Some response)))))"

section \<open>describe_response\<close>

definition latin1 :: "bytes \<Rightarrow> string" where
  "latin1 bs = map (\<lambda>b. char_of (unat b)) bs"

definition hex_bytes :: "bytes \<Rightarrow> string" where
  "hex_bytes bs = concat (map (\<lambda>b. hex2 (unat b)) bs)"

definition describe_response :: "string \<Rightarrow> bytes option \<Rightarrow> unit io" where
  "describe_response label response = (case response of
     None \<Rightarrow> print_line (label @ '': no response before timeout'')
   | Some bs \<Rightarrow>
       if bs = [] then print_line (label @ '': connection closed'')
       else
         bind_io (print_line (label @ '': bytes='' @ show_nat (length bs) @ '' hex='' @ hex_bytes bs))
           (\<lambda>_. print_line (label @ '' text: '' @ py_repr (latin1 bs))))"

text \<open>Python's \<open>not response\<close>.\<close>

definition no_response :: "bytes option \<Rightarrow> bool" where
  "no_response r \<longleftrightarrow> r = None \<or> r = Some []"

section \<open>main\<close>

record arguments =
  opt_raw :: bool
  opt_packet :: "int option"
  opt_host :: string
  opt_port :: int
  opt_timeout :: pyfloat
  opt_response_wait_ms :: pyfloat
  opt_packet_delay_ms :: pyfloat
  opt_response_limit :: int
  opt_dry_run :: bool

definition KEEPALIVE_PRELUDE :: bytes where
  "KEEPALIVE_PRELUDE = lit (''HEAD / HTTP/1.1'' @ crlf @ ''Host: localhost'' @ crlf @
     ''Connection: keep-alive'' @ crlf @ crlf)"

text \<open>Float comparisons with zero: every comparison with NaN is false.\<close>

fun le_zero :: "pyfloat \<Rightarrow> bool" where
  "le_zero NaN = False"
| "le_zero PosInf = False"
| "le_zero NegInf = True"
| "le_zero (Fin q) = (q \<le> 0)"

fun lt_zero :: "pyfloat \<Rightarrow> bool" where
  "lt_zero NaN = False"
| "lt_zero PosInf = False"
| "lt_zero NegInf = True"
| "lt_zero (Fin q) = (q < 0)"

text \<open>The checks after \<open>parse_args\<close>: the first message given to \<open>parser.error\<close>.\<close>

definition check_arguments :: "arguments \<Rightarrow> string option" where
  "check_arguments a =
     (if opt_raw a \<and> opt_packet a \<noteq> None then
        Some ''--raw and --packet cannot be used together''
      else if \<not> (1 \<le> opt_port a \<and> opt_port a \<le> 65535) then Some ''invalid port''
      else if le_zero (opt_timeout a) \<or> le_zero (opt_response_wait_ms a) \<or>
              lt_zero (opt_packet_delay_ms a) then
        Some ''invalid timeout or delay''
      else if \<not> (1 \<le> opt_response_limit a \<and> opt_response_limit a \<le> 2 ^ 20) then
        Some ''invalid response limit''
      else None)"

definition parser_error :: "string \<Rightarrow> 'a io" where
  "parser_error msg = bind_io (emit (Warn (''error: '' @ msg))) (\<lambda>_. raise_io (SystemExit 2))"

definition select_packets :: "arguments \<Rightarrow> fuzzer_input \<Rightarrow> bytes list io" where
  "select_packets a decoded = (case opt_packet a of
     None \<Rightarrow> return_io (packets decoded)
   | Some n \<Rightarrow>
       if \<not> multipacket_flag decoded then parser_error ''--packet requires a multipacket input''
       else if \<not> (1 \<le> n \<and> n \<le> int (length (packets decoded))) then
         parser_error (''--packet must be between 1 and '' @ show_nat (length (packets decoded)))
       else return_io [packets decoded ! nat (n - 1)])"

definition show_bit :: "bool \<Rightarrow> string" where
  "show_bit b = (if b then ''1'' else ''0'')"

definition summary_line :: "fuzzer_input \<Rightarrow> bytes list \<Rightarrow> string" where
  "summary_line decoded pkts =
     ''flags=0x'' @ hex2 (nat (flags decoded)) @
     '' prelude='' @ show_bit (flags decoded AND HTTP_PRELUDE_FLAG \<noteq> 0) @
     '' multipacket='' @ show_bit (multipacket_flag decoded) @
     '' wait='' @ show_bit (flags decoded AND WAIT_FOR_RESPONSE_FLAG \<noteq> 0) @
     '' packets='' @ show_nat (length (packets decoded)) @
     '' selected='' @ show_nat (length pkts) @
     '' sizes='' @ join '','' (map (\<lambda>p. show_nat (length p)) pkts)"

text \<open>
  The loop over \<open>enumerate(packets, 1)\<close>. \<open>Some n\<close> is an early \<open>return n\<close>.
\<close>

fun send_packets :: "arguments \<Rightarrow> int \<Rightarrow> nat \<Rightarrow> nat \<Rightarrow> bytes list \<Rightarrow> int option io" where
  "send_packets a fl n_total index [] = return_io None"
| "send_packets a fl n_total index (packet # rest) =
     bind_io (sendall packet) (\<lambda>_.
     bind_io (print_line (''packet '' @ show_nat index @ ''/'' @ show_nat n_total @ '': sent '' @
       show_nat (length packet) @ '' bytes'')) (\<lambda>_.
       if index < n_total then
         if fl AND WAIT_FOR_RESPONSE_FLAG \<noteq> 0 then
           bind_io (receive_response (Millis (opt_response_wait_ms a)) (opt_response_limit a))
             (\<lambda>response.
           bind_io (describe_response (''packet '' @ show_nat index @ '' gate'') response) (\<lambda>_.
             if no_response response then
               bind_io (emit (Warn ''response gate failed; sequence stopped''))
                 (\<lambda>_. return_io (Some 2))
             else send_packets a fl n_total (Suc index) rest))
         else
           bind_io (sleep (Millis (opt_packet_delay_ms a))) (\<lambda>_.
             send_packets a fl n_total (Suc index) rest)
       else send_packets a fl n_total (Suc index) rest))"

definition send_prelude :: "arguments \<Rightarrow> int \<Rightarrow> int option io" where
  "send_prelude a fl =
     (if fl AND HTTP_PRELUDE_FLAG \<noteq> 0 then
        bind_io (sendall KEEPALIVE_PRELUDE) (\<lambda>_.
        bind_io (receive_response (Seconds (opt_timeout a)) (opt_response_limit a)) (\<lambda>response.
        bind_io (describe_response ''prelude response'' response) (\<lambda>_.
          if no_response response then
            bind_io (emit (Warn ''prelude response failed; sequence stopped''))
              (\<lambda>_. return_io (Some 2))
          else return_io None)))
      else return_io None)"

text \<open>The body of the \<open>with socket.create_connection(...)\<close> block.\<close>

definition conversation :: "arguments \<Rightarrow> int \<Rightarrow> bytes list \<Rightarrow> int io" where
  "conversation a fl pkts =
     bind_io (send_prelude a fl) (\<lambda>early.
       case early of Some n \<Rightarrow> return_io n | None \<Rightarrow>
     bind_io (send_packets a fl (length pkts) 1 pkts) (\<lambda>early.
       case early of Some n \<Rightarrow> return_io n | None \<Rightarrow>
     bind_io (receive_response (Seconds (opt_timeout a)) (opt_response_limit a)) (\<lambda>response.
     bind_io (describe_response ''final response'' response) (\<lambda>_. return_io 0))))"

text \<open>
  \<open>socket.create_connection\<close>: the host is looked up; then the addresses are tried in
  order. An OSError of one address leads to the next, and the last of them is raised. What
  \<open>settimeout\<close> raises, between opening the socket and connecting it, is no OSError
  and ends the attempt.
\<close>

fun try_addresses :: "duration \<Rightarrow> string \<Rightarrow> address list \<Rightarrow> unit io" where
  "try_addresses timeout failure [] = raise_io (OSError failure)"
| "try_addresses timeout failure (address # rest) =
     (case socket_fault address of
        Some m \<Rightarrow> try_addresses timeout m rest
      | None \<Rightarrow> guarded (timeout_error timeout)
          (case connect_fault address of
             Some m \<Rightarrow> try_addresses timeout m rest
           | None \<Rightarrow> emit (Connect timeout)))"

definition connect :: "arguments \<Rightarrow> unit io" where
  "connect a = (\<lambda>w. case resolution w of
     Inl (Unresolved m) \<Rightarrow> raise_io (OSError m) w
   | Inl (Bad_Name m) \<Rightarrow> raise_io (ValueError m) w
   | Inr addresses \<Rightarrow>
       try_addresses (Seconds (opt_timeout a)) ''getaddrinfo returns an empty list'' addresses w)"

text \<open>The socket is closed on every way out of the block.\<close>

definition with_connection :: "arguments \<Rightarrow> int io \<Rightarrow> int io" where
  "with_connection a m = bind_io (connect a) (\<lambda>_ w.
     case m w of (r, w') \<Rightarrow> (r, w'\<lparr>log := log w' @ [Close]\<rparr>))"

definition read_input :: "bytes io" where
  "read_input = (\<lambda>w.
     (case input_file w of Inl m \<Rightarrow> Inl (OSError m) | Inr data \<Rightarrow> Inr data,
      w\<lparr>log := log w @ [Read_Input]\<rparr>))"

definition main :: "arguments \<Rightarrow> int io" where
  "main a = (case check_arguments a of
     Some msg \<Rightarrow> parser_error msg
   | None \<Rightarrow>
       bind_io read_input (\<lambda>data.
       bind_io (if opt_raw a then return_io \<lparr>flags = 0, packets = [data]\<rparr>
                else lift_result (parse_fuzzer_input data)) (\<lambda>decoded.
       bind_io (select_packets a decoded) (\<lambda>pkts.
       bind_io (print_line (summary_line decoded pkts)) (\<lambda>_.
         if opt_dry_run a then return_io 0
         else with_connection a (conversation a (flags decoded) pkts))))))"

text \<open>
  The script's last lines: \<open>raise SystemExit(main())\<close> with OSError and ValueError turned
  into a message and exit status 1. Any other exception ends in a traceback, also status 1.
\<close>

definition run_script :: "arguments \<Rightarrow> world \<Rightarrow> int \<times> world" where
  "run_script a w = (case main a w of
     (Inr n, w') \<Rightarrow> (n, w')
   | (Inl (SystemExit n), w') \<Rightarrow> (n, w')
   | (Inl (ValueError m), w') \<Rightarrow> (1, w'\<lparr>log := log w' @ [Warn (''error: '' @ m)]\<rparr>)
   | (Inl (OSError m), w') \<Rightarrow> (1, w'\<lparr>log := log w' @ [Warn (''error: '' @ m)]\<rparr>)
   | (Inl _, w') \<Rightarrow> (1, w'\<lparr>log := log w' @ [Traceback]\<rparr>))"

end
