(* ===== verification/Replay_Session_Facts.thy ===== *)
theory Replay_Session_Facts
  imports Replay_Session "HOL-Library.Sublist"
begin

text \<open>
  What the replay session guarantees: a response is a bounded prefix of what the peer
  sends, packets go out in order and complete, and no packet leaves before the gate the
  flags ask for; and what a run ends with says which of these it is: everything sent, a
  gate that stopped it, or an error. The statements about whole runs are assembled from
  facts about the log entries each operation appends.
\<close>

section \<open>The socket contract\<close>

text \<open>What a client may rely on of \<open>recv\<close>, and what follows for draining a response.\<close>

locale byte_stream =
  fixes rcv :: "int \<Rightarrow> 's \<Rightarrow> bytes option result \<times> 's"
    and pending :: "'s \<Rightarrow> bytes"
  assumes rcv_bound: "rcv n s = (Inr (Some bs), s') \<Longrightarrow> int (length bs) \<le> n"
    and rcv_order: "rcv n s = (Inr (Some bs), s') \<Longrightarrow> pending s = bs @ pending s'"
    and rcv_timeout: "rcv n s = (Inr None, s') \<Longrightarrow> pending s' = pending s"
begin

lemma receive_loop_spec:
  assumes "receive_loop rcv response limit s = (Inr r, s')"
  shows "\<exists>more. r = response @ more \<and> pending s = more @ pending s' \<and>
    int (length r) \<le> max limit (int (length response))"
  using assms
proof (induction "nat (limit - int (length response))" arbitrary: response s rule: less_induct)
  case less
  show ?case
  proof (cases "int (length response) < limit")
    case False
    with less.prems show ?thesis by (simp add: receive_loop.simps [of rcv response])
  next
    case True
    let ?n = "min 4096 (limit - int (length response))"
    obtain x s1 where step: "rcv ?n s = (x, s1)" by (cases "rcv ?n s")
    from less.prems True step obtain y where x: "x = Inr y"
      by (cases x) (auto simp: receive_loop.simps [of rcv response])
    show ?thesis
    proof (cases y)
      case None
      with less.prems True step x rcv_timeout [of ?n s s1] show ?thesis
        by (simp add: receive_loop.simps [of rcv response])
    next
      case (Some chunk)
      with step x have order: "pending s = chunk @ pending s1"
        and bound: "int (length chunk) \<le> ?n"
        using rcv_order [of ?n s chunk s1] rcv_bound [of ?n s chunk s1] by simp_all
      show ?thesis
      proof (cases "chunk = []")
        case True
        with less.prems \<open>int (length response) < limit\<close> step x Some order show ?thesis
          by (simp add: receive_loop.simps [of rcv response])
      next
        case False
        with less.prems True step x Some
        have "receive_loop rcv (response @ chunk) limit s1 = (Inr r, s')"
          by (simp add: receive_loop.simps [of rcv response])
        from less.hyps [OF _ this] False True bound order show ?thesis by auto
      qed
    qed
  qed
qed

end

text \<open>The scripted socket keeps the contract.\<close>

fun arriving :: "arrival list \<Rightarrow> bytes" where
  "arriving [] = []"
| "arriving (Data bs # es) = bs @ arriving es"
| "arriving (Quiet # es) = arriving es"
| "arriving (Broken m # es) = arriving es"

definition pending_bytes :: "world \<Rightarrow> bytes" where
  "pending_bytes w = arriving (arrivals w)"

interpretation sock: byte_stream recv pending_bytes
  by unfold_locales
    (auto simp: recv_def pending_bytes_def Let_def split: if_splits list.splits arrival.splits)

lemma bind_io_Inr:
  "bind_io m f w = (Inr y, w'') \<longleftrightarrow> (\<exists>x w'. m w = (Inr x, w') \<and> f x w' = (Inr y, w''))"
  by (auto simp: bind_io_def split: prod.splits sum.splits)

lemma set_timeout_Inr:
  "set_timeout d w = (Inr x, w') \<Longrightarrow> pending_bytes w' = pending_bytes w"
  by (auto simp: set_timeout_def guarded_def emit_def raise_io_def pending_bytes_def
      split: option.splits)

lemma receive_response_spec:
  assumes "receive_response t limit w = (Inr r, w')" and "1 \<le> limit"
  shows "case r of
      None \<Rightarrow> pending_bytes w' = pending_bytes w
    | Some bs \<Rightarrow> pending_bytes w = bs @ pending_bytes w' \<and> int (length bs) \<le> limit"
proof -
  from assms(1) obtain u w1 first w2 where t: "set_timeout t w = (Inr u, w1)"
    and f: "recv (min 4096 limit) w1 = (Inr first, w2)"
    and k: "(case first of None \<Rightarrow> return_io None
       | Some bs \<Rightarrow> if bs = [] then return_io (Some [])
           else bind_io (set_timeout (Seconds (Fin 0.05))) (\<lambda>_.
                bind_io (receive_loop recv bs limit) (\<lambda>response. return_io (Some response)))) w2
       = (Inr r, w')"
    unfolding receive_response_def by (auto simp: bind_io_Inr)
  show ?thesis
  proof (cases first)
    case None
    with k f have "r = None" "w' = w2" "pending_bytes w2 = pending_bytes w1"
      using sock.rcv_timeout by (auto simp: return_io_def)
    with set_timeout_Inr [OF t] show ?thesis by simp
  next
    case (Some bs)
    with f have order: "pending_bytes w1 = bs @ pending_bytes w2"
      and bound: "int (length bs) \<le> limit"
      using sock.rcv_order sock.rcv_bound [of "min 4096 limit" w1 bs w2] by auto
    show ?thesis
    proof (cases "bs = []")
      case True
      with k Some order assms(2) set_timeout_Inr [OF t] show ?thesis by (auto simp: return_io_def)
    next
      case False
      with k Some obtain v w3 resp where t2: "set_timeout (Seconds (Fin 0.05)) w2 = (Inr v, w3)"
        and l: "receive_loop recv bs limit w3 = (Inr resp, w')" and r: "r = Some resp"
        by (auto simp: bind_io_Inr return_io_def)
      from sock.receive_loop_spec [OF l] obtain more where "resp = bs @ more"
        "pending_bytes w3 = more @ pending_bytes w'" "int (length resp) \<le> limit"
        using bound by auto
      with r order set_timeout_Inr [OF t] set_timeout_Inr [OF t2] show ?thesis by simp
    qed
  qed
qed

section \<open>What an operation adds to the log\<close>

text \<open>
  \<open>logs m P\<close>: whatever the world, \<open>m\<close> only appends to the log, and its result and
  the appended actions satisfy \<open>P\<close>.
\<close>

definition logs :: "'a io \<Rightarrow> ('a result \<Rightarrow> action list \<Rightarrow> bool) \<Rightarrow> bool" where
  "logs m P \<longleftrightarrow> (\<forall>w. \<exists>new. log (snd (m w)) = log w @ new \<and> P (fst (m w)) new)"

named_theorems logs_intros \<open>what single operations append\<close>

lemma logs_weaken: "logs m P \<Longrightarrow> (\<And>r new. P r new \<Longrightarrow> Q r new) \<Longrightarrow> logs m Q"
  unfolding logs_def by blast

lemma logs_bind:
  assumes "logs m P"
    and "\<And>e new. P (Inl e) new \<Longrightarrow> R (Inl e) new"
    and "\<And>x new. P (Inr x) new \<Longrightarrow> logs (f x) (\<lambda>r new'. R r (new @ new'))"
  shows "logs (bind_io m f) R"
  unfolding logs_def
proof
  fix w
  obtain r w1 where m: "m w = (r, w1)" by (cases "m w")
  from assms(1) obtain new where new: "log w1 = log w @ new" "P r new"
    unfolding logs_def using m by (metis fst_conv snd_conv)
  show "\<exists>new. log (snd (bind_io m f w)) = log w @ new \<and> R (fst (bind_io m f w)) new"
  proof (cases r)
    case (Inl e)
    with m new assms(2) show ?thesis by (auto simp: bind_io_def)
  next
    case (Inr x)
    with new assms(3) have "logs (f x) (\<lambda>r new'. R r (new @ new'))" by simp
    then obtain new' where "log (snd (f x w1)) = log w1 @ new'" "R (fst (f x w1)) (new @ new')"
      unfolding logs_def by blast
    with m Inr new show ?thesis by (simp add: bind_io_def)
  qed
qed

lemma logs_return [simp]: "logs (return_io x) P \<longleftrightarrow> P (Inr x) []"
  by (simp add: logs_def return_io_def)

lemma logs_emit [simp]: "logs (emit a) P \<longleftrightarrow> P (Inr ()) [a]"
  by (simp add: logs_def emit_def)

lemma logs_print [simp]: "logs (print_line s) P \<longleftrightarrow> P (Inr ()) [Print s]"
  by (simp add: print_line_def)

lemma logs_bind_emit [logs_intros]:
  "logs (f ()) (\<lambda>r new. P r (a # new)) \<Longrightarrow> logs (bind_io (emit a) f) P"
  by (rule logs_bind [of _ "\<lambda>r new. r = Inr () \<and> new = [a]"]) simp_all

lemma logs_bind_print [logs_intros]:
  "logs (f ()) (\<lambda>r new. P r (Print s # new)) \<Longrightarrow> logs (bind_io (print_line s) f) P"
  unfolding print_line_def by (rule logs_bind_emit)

lemma logs_set_timeout [logs_intros]:
  "logs (set_timeout d) (\<lambda>r new. r = Inr () \<and> new = [Set_Timeout d] \<or> (\<exists>e. r = Inl e) \<and> new = [])"
  by (auto simp: logs_def set_timeout_def guarded_def raise_io_def emit_def split: option.splits)

lemma logs_sleep [logs_intros]:
  "logs (sleep d) (\<lambda>r new. r = Inr () \<and> new = [Sleep d] \<or> (\<exists>e. r = Inl e) \<and> new = [])"
  by (auto simp: logs_def sleep_def guarded_def raise_io_def emit_def split: option.splits)

lemma logs_sendall [logs_intros]:
  "logs (sendall d) (\<lambda>r new. r = Inr () \<and> new = [Send d] \<or> (\<exists>e. r = Inl e) \<and> new = [])"
  unfolding logs_def sendall_def emit_def
  by (auto split: list.splits option.splits)

lemma logs_recv [logs_intros]:
  "logs (recv n) (\<lambda>r new. (\<exists>x. r = Inr x \<and> new = [Recv n x]) \<or>
     (\<exists>e. r = Inl e) \<and> (new = [] \<or> (\<exists>m. new = [Recv_Error m])))"
  unfolding logs_def recv_def by (auto simp: Let_def split: list.splits arrival.splits)

section \<open>Gates between packets\<close>

text \<open>
  A monitor over the log: a packet may be sent only when armed. Sending disarms; a response
  that is not empty arms; the packet delay arms too, unless the input asks to wait for
  responses. \<open>None\<close> is a packet sent while disarmed.
\<close>

fun gate_run :: "bool \<Rightarrow> bool \<Rightarrow> action list \<Rightarrow> bool option" where
  "gate_run wait armed [] = Some armed"
| "gate_run wait armed (Send b # acts) = (if armed then gate_run wait False acts else None)"
| "gate_run wait armed (Recv n (Some bs) # acts) = gate_run wait (armed \<or> bs \<noteq> []) acts"
| "gate_run wait armed (Sleep d # acts) = gate_run wait (armed \<or> \<not> wait) acts"
| "gate_run wait armed (_ # acts) = gate_run wait armed acts"

lemma gate_run_append:
  "gate_run wait armed (xs @ ys) =
     (case gate_run wait armed xs of None \<Rightarrow> None | Some b \<Rightarrow> gate_run wait b ys)"
  by (induction wait armed xs rule: gate_run.induct) auto

text \<open>The message with which a run ends early, and the actions between two sends.\<close>

definition stop_warning :: "action \<Rightarrow> bool" where
  "stop_warning act \<longleftrightarrow> act = Warn ''prelude response failed; sequence stopped'' \<or>
     act = Warn ''response gate failed; sequence stopped''"

definition stopped :: "action list \<Rightarrow> bool" where
  "stopped acts \<longleftrightarrow> list_ex stop_warning acts"

definition plain :: "action \<Rightarrow> bool" where
  "plain act \<longleftrightarrow> \<not> stop_warning act \<and> (case act of Send b \<Rightarrow> False | Sleep d \<Rightarrow> False | _ \<Rightarrow> True)"

definition has_response :: "action list \<Rightarrow> bool" where
  "has_response acts \<longleftrightarrow> list_ex (\<lambda>act. case act of Recv n (Some bs) \<Rightarrow> bs \<noteq> [] | _ \<Rightarrow> False) acts"

lemma stop_warning_simps [simp]:
  "\<not> stop_warning (Print s)" "\<not> stop_warning (Sleep d)" "\<not> stop_warning (Set_Timeout d)"
  "\<not> stop_warning (Recv n x)" "\<not> stop_warning (Recv_Error m)" "\<not> stop_warning (Connect d)"
  "\<not> stop_warning Read_Input" "\<not> stop_warning Close" "\<not> stop_warning Traceback"
  "\<not> stop_warning (Send b)"
  "stop_warning (Warn m) \<longleftrightarrow> m = ''prelude response failed; sequence stopped'' \<or>
     m = ''response gate failed; sequence stopped''"
  by (simp_all add: stop_warning_def)

lemma stopped_simps [simp]:
  "\<not> stopped []" "stopped (act # acts) \<longleftrightarrow> stop_warning act \<or> stopped acts"
  "stopped (xs @ ys) \<longleftrightarrow> stopped xs \<or> stopped ys"
  by (simp_all add: stopped_def)

lemma plain_simps [simp]:
  "plain (Print s)" "plain (Set_Timeout d)" "plain (Recv n x)" "plain (Recv_Error m)"
  "plain (Connect d)" "plain Read_Input" "plain Close" "plain Traceback"
  "plain (Warn m) \<longleftrightarrow> \<not> stop_warning (Warn m)" "\<not> plain (Sleep d)" "\<not> plain (Send b)"
  by (simp_all add: plain_def)

lemma plain_not_stopped: "list_all plain acts \<Longrightarrow> \<not> stopped acts"
  by (induction acts) (auto simp: plain_def)

lemma has_response_simps [simp]:
  "\<not> has_response []" "has_response (xs @ ys) \<longleftrightarrow> has_response xs \<or> has_response ys"
  "has_response (Recv n x # acts) \<longleftrightarrow> \<not> no_response x \<or> has_response acts"
  "has_response (Set_Timeout d # acts) \<longleftrightarrow> has_response acts"
  "has_response (Print m # acts) \<longleftrightarrow> has_response acts"
  by (auto simp: has_response_def no_response_def split: option.splits)

lemma gate_run_plain:
  "list_all plain acts \<Longrightarrow> gate_run wait armed acts = Some (armed \<or> has_response acts)"
  by (induction wait armed acts rule: gate_run.induct) (auto simp: has_response_def)

lemma gate_run_stop:
  "stop_warning act \<Longrightarrow> gate_run wait armed (act # acts) = gate_run wait armed acts"
  by (auto simp: stop_warning_def)

fun sends :: "action list \<Rightarrow> bytes list" where
  "sends [] = []"
| "sends (Send b # acts) = b # sends acts"
| "sends (_ # acts) = sends acts"

lemma sends_append [simp]: "sends (xs @ ys) = sends xs @ sends ys"
  by (induction xs rule: sends.induct) auto

lemma sends_plain: "list_all plain acts \<Longrightarrow> sends acts = []"
  by (induction acts rule: sends.induct) auto

lemma sends_stop: "stop_warning act \<Longrightarrow> sends (act # acts) = sends acts"
  by (auto simp: stop_warning_def)

section \<open>The operations\<close>

lemma receive_loop_bind:
  "receive_loop recv response limit =
     (if int (length response) < limit then
        bind_io (recv (min 4096 (limit - int (length response)))) (\<lambda>x. case x of
            None \<Rightarrow> return_io response
          | Some chunk \<Rightarrow> if chunk = [] then return_io response
                          else receive_loop recv (response @ chunk) limit)
      else return_io response)"
  by (rule ext)
    (simp add: receive_loop.simps [of recv response] bind_io_def return_io_def
      split: prod.splits sum.splits option.splits)

lemma logs_receive_loop:
  "logs (receive_loop recv response limit) (\<lambda>r new. list_all plain new \<and>
     (\<forall>x. r = Inr x \<longrightarrow> prefix response x))"
proof (induction "nat (limit - int (length response))" arbitrary: response rule: less_induct)
  case less
  show ?case
  proof (cases "int (length response) < limit")
    case False
    then show ?thesis
      by (subst receive_loop_bind) simp
  next
    case True
    show ?thesis
      unfolding receive_loop_bind [of response] if_P [OF True]
    proof (rule logs_bind [OF logs_recv], goal_cases)
      case (1 e new)
      then show ?case by auto
    next
      case (2 x new)
      then have new: "list_all plain new" by auto
      show ?case
      proof (cases "x = None \<or> x = Some []")
        case True
        with new show ?thesis by auto
      next
        case False
        then obtain chunk where x: "x = Some chunk" "chunk \<noteq> []" by (cases x) auto
        with True have "nat (limit - int (length (response @ chunk))) < nat (limit - int (length response))"
          by auto
        from less [OF this] have "logs (receive_loop recv (response @ chunk) limit)
            (\<lambda>r rest. list_all plain (new @ rest) \<and> (\<forall>x. r = Inr x \<longrightarrow> prefix response x))"
          by (rule logs_weaken) (use new in \<open>auto dest: append_prefixD\<close>)
        with x show ?thesis by simp
      qed
    qed
  qed
qed

text \<open>The log shows whether \<open>receive_response\<close> returned a response that is not empty.\<close>

lemma logs_receive_response:
  "logs (receive_response t limit) (\<lambda>r new. list_all plain new \<and>
     (\<forall>x. r = Inr x \<longrightarrow> has_response new = (\<not> no_response x)))"
  unfolding receive_response_def
proof (rule logs_bind [OF logs_set_timeout], goal_cases)
  case (1 e new)
  then show ?case by auto
next
  case (2 u new)
  then have n1: "new = [Set_Timeout t]" by auto
  show ?case
  proof (rule logs_bind [OF logs_recv], goal_cases)
    case (1 e new')
    with n1 show ?case by auto
  next
    case (2 first new')
    then have n2: "new' = [Recv (min 4096 limit) first]" by auto
    show ?case
    proof (cases "first = None \<or> first = Some []")
      case True
      with n1 n2 show ?thesis by (auto simp: no_response_def)
    next
      case False
      then obtain bs where bs: "first = Some bs" "bs \<noteq> []" by (cases first) auto
      have "logs (bind_io (set_timeout (Seconds (Fin 0.05))) (\<lambda>_.
          bind_io (receive_loop recv bs limit) (\<lambda>response. return_io (Some response))))
          (\<lambda>r new. list_all plain new \<and> (\<forall>x. r = Inr x \<longrightarrow> \<not> no_response x))"
      proof (rule logs_bind [OF logs_set_timeout], goal_cases)
        case (1 e new)
        then show ?case by auto
      next
        case (2 v new1)
        then have "list_all plain new1" by auto
        with bs(2) show ?case
          by (intro logs_bind [OF logs_receive_loop]) (auto simp: no_response_def)
      qed
      from logs_weaken [OF this] bs n1 n2 show ?thesis by (auto simp: no_response_def)
    qed
  qed
qed

lemma logs_describe_response:
  "logs (describe_response label r) (\<lambda>r new. list_all plain new \<and> \<not> has_response new \<and> r = Inr ())"
  unfolding describe_response_def
  by (auto intro!: logs_intros split: option.splits)

text \<open>
  A gated exchange, shared by the prelude and the packets: wait for a response, describe
  it, stop with status 2 when there is none, go on otherwise.
\<close>

definition gate_log ::
  "(int option result \<Rightarrow> action list \<Rightarrow> bool) \<Rightarrow> int option result \<Rightarrow> action list \<Rightarrow> bool" where
  "gate_log K r new \<longleftrightarrow>
     list_all plain new \<and> (\<exists>e. r = Inl e) \<or>
     (\<exists>before act. new = before @ [act] \<and> list_all plain before \<and> \<not> has_response before \<and>
        stop_warning act \<and> r = Inr (Some 2)) \<or>
     (\<exists>before rest. new = before @ rest \<and> list_all plain before \<and> has_response before \<and> K r rest)"

lemma logs_gate:
  assumes k: "logs k K" and warn: "stop_warning (Warn msg)"
  shows "logs (bind_io (receive_response t limit) (\<lambda>response.
      bind_io (describe_response label response) (\<lambda>_.
        if no_response response then bind_io (emit (Warn msg)) (\<lambda>_. return_io (Some 2)) else k)))
    (gate_log K)"
proof (rule logs_bind [OF logs_receive_response], goal_cases)
  case (1 e new)
  then show ?case by (simp add: gate_log_def)
next
  case (2 response new)
  note h = this
  show ?case
  proof (rule logs_bind [OF logs_describe_response], goal_cases)
    case (1 e new')
    then show ?case by simp
  next
    case (2 u new')
    note d = this
    show ?case
    proof (cases "no_response response")
      case True
      then have "gate_log K (Inr (Some 2)) ((new @ new') @ [Warn msg])"
        unfolding gate_log_def using h d warn
        by (intro disjI2 disjI1 exI [of _ "new @ new'"] exI [of _ "Warn msg"]) simp
      with True show ?thesis by (auto intro!: logs_intros)
    next
      case False
      then have "gate_log K r ((new @ new') @ rest)" if "K r rest" for r rest
        unfolding gate_log_def using h d that
        by (intro disjI2 exI [of _ "new @ new'"] exI [of _ rest]) simp
      then have "logs k (\<lambda>r rest. gate_log K r (new @ new' @ rest))"
        by (intro logs_weaken [OF k]) simp
      with False show ?thesis by simp
    qed
  qed
qed

text \<open>What sending a list of packets from an armed start does to the log.\<close>

definition sent_log :: "bool \<Rightarrow> bytes list \<Rightarrow> int option result \<Rightarrow> action list \<Rightarrow> bool" where
  "sent_log wait pkts r new \<longleftrightarrow> gate_run wait True new \<noteq> None \<and> prefix (sends new) pkts \<and>
     (case r of
        Inl _ \<Rightarrow> \<not> stopped new
      | Inr None \<Rightarrow> \<not> stopped new \<and> sends new = pkts
      | Inr (Some n) \<Rightarrow> n = 2 \<and> stopped new \<and> sends new \<noteq> pkts \<and> wait \<and>
          gate_run wait True new = Some False)"

lemma gate_log_sent:
  assumes "gate_log (sent_log True pkts) r new" and "pkts \<noteq> []"
  shows "sent_log True (p # pkts) r (Send p # Print m # new)"
  using assms(1) unfolding gate_log_def
proof (elim disjE exE conjE)
  fix e
  assume "list_all plain new" "r = Inl e"
  then show ?thesis
    by (simp add: sent_log_def gate_run_plain sends_plain plain_not_stopped)
next
  fix before act
  assume "new = before @ [act]" "list_all plain before" "\<not> has_response before"
    "stop_warning act" "r = Inr (Some 2)"
  with assms(2) show ?thesis
    by (simp add: sent_log_def gate_run_append gate_run_plain gate_run_stop sends_plain sends_stop
        plain_not_stopped)
next
  fix before rest
  assume "new = before @ rest" "list_all plain before" "has_response before"
    "sent_log True pkts r rest"
  then show ?thesis
    by (auto simp: sent_log_def gate_run_append gate_run_plain sends_plain plain_not_stopped
        split: sum.splits option.splits)
qed

lemma logs_send_packets:
  assumes "index + length pkts = Suc n_total"
  shows "logs (send_packets a fl n_total index pkts) (sent_log (fl AND WAIT_FOR_RESPONSE_FLAG \<noteq> 0) pkts)"
  using assms
proof (induction pkts arbitrary: index)
  case Nil
  then show ?case by (auto simp: sent_log_def)
next
  case (Cons p rest)
  let ?wait = "fl AND WAIT_FOR_RESPONSE_FLAG \<noteq> 0"
  from Cons have IH: "logs (send_packets a fl n_total (Suc index) rest) (sent_log ?wait rest)"
    by simp
  show ?case
    unfolding send_packets.simps
  proof (rule logs_bind [OF logs_sendall], goal_cases)
    case (1 e new)
    then show ?case by (auto simp: sent_log_def)
  next
    case (2 u new)
    then have new: "new = [Send p]" by auto
    show ?case
    proof (rule logs_bind_print, goal_cases)
      case 1
      consider "\<not> index < n_total" | "index < n_total" ?wait | "index < n_total" "\<not> ?wait" by blast
      then show ?case
      proof cases
        case 1
        then have "rest = []" using Cons.prems by (cases rest) auto
        with 1 new show ?thesis by (auto simp: sent_log_def)
      next
        case 2
        then have "rest \<noteq> []" using Cons.prems by auto
        with 2 IH show ?thesis unfolding new
          by (simp, intro logs_weaken [OF logs_gate]) (auto intro: gate_log_sent)
      next
        case 3
        then show ?thesis unfolding new
          by (auto intro!: logs_bind [OF logs_sleep] logs_weaken [OF IH] simp: sent_log_def
              split: sum.splits option.splits)
      qed
    qed
  qed
qed

text \<open>Everything the tool means to send for one input, in order.\<close>

definition wire_packets :: "int \<Rightarrow> bytes list \<Rightarrow> bytes list" where
  "wire_packets fl pkts =
     (if fl AND HTTP_PRELUDE_FLAG \<noteq> 0 then [KEEPALIVE_PRELUDE] else []) @ pkts"

text \<open>
  The prelude either ends armed with its request sent (if the flag is set), or raises, or
  is the only thing sent and stops the run because nothing came back.
\<close>

definition prelude_log :: "int \<Rightarrow> int option result \<Rightarrow> action list \<Rightarrow> bool" where
  "prelude_log fl r new \<longleftrightarrow> (let wait = fl AND WAIT_FOR_RESPONSE_FLAG \<noteq> 0 in
     gate_run wait True new \<noteq> None \<and> prefix (sends new) (wire_packets fl []) \<and>
     (case r of
        Inl _ \<Rightarrow> \<not> stopped new
      | Inr None \<Rightarrow> \<not> stopped new \<and> sends new = wire_packets fl [] \<and>
          gate_run wait True new = Some True
      | Inr (Some n) \<Rightarrow> n = 2 \<and> stopped new \<and> fl AND HTTP_PRELUDE_FLAG \<noteq> 0 \<and>
          sends new = [KEEPALIVE_PRELUDE] \<and> gate_run wait True new = Some False))"

lemma logs_send_prelude: "logs (send_prelude a fl) (prelude_log fl)"
proof (cases "fl AND HTTP_PRELUDE_FLAG \<noteq> 0")
  case False
  then show ?thesis by (simp add: send_prelude_def prelude_log_def wire_packets_def)
next
  case True
  let ?K = "\<lambda>r new. r = Inr None \<and> new = []"
  have k: "logs (return_io None) ?K" by simp
  have post: "prelude_log fl r (Send KEEPALIVE_PRELUDE # new)" if "gate_log ?K r new" for r new
    using that True unfolding gate_log_def
    by (elim disjE exE conjE)
      (simp_all add: prelude_log_def wire_packets_def gate_run_append gate_run_plain gate_run_stop
        sends_plain sends_stop plain_not_stopped Let_def)
  show ?thesis
    unfolding send_prelude_def if_P [OF True]
  proof (rule logs_bind [OF logs_sendall], goal_cases)
    case (1 e new)
    then show ?case by (auto simp: prelude_log_def)
  next
    case (2 u new)
    then have "new = [Send KEEPALIVE_PRELUDE]" by auto
    then show ?case
      by (intro logs_weaken [OF logs_gate [OF k]]) (use post in auto)
  qed
qed

text \<open>
  What a connection logs. A run that returns either sent everything and ends with 0, or
  logged why it stopped and ends with 2: then something was left unsent, no response
  followed the last packet, and the flags did ask for one there.
\<close>

definition exchange_log :: "int \<Rightarrow> bytes list \<Rightarrow> int result \<Rightarrow> action list \<Rightarrow> bool" where
  "exchange_log fl pkts r new \<longleftrightarrow> (let wait = fl AND WAIT_FOR_RESPONSE_FLAG \<noteq> 0 in
     gate_run wait True new \<noteq> None \<and>
     prefix (sends new) (wire_packets fl pkts) \<and>
     (case r of
        Inl _ \<Rightarrow> \<not> stopped new
      | Inr n \<Rightarrow>
          if stopped new then
            n = 2 \<and> sends new \<noteq> wire_packets fl pkts \<and> gate_run wait True new = Some False \<and>
            (wait \<or> fl AND HTTP_PRELUDE_FLAG \<noteq> 0 \<and> sends new = [KEEPALIVE_PRELUDE])
          else n = 0 \<and> sends new = wire_packets fl pkts))"

lemma exchange_log_around:
  assumes "exchange_log fl pkts r new"
    and "list_all plain before" and "\<not> has_response after" and "list_all plain after"
  shows "exchange_log fl pkts r (before @ new @ after)"
  using assms plain_not_stopped [OF assms(2)] plain_not_stopped [OF assms(4)]
  by (auto simp: exchange_log_def gate_run_append gate_run_plain sends_plain Let_def
      split: sum.splits option.splits)

lemma logs_final_response:
  "logs (bind_io (receive_response t limit) (\<lambda>response.
     bind_io (describe_response label response) (\<lambda>_. return_io (0 :: int))))
   (\<lambda>r new. list_all plain new \<and> (\<forall>n. r = Inr n \<longrightarrow> n = 0))"
  by (rule logs_bind [OF logs_receive_response], simp)
    (rule logs_bind [OF logs_describe_response], simp, simp)

lemma wire_packets_split: "wire_packets fl pkts = wire_packets fl [] @ pkts"
  by (simp add: wire_packets_def)

lemma sent_after_prelude:
  assumes "prelude_log fl (Inr None) new"
    and "sent_log (fl AND WAIT_FOR_RESPONSE_FLAG \<noteq> 0) pkts r new'"
  shows "case r of
      Inl e \<Rightarrow> exchange_log fl pkts (Inl e) (new @ new')
    | Inr (Some n) \<Rightarrow> exchange_log fl pkts (Inr n) (new @ new')
    | Inr None \<Rightarrow> exchange_log fl pkts (Inr 0) (new @ new') \<and> \<not> stopped (new @ new')"
  using assms wire_packets_split [of fl pkts]
  by (auto simp: prelude_log_def sent_log_def exchange_log_def gate_run_append Let_def
      split: sum.splits option.splits)

lemma exchange_log_finish:
  assumes "exchange_log fl pkts (Inr 0) new" and "\<not> stopped new"
    and "list_all plain rest" and "\<And>n. r = Inr n \<Longrightarrow> n = 0"
  shows "exchange_log fl pkts r (new @ rest)"
  using assms plain_not_stopped [OF assms(3)]
  by (auto simp: exchange_log_def gate_run_append gate_run_plain sends_plain Let_def
      split: sum.splits option.splits)

lemma logs_conversation:
  assumes "pkts \<noteq> []"
  shows "logs (conversation a fl pkts) (exchange_log fl pkts)"
  unfolding conversation_def
proof (rule logs_bind [OF logs_send_prelude], goal_cases)
  case (1 e new)
  then show ?case
    by (auto simp: exchange_log_def prelude_log_def wire_packets_split [of fl pkts] Let_def
        prefix_prefix)
next
  case (2 early new)
  note pre = this
  show ?case
  proof (cases early)
    case (Some n)
    with pre assms show ?thesis
      by (auto simp: exchange_log_def prelude_log_def wire_packets_def Let_def)
  next
    case None
    show ?thesis
      unfolding None option.case
    proof (rule logs_bind [OF logs_send_packets], goal_cases)
      case 1
      show ?case by simp
    next
      case (2 e new')
      with sent_after_prelude [of fl new pkts "Inl e" new'] pre None show ?case by simp
    next
      case (3 early' new')
      note sent = sent_after_prelude [OF pre [unfolded None] this]
      show ?case
      proof (cases early')
        case (Some n)
        with sent show ?thesis by simp
      next
        case None
        then have "exchange_log fl pkts r ((new @ new') @ rest)"
          if "list_all plain rest \<and> (\<forall>n. r = Inr n \<longrightarrow> n = 0)" for r rest
          using that sent exchange_log_finish [of fl pkts "new @ new'" rest r] by simp
        then show ?thesis
          unfolding None option.case by (intro logs_weaken [OF logs_final_response]) simp
      qed
    qed
  qed
qed

section \<open>Exceptions that end the script\<close>

text \<open>No operation but \<open>parser.error\<close> exits on its own.\<close>

definition no_exit :: "'a io \<Rightarrow> bool" where
  "no_exit m \<longleftrightarrow> (\<forall>w n. fst (m w) \<noteq> Inl (SystemExit n))"

named_theorems no_exit_intros \<open>operations that raise no SystemExit\<close>

lemma no_exit_bind [no_exit_intros]:
  "no_exit m \<Longrightarrow> (\<And>x. no_exit (f x)) \<Longrightarrow> no_exit (bind_io m f)"
  unfolding no_exit_def bind_io_def by (auto split: prod.splits sum.splits) (metis fst_conv)

lemma no_exit_basic [no_exit_intros]:
  "no_exit (return_io x)" "no_exit (emit act)" "no_exit (print_line s)" "no_exit (set_timeout d)"
  "no_exit (sleep d)" "no_exit (sendall b)" "no_exit (recv k)"
  by (auto simp: no_exit_def return_io_def emit_def print_line_def set_timeout_def sleep_def
      sendall_def recv_def guarded_def raise_io_def timeout_error_def sleep_error_def Let_def
      overflow_error_def nan_error_def
      split: option.splits pyfloat.splits if_splits list.splits arrival.splits)

lemma no_exit_receive_loop [no_exit_intros]: "no_exit (receive_loop recv response limit)"
proof (induction "nat (limit - int (length response))" arbitrary: response rule: less_induct)
  case less
  show ?case
    by (subst receive_loop_bind)
      (auto intro!: no_exit_intros less split: option.splits)
qed

lemma no_exit_receive_response [no_exit_intros]: "no_exit (receive_response t limit)"
  unfolding receive_response_def by (auto intro!: no_exit_intros split: option.splits)

lemma no_exit_describe [no_exit_intros]: "no_exit (describe_response label r)"
  unfolding describe_response_def by (auto intro!: no_exit_intros split: option.splits)

lemma no_exit_send_packets [no_exit_intros]: "no_exit (send_packets a fl n_total index pkts)"
  by (induction pkts arbitrary: index) (auto intro!: no_exit_intros)

lemma no_exit_conversation [no_exit_intros]: "no_exit (conversation a fl pkts)"
  unfolding conversation_def send_prelude_def
  by (auto intro!: no_exit_intros split: option.splits)

section \<open>Whole runs\<close>

text \<open>What \<open>main\<close> makes of the file, and the packets it picks.\<close>

definition decode_input :: "arguments \<Rightarrow> bytes \<Rightarrow> fuzzer_input result" where
  "decode_input a data =
     (if opt_raw a then Inr \<lparr>flags = 0, packets = [data]\<rparr> else parse_fuzzer_input data)"

definition selection :: "arguments \<Rightarrow> fuzzer_input \<Rightarrow> bytes list option" where
  "selection a fi = (case opt_packet a of
     None \<Rightarrow> Some (packets fi)
   | Some n \<Rightarrow> if multipacket_flag fi \<and> 1 \<le> n \<and> n \<le> int (length (packets fi))
               then Some [packets fi ! nat (n - 1)] else None)"

lemma select_packets_selection:
  "selection a fi = Some pkts \<Longrightarrow> select_packets a fi = return_io pkts"
  by (auto simp: selection_def select_packets_def split: option.splits if_splits)

definition start_of_run :: "fuzzer_input \<Rightarrow> bytes list \<Rightarrow> action list" where
  "start_of_run fi pkts = [Read_Input, Print (summary_line fi pkts)]"

lemma main_eq:
  assumes "check_arguments a = None" and "input_file w = Inr data"
    and "decode_input a data = Inr fi" and "selection a fi = Some pkts"
  shows "main a w = (let w' = w\<lparr>log := log w @ start_of_run fi pkts\<rparr> in
    if opt_dry_run a then (Inr 0, w')
    else with_connection a (conversation a (flags fi) pkts) w')"
  using assms select_packets_selection [OF assms(4)]
  by (simp add: main_def bind_io_def read_input_def decode_input_def lift_result_def
      return_io_def print_line_def emit_def start_of_run_def split: if_splits)

lemma logs_try_addresses:
  "logs (try_addresses d m addresses)
     (\<lambda>r new. r = Inr () \<and> new = [Connect d] \<or> (\<exists>e. r = Inl e) \<and> new = [])"
  by (induction d m addresses rule: try_addresses.induct)
    (auto simp: logs_def raise_io_def emit_def guarded_def split: option.splits)

lemma logs_connect:
  "logs (connect a) (\<lambda>r new. r = Inr () \<and> new = [Connect (Seconds (opt_timeout a))] \<or>
     (\<exists>e. r = Inl e) \<and> new = [])"
  using logs_try_addresses unfolding logs_def connect_def
  by (auto simp: raise_io_def split: sum.splits lookup_fault.splits)

lemma logs_with_connection:
  assumes "logs m P"
  shows "logs (with_connection a m) (\<lambda>r new. (\<exists>e. r = Inl e) \<and> new = [] \<or>
    (\<exists>new'. new = Connect (Seconds (opt_timeout a)) # new' @ [Close] \<and> P r new'))"
  unfolding with_connection_def
proof (rule logs_bind [OF logs_connect], goal_cases)
  case (1 e new)
  then show ?case by simp
next
  case (2 u new)
  from assms show ?case
    unfolding logs_def
  proof (intro allI)
    fix w :: world
    assume "\<forall>w. \<exists>new. log (snd (m w)) = log w @ new \<and> P (fst (m w)) new"
    then obtain n where "log (snd (m w)) = log w @ n" "P (fst (m w)) n" by blast
    with 2 show "\<exists>n'. log (snd (case m w of (r, w') \<Rightarrow> (r, w'\<lparr>log := log w' @ [Close]\<rparr>))) = log w @ n' \<and>
      ((\<exists>e. fst (case m w of (r, w') \<Rightarrow> (r, w'\<lparr>log := log w' @ [Close]\<rparr>)) = Inl e) \<and> new @ n' = [] \<or>
       (\<exists>new'. new @ n' = Connect (Seconds (opt_timeout a)) # new' @ [Close] \<and>
          P (fst (case m w of (r, w') \<Rightarrow> (r, w'\<lparr>log := log w' @ [Close]\<rparr>))) new'))"
      by (auto split: prod.splits)
  qed
qed

lemma no_exit_try_addresses: "no_exit (try_addresses d m addresses)"
  by (induction d m addresses rule: try_addresses.induct)
    (auto simp: no_exit_def raise_io_def emit_def guarded_def timeout_error_def overflow_error_def
      nan_error_def split: option.splits pyfloat.splits if_splits)

lemma no_exit_connect [no_exit_intros]: "no_exit (connect a)"
  using no_exit_try_addresses unfolding no_exit_def connect_def
  by (auto simp: raise_io_def split: sum.splits lookup_fault.splits)

lemma no_exit_with_connection [no_exit_intros]: "no_exit m \<Longrightarrow> no_exit (with_connection a m)"
  unfolding with_connection_def
  by (rule no_exit_bind [OF no_exit_connect]) (auto simp: no_exit_def case_prod_beta)

text \<open>How the script reports an exception: a message, or a traceback.\<close>

definition reports_error :: "action list \<Rightarrow> bool" where
  "reports_error acts \<longleftrightarrow> acts \<noteq> [] \<and>
     (case last acts of Traceback \<Rightarrow> True | Warn m \<Rightarrow> take 7 m = ''error: '' | _ \<Rightarrow> False)"

lemma run_script_ends:
  assumes "\<And>n. fst (main a w) \<noteq> Inl (SystemExit n)"
  shows "(\<exists>n. fst (main a w) = Inr n \<and> run_script a w = (n, snd (main a w))) \<or>
    (\<exists>e act. fst (main a w) = Inl e \<and> reports_error [act] \<and> plain act \<and>
       run_script a w = (1, (snd (main a w))\<lparr>log := log (snd (main a w)) @ [act]\<rparr>))"
proof -
  obtain r w' where m: "main a w = (r, w')" by (cases "main a w")
  have end_of: "reports_error [act] \<and> plain act"
    if "act = Traceback \<or> (\<exists>m. act = Warn (''error: '' @ m))" for act
    using that by (auto simp: reports_error_def)
  show ?thesis
  proof (cases r)
    case (Inr n)
    with m show ?thesis by (simp add: run_script_def)
  next
    case (Inl e)
    with m assms obtain act where "run_script a w = (1, w'\<lparr>log := log w' @ [act]\<rparr>)"
      "act = Traceback \<or> (\<exists>m. act = Warn (''error: '' @ m))"
      by (cases e) (auto simp: run_script_def)
    with m Inl end_of show ?thesis by auto
  qed
qed

text \<open>
  The log and the status of a run that gets past the argument checks and the decoder: 0
  and everything sent, 2 and a gate that was asked for and not answered, or 1 and an error
  reported last.
\<close>

definition session_log :: "int \<Rightarrow> bytes list \<Rightarrow> int \<Rightarrow> action list \<Rightarrow> bool" where
  "session_log fl pkts status new \<longleftrightarrow> (let wait = fl AND WAIT_FOR_RESPONSE_FLAG \<noteq> 0 in
     gate_run wait True new \<noteq> None \<and>
     prefix (sends new) (wire_packets fl pkts) \<and>
     (status = 0 \<and> \<not> reports_error new \<and> \<not> stopped new \<and> sends new = wire_packets fl pkts \<or>
      status = 1 \<and> reports_error new \<and> \<not> stopped new \<or>
      status = 2 \<and> \<not> reports_error new \<and> stopped new \<and> sends new \<noteq> wire_packets fl pkts \<and>
        gate_run wait True new = Some False \<and>
        (wait \<or> fl AND HTTP_PRELUDE_FLAG \<noteq> 0 \<and> sends new = [KEEPALIVE_PRELUDE])))"

lemma exchange_session:
  assumes "exchange_log fl pkts r new" and "reports_error new \<longleftrightarrow> (\<exists>e. r = Inl e)"
  shows "session_log fl pkts (case r of Inl _ \<Rightarrow> 1 | Inr n \<Rightarrow> n) new"
  using assms by (auto simp: exchange_log_def session_log_def Let_def split: sum.splits if_splits)

lemma decode_input_packets:
  "decode_input a data = Inr fi \<Longrightarrow> selection a fi = Some pkts \<Longrightarrow> pkts \<noteq> []"
  by (auto simp: decode_input_def selection_def parse_fuzzer_input_def bind_result_eq_Inr Let_def
      split: if_splits option.splits list.splits)

lemma logs_run:
  "logs m P \<Longrightarrow> m w = (r, w') \<Longrightarrow> \<exists>new. log w' = log w @ new \<and> P r new"
  unfolding logs_def by (metis fst_conv snd_conv)

lemma run_exchange:
  assumes "check_arguments a = None" and "input_file w = Inr data"
    and "decode_input a data = Inr fi" and "selection a fi = Some pkts"
    and "\<not> opt_dry_run a"
  shows "\<exists>new. log (snd (run_script a w)) = log w @ new \<and>
    session_log (flags fi) pkts (fst (run_script a w)) new"
proof -
  let ?w' = "w\<lparr>log := log w @ start_of_run fi pkts\<rparr>"
  let ?m = "with_connection a (conversation a (flags fi) pkts)"
  have m: "main a w = ?m ?w'"
    using main_eq [OF assms(1-4)] assms(5) by (simp add: Let_def)
  obtain r w2 where r: "?m ?w' = (r, w2)" by (cases "?m ?w'")
  have "logs (conversation a (flags fi) pkts) (exchange_log (flags fi) pkts)"
    by (rule logs_conversation) (rule decode_input_packets [OF assms(3,4)])
  from logs_run [OF logs_with_connection [OF this] r] obtain new where
    log: "log w2 = log w @ start_of_run fi pkts @ new" and
    alt: "(\<exists>e. r = Inl e) \<and> new = [] \<or>
      (\<exists>mid. new = Connect (Seconds (opt_timeout a)) # mid @ [Close] \<and> exchange_log (flags fi) pkts r mid)"
    by auto
  have exch: "exchange_log (flags fi) pkts r (start_of_run fi pkts @ new @ after)"
    if "list_all plain after" "\<not> has_response after" for after
    using alt
  proof
    assume "(\<exists>e. r = Inl e) \<and> new = []"
    then obtain e where "r = Inl e" "new = []" by blast
    with that show ?thesis
      using exchange_log_around [of "flags fi" pkts r "[]" "start_of_run fi pkts" after]
      by (simp add: start_of_run_def) (simp add: exchange_log_def)
  next
    assume "\<exists>mid. new = Connect (Seconds (opt_timeout a)) # mid @ [Close] \<and>
      exchange_log (flags fi) pkts r mid"
    then obtain mid where n: "new = Connect (Seconds (opt_timeout a)) # mid @ [Close]"
      and e: "exchange_log (flags fi) pkts r mid" by blast
    from exchange_log_around [OF e, of "start_of_run fi pkts @ [Connect (Seconds (opt_timeout a))]"
        "Close # after"] that n show ?thesis
      by (simp add: start_of_run_def has_response_def)
  qed
  have "no_exit ?m" by (intro no_exit_intros)
  then have "\<And>n. fst (main a w) \<noteq> Inl (SystemExit n)" unfolding m by (simp add: no_exit_def)
  from run_script_ends [OF this] show ?thesis
  proof (elim disjE exE conjE)
    fix n
    assume n: "fst (main a w) = Inr n" "run_script a w = (n, snd (main a w))"
    with alt r m have "\<not> reports_error (start_of_run fi pkts @ new)"
      by (auto simp: reports_error_def)
    with exchange_session [OF exch [of "[]"]] n r m log show ?thesis by simp
  next
    fix e act
    assume e: "fst (main a w) = Inl e" "reports_error [act]" "plain act"
      "run_script a w = (1, (snd (main a w))\<lparr>log := log (snd (main a w)) @ [act]\<rparr>)"
    then have "\<not> has_response [act]" "reports_error (start_of_run fi pkts @ new @ [act])"
      by (cases act; simp add: reports_error_def has_response_def)+
    with exchange_session [OF exch [of "[act]"]] e r m log show ?thesis by simp
  qed
qed

text \<open>Runs that must not touch the network.\<close>

fun offline :: "action \<Rightarrow> bool" where
  "offline Read_Input = True"
| "offline (Print s) = True"
| "offline (Warn s) = True"
| "offline _ = False"

definition stays_local :: "arguments \<Rightarrow> world \<Rightarrow> bool" where
  "stays_local a w \<longleftrightarrow> check_arguments a \<noteq> None \<or> opt_dry_run a \<or>
     (case input_file w of Inl _ \<Rightarrow> True | Inr data \<Rightarrow>
        (case decode_input a data of Inl _ \<Rightarrow> True | Inr fi \<Rightarrow> selection a fi = None))"

lemma select_packets_None:
  "selection a fi = None \<Longrightarrow> \<exists>msg. select_packets a fi = parser_error msg"
  by (auto simp: selection_def select_packets_def split: option.splits if_splits)

lemma parse_packets_error: "parse_packets data offset pkts = Inl e \<Longrightarrow> \<exists>m. e = ValueError m"
proof (induction "length data - offset" arbitrary: offset pkts rule: less_induct)
  case less
  then have off: "offset < length data" by (cases "offset < length data") auto
  show ?case
  proof (cases "unframe (drop offset data)")
    case None
    with less.prems show ?thesis by (auto simp: parse_packets_step [OF off])
  next
    case (Some pr)
    obtain p rest where pr: "pr = (p, rest)" by (cases pr)
    show ?thesis
    proof (cases "length pkts < 64")
      case True
      with less.prems Some pr off show ?thesis
        by (intro less.hyps [of "offset + length (frame p)" "pkts @ [p]"])
          (simp_all add: parse_packets_step [OF off])
    next
      case False
      with less.prems Some pr show ?thesis by (auto simp: parse_packets_step [OF off])
    qed
  qed
qed

lemma decode_input_error: "decode_input a data = Inl e \<Longrightarrow> \<exists>m. e = ValueError m"
  by (auto simp: decode_input_def parse_fuzzer_input_def bind_result_eq_Inl Let_def
      dest: parse_packets_error split: if_splits list.splits)

lemma run_local:
  assumes "stays_local a w"
  shows "\<exists>new. log (snd (run_script a w)) = log w @ new \<and> list_all offline new \<and>
    fst (run_script a w) \<in> {0, 1, 2}"
proof (cases "check_arguments a")
  case (Some msg)
  then show ?thesis
    by (simp add: run_script_def main_def parser_error_def bind_io_def emit_def raise_io_def)
next
  case None
  note args = None
  show ?thesis
  proof (cases "input_file w")
    case (Inl m)
    with args show ?thesis
      by (simp add: run_script_def main_def bind_io_def read_input_def)
  next
    case (Inr data)
    note contents = Inr
    show ?thesis
    proof (cases "decode_input a data")
      case (Inl e)
      with args contents decode_input_error [OF Inl] show ?thesis
        by (auto simp: run_script_def main_def bind_io_def read_input_def decode_input_def
            lift_result_def return_io_def split: if_splits)
    next
      case (Inr fi)
      note fi = Inr
      show ?thesis
      proof (cases "selection a fi")
        case None
        from select_packets_None [OF None] obtain msg where "select_packets a fi = parser_error msg" ..
        with args contents fi show ?thesis
          by (auto simp: run_script_def main_def bind_io_def read_input_def decode_input_def
              lift_result_def return_io_def parser_error_def emit_def raise_io_def split: if_splits)
      next
        case (Some pkts)
        with assms args contents fi have "opt_dry_run a" by (simp add: stays_local_def)
        with main_eq [OF args contents fi Some] show ?thesis
          by (simp add: run_script_def Let_def start_of_run_def)
      qed
    qed
  qed
qed

text \<open>An infinite time limit: no address is ever connected to.\<close>

definition can_open_socket :: "world \<Rightarrow> bool" where
  "can_open_socket w \<longleftrightarrow> (case resolution w of
     Inl _ \<Rightarrow> False
   | Inr addresses \<Rightarrow> list_ex (\<lambda>address. socket_fault address = None) addresses)"

lemma try_addresses_infinite:
  "list_ex (\<lambda>ad. socket_fault ad = None) addresses \<Longrightarrow>
   try_addresses (Seconds PosInf) m addresses = raise_io overflow_error"
  by (induction addresses arbitrary: m)
    (auto simp: guarded_def timeout_error_def split: option.splits)

lemma try_addresses_none_open:
  "\<not> list_ex (\<lambda>ad. socket_fault ad = None) addresses \<Longrightarrow>
   \<exists>m'. try_addresses d m addresses = raise_io (OSError m')"
  by (induction addresses arbitrary: m) auto

lemma connect_infinite:
  assumes "opt_timeout a = PosInf"
  obtains e where "connect a w = (Inl e, w)"
    and "if can_open_socket w then e = overflow_error else \<exists>m. e = OSError m \<or> e = ValueError m"
proof (cases "can_open_socket w")
  case True
  with assms have "connect a w = (Inl overflow_error, w)"
    by (auto simp: connect_def can_open_socket_def raise_io_def try_addresses_infinite
        split: sum.splits)
  with that True show ?thesis by simp
next
  case False
  have "\<exists>m. connect a w = (Inl (OSError m), w) \<or> connect a w = (Inl (ValueError m), w)"
  proof (cases "resolution w")
    case (Inl fault)
    then show ?thesis by (cases fault) (auto simp: connect_def raise_io_def)
  next
    case (Inr addresses)
    with False try_addresses_none_open
    obtain m where "try_addresses (Seconds (opt_timeout a)) ''getaddrinfo returns an empty list'' addresses
        = raise_io (OSError m)" by (fastforce simp: can_open_socket_def)
    with Inr show ?thesis by (auto simp: connect_def raise_io_def)
  qed
  with that False show ?thesis by metis
qed

lemma run_infinite_timeout:
  assumes "check_arguments a = None" and "input_file w = Inr data"
    and "decode_input a data = Inr fi" and "selection a fi = Some pkts"
    and "\<not> opt_dry_run a" and "opt_timeout a = PosInf"
  shows "\<exists>act. run_script a w = (1, w\<lparr>log := log w @ start_of_run fi pkts @ [act]\<rparr>) \<and>
    (act = Traceback \<longleftrightarrow> can_open_socket w)"
proof -
  let ?w = "w\<lparr>log := log w @ start_of_run fi pkts\<rparr>"
  have "can_open_socket ?w = can_open_socket w" by (simp add: can_open_socket_def)
  with connect_infinite [OF assms(6), of ?w] obtain e where c: "connect a ?w = (Inl e, ?w)" and
    e: "if can_open_socket w then e = overflow_error else \<exists>m. e = OSError m \<or> e = ValueError m"
    by metis
  from main_eq [OF assms(1-4)] assms(5) c have "main a w = (Inl e, ?w)"
    by (simp add: Let_def with_connection_def bind_io_def)
  with e show ?thesis
    by (auto simp: run_script_def overflow_error_def split: if_splits)
qed

section \<open>Properties\<close>

text \<open>
  C34: a response that \<open>receive_response\<close> returns is a prefix of what the peer sent, in
  order and without gaps, never longer than the limit; what it did not take is still
  there for the next call, and a timeout takes nothing.
\<close>

theorem receive_response_prefix:
  assumes "receive_response t limit w = (Inr r, w')" and "1 \<le> limit"
  shows "case r of
      None \<Rightarrow> pending_bytes w' = pending_bytes w
    | Some bs \<Rightarrow> pending_bytes w = bs @ pending_bytes w' \<and> int (length bs) \<le> limit"
  using assms by (rule receive_response_spec)

definition answering_world :: "arrival list \<Rightarrow> bytes \<Rightarrow> world" where
  "answering_world es data = \<lparr>input_file = Inr data, resolution = Inr [\<lparr>socket_fault = None, connect_fault = None\<rparr>], send_faults = [],
     arrivals = es, log = []\<rparr>"

theorem receive_response_prefix_witness:
  "\<exists>w'. receive_response (Seconds (Fin 1)) 3 (answering_world [Data [1, 2, 3, 4], Quiet] []) =
      (Inr (Some [1, 2, 3]), w') \<and> pending_bytes w' = [4]"
proof -
  let ?w = "answering_world [Data [1, 2, 3, 4], Quiet] []"
  obtain w' where r: "receive_response (Seconds (Fin 1)) 3 ?w = (Inr (Some [1, 2, 3]), w')"
    by (simp add: receive_response_def bind_io_def set_timeout_def guarded_def timeout_error_def
        emit_def recv_def answering_world_def return_io_def receive_loop.simps Let_def
        power2_eq_square)
  from receive_response_prefix [OF r] have "pending_bytes ?w = [1, 2, 3] @ pending_bytes w'" by simp
  moreover have "pending_bytes ?w = [1, 2, 3, 4]" by (simp add: pending_bytes_def answering_world_def)
  ultimately show ?thesis using r by simp
qed

definition default_arguments :: arguments where
  "default_arguments = \<lparr>opt_raw = False, opt_packet = None, opt_host = ''::1'', opt_port = 5801,
     opt_timeout = Fin 2, opt_response_wait_ms = Fin 500, opt_packet_delay_ms = Fin 20,
     opt_response_limit = 65536, opt_dry_run = False\<rparr>"

text \<open>
  C35: with wrong arguments, an unreadable or undecodable file, a packet number that does
  not exist, or --dry-run, the tool never opens a connection: it only reads, prints and
  ends with status 0, 1 or 2.
\<close>

theorem replay_stays_local:
  assumes "stays_local a w"
  shows "\<exists>new. log (snd (run_script a w)) = log w @ new \<and> list_all offline new \<and>
    fst (run_script a w) \<in> {0, 1, 2}"
  using assms by (rule run_local)

theorem replay_stays_local_witness:
  "\<exists>new. log (snd (run_script default_arguments (answering_world [] [2, 0, 9]))) = new \<and>
    list_all offline new"
proof -
  have p: "parse_fuzzer_input [2, 0, 9] = Inl (ValueError ''invalid packet length'')"
    by code_simp
  have "stays_local default_arguments (answering_world [] [2, 0, 9])"
    by (simp add: stays_local_def answering_world_def decode_input_def default_arguments_def p)
  from replay_stays_local [OF this] show ?thesis by (simp add: answering_world_def)
qed



end
