(* ===== verification/Replay_Answers.thy ===== *)
theory Replay_Answers
  imports Replay_Session_Facts
begin

text \<open>
  The other direction of the replay session: when nothing fails and the peer answers every
  gate, the run returns and reaches the end of the sequence. \<open>returns P m Q\<close> is a triple
  for total correctness: from a world with \<open>P\<close>, the operation returns, with \<open>Q\<close>.
\<close>

section \<open>Operations that return\<close>

definition returns :: "(world \<Rightarrow> bool) \<Rightarrow> 'a io \<Rightarrow> ('a \<Rightarrow> world \<Rightarrow> bool) \<Rightarrow> bool" where
  "returns P m Q \<longleftrightarrow> (\<forall>w. P w \<longrightarrow> (\<exists>x w'. m w = (Inr x, w') \<and> Q x w'))"

named_theorems returns_intros \<open>operations that return\<close>

lemma returnsD: "returns P m Q \<Longrightarrow> P w \<Longrightarrow> \<exists>x w'. m w = (Inr x, w') \<and> Q x w'"
  unfolding returns_def by blast

lemma returns_bind:
  "returns P m R \<Longrightarrow> (\<And>x. returns (R x) (f x) Q) \<Longrightarrow> returns P (bind_io m f) Q"
  unfolding returns_def bind_io_def by fastforce

lemma returns_return: "(\<And>w. P w \<Longrightarrow> Q x w) \<Longrightarrow> returns P (return_io x) Q"
  by (simp add: returns_def return_io_def)

lemma returns_weaken: "returns P m Q \<Longrightarrow> (\<And>x w. Q x w \<Longrightarrow> Q' x w) \<Longrightarrow> returns P m Q'"
  unfolding returns_def by blast

lemma returns_pre: "(\<And>w. P w \<Longrightarrow> P' w) \<Longrightarrow> returns P' m Q \<Longrightarrow> returns P m Q"
  unfolding returns_def by blast

lemma returns_False: "returns (\<lambda>w. False) m Q"
  by (simp add: returns_def)

section \<open>A peer that answers\<close>

text \<open>
  What arrives holds \<open>n\<close> answers, each some bytes below the response limit and then
  silence, and after them anything but a broken connection.
\<close>

fun answers :: "nat \<Rightarrow> int \<Rightarrow> arrival list \<Rightarrow> bool" where
  "answers 0 limit es = list_all (\<lambda>e. case e of Broken m \<Rightarrow> False | _ \<Rightarrow> True) es"
| "answers (Suc n) limit (Data d # Quiet # es) =
     (d \<noteq> [] \<and> int (length d) < limit \<and> answers n limit es)"
| "answers (Suc n) limit es = False"

lemma answers_SucE:
  assumes "answers (Suc n) limit es"
  obtains d es' where "es = Data d # Quiet # es'" "d \<noteq> []" "int (length d) < limit"
    "answers n limit es'"
  using assms by (cases "(Suc n, limit, es)" rule: answers.cases) auto

definition ready :: "nat \<Rightarrow> int \<Rightarrow> world \<Rightarrow> bool" where
  "ready n limit w \<longleftrightarrow> list_all (\<lambda>f. f = None) (send_faults w) \<and> answers n limit (arrivals w)"

lemma ready_log [simp]: "ready n limit (w\<lparr>log := l\<rparr>) = ready n limit w"
  by (simp add: ready_def)

lemma returns_emit [returns_intros]: "returns (ready n limit) (emit act) (\<lambda>_. ready n limit)"
  by (simp add: returns_def emit_def)

lemma returns_print [returns_intros]: "returns (ready n limit) (print_line s) (\<lambda>_. ready n limit)"
  unfolding print_line_def by (rule returns_emit)

lemma returns_set_timeout [returns_intros]:
  "timeout_error d = None \<Longrightarrow> returns (ready n limit) (set_timeout d) (\<lambda>_. ready n limit)"
  by (simp add: set_timeout_def guarded_def returns_emit)

lemma returns_sleep [returns_intros]:
  "sleep_error d = None \<Longrightarrow> returns (ready n limit) (sleep d) (\<lambda>_. ready n limit)"
  by (simp add: sleep_def guarded_def returns_emit)

lemma returns_sendall [returns_intros]: "returns (ready n limit) (sendall b) (\<lambda>_. ready n limit)"
  by (auto simp: returns_def sendall_def emit_def ready_def split: list.splits)

lemma returns_describe [returns_intros]:
  "returns (ready n limit) (describe_response label r) (\<lambda>_. ready n limit)"
  unfolding describe_response_def
  by (auto intro!: returns_intros returns_bind [OF returns_print] split: option.splits)

text \<open>Without further answers to wait for, \<open>recv\<close> still returns.\<close>

lemma returns_recv_rest:
  "0 \<le> n \<Longrightarrow> returns (ready 0 limit) (recv n) (\<lambda>_. ready 0 limit)"
  unfolding returns_def recv_def ready_def
  by (auto simp: Let_def split: list.splits arrival.splits)

lemma returns_loop_rest:
  "returns (ready 0 limit) (receive_loop recv response bound) (\<lambda>_. ready 0 limit)"
proof (induction "nat (bound - int (length response))" arbitrary: response rule: less_induct)
  case less
  show ?case
  proof (cases "int (length response) < bound")
    case False
    then show ?thesis by (subst receive_loop_bind) (simp add: returns_return)
  next
    case True
    show ?thesis
      unfolding receive_loop_bind [of response] if_P [OF True]
    proof (rule returns_bind [OF returns_recv_rest])
      show "0 \<le> min 4096 (bound - int (length response))" using True by simp
      fix x
      show "returns (ready 0 limit) (case x of None \<Rightarrow> return_io response
        | Some chunk \<Rightarrow> if chunk = [] then return_io response
            else receive_loop recv (response @ chunk) bound) (\<lambda>_. ready 0 limit)"
        using True by (auto intro!: returns_return less split: option.splits)
    qed
  qed
qed

lemma returns_receive_rest:
  assumes "timeout_error t = None" and "1 \<le> limit"
  shows "returns (ready 0 limit) (receive_response t limit) (\<lambda>_. ready 0 limit)"
proof -
  have "timeout_error (Seconds (Fin 0.05)) = None" by (simp add: timeout_error_def)
  with assms show ?thesis
    unfolding receive_response_def
    by (intro returns_bind [OF returns_set_timeout] returns_bind [OF returns_recv_rest])
      (auto intro!: returns_return returns_bind [OF returns_set_timeout] returns_bind [OF returns_loop_rest]
        split: option.splits)
qed

lemma recv_data:
  assumes "arrivals w = Data d # es" and "0 \<le> n"
  obtains w' where "recv n w = (Inr (Some (take (nat n) d)), w')"
    and "arrivals w' = (if drop (nat n) d = [] then [] else [Data (drop (nat n) d)]) @ es"
    and "send_faults w' = send_faults w"
proof
  let ?left = "drop (nat n) d"
  let ?w = "w\<lparr>arrivals := (if ?left = [] then es else Data ?left # es),
    log := log w @ [Recv n (Some (take (nat n) d))]\<rparr>"
  show "recv n w = (Inr (Some (take (nat n) d)), ?w)"
    using assms by (simp add: recv_def Let_def)
  show "arrivals ?w = (if ?left = [] then [] else [Data ?left]) @ es" by simp
  show "send_faults ?w = send_faults w" by simp
qed

text \<open>An answer is taken whole, together with the silence that ends it.\<close>

lemma loop_takes_answer:
  assumes "int (length response + length d) < limit"
    and "arrivals w = (if d = [] then [] else [Data d]) @ Quiet # es"
    and "list_all (\<lambda>f. f = None) (send_faults w)" and "answers n limit es"
  shows "\<exists>w'. receive_loop recv response limit w = (Inr (response @ d), w') \<and> ready n limit w'"
  using assms(1-3)
proof (induction "length d" arbitrary: d response w rule: less_induct)
  case less
  let ?n = "min 4096 (limit - int (length response))"
  from less.prems have lt: "int (length response) < limit" by simp
  show ?case
  proof (cases "d = []")
    case True
    with lt less.prems assms(4) show ?thesis
      by (simp add: receive_loop.simps [of recv response] recv_def ready_def)
  next
    case False
    let ?got = "take (nat ?n) d" and ?left = "drop (nat ?n) d"
    have got: "?got \<noteq> []" using False lt by simp
    have "arrivals w = Data d # Quiet # es" "0 \<le> ?n" using False lt less.prems by simp_all
    then obtain w1 where r: "recv ?n w = (Inr (Some ?got), w1)"
      and w1: "arrivals w1 = (if ?left = [] then [] else [Data ?left]) @ Quiet # es"
        "send_faults w1 = send_faults w"
      by (rule recv_data)
    have "length ?left < length d" using False lt by simp
    moreover have "int (length (response @ ?got) + length ?left) < limit"
    proof -
      have "length d = length ?got + length ?left" by (metis append_take_drop_id length_append)
      with less.prems(1) show ?thesis unfolding length_append by linarith
    qed
    ultimately obtain w' where "receive_loop recv (response @ ?got) limit w1 =
        (Inr ((response @ ?got) @ ?left), w')" "ready n limit w'"
      using less.hyps [of ?left "response @ ?got" w1] w1 less.prems(3) by metis
    with lt r got show ?thesis by (simp add: receive_loop.simps [of recv response])
  qed
qed

lemma returns_receive_answer:
  assumes "timeout_error t = None"
  shows "returns (ready (Suc n) limit) (receive_response t limit)
    (\<lambda>r w. \<not> no_response r \<and> ready n limit w)"
  unfolding returns_def
proof (intro allI impI)
  fix w
  assume "ready (Suc n) limit w"
  then obtain d es where es: "arrivals w = Data d # Quiet # es" "d \<noteq> []" "int (length d) < limit"
      "answers n limit es" and ok: "list_all (\<lambda>f. f = None) (send_faults w)"
    by (auto simp: ready_def elim: answers_SucE)
  let ?w0 = "w\<lparr>log := log w @ [Set_Timeout t]\<rparr>"
  let ?n = "min 4096 limit"
  let ?got = "take (nat ?n) d" and ?left = "drop (nat ?n) d"
  have got: "?got \<noteq> []" using es(2,3) by auto
  have "arrivals ?w0 = Data d # Quiet # es" "0 \<le> ?n" using es by simp_all
  then obtain w1 where r: "recv ?n ?w0 = (Inr (Some ?got), w1)"
    and w1: "arrivals w1 = (if ?left = [] then [] else [Data ?left]) @ Quiet # es"
      "send_faults w1 = send_faults ?w0"
    by (rule recv_data)
  let ?w2 = "w1\<lparr>log := log w1 @ [Set_Timeout (Seconds (Fin 0.05))]\<rparr>"
  have "int (length ?got + length ?left) < limit"
    using es(3) by (simp flip: length_append)
  then have "\<exists>w'. receive_loop recv ?got limit ?w2 = (Inr (?got @ ?left), w') \<and> ready n limit w'"
    by (rule loop_takes_answer) (use w1 ok es(4) in simp_all)
  then obtain w' where l: "receive_loop recv ?got limit ?w2 = (Inr (?got @ ?left), w')"
    "ready n limit w'" by blast
  have "timeout_error (Seconds (Fin 0.05)) = None" by (simp add: timeout_error_def)
  with assms r got l have "receive_response t limit w = (Inr (Some (?got @ ?left)), w')"
    by (simp add: receive_response_def bind_io_def set_timeout_def guarded_def emit_def return_io_def)
  then show "\<exists>x w'. receive_response t limit w = (Inr x, w') \<and> \<not> no_response x \<and> ready n limit w'"
    using l(2) es(2) by (auto simp: no_response_def)
qed

section \<open>The sequence\<close>

text \<open>The values \<open>settimeout\<close> and \<open>sleep\<close> accept.\<close>

definition valid_times :: "arguments \<Rightarrow> bool" where
  "valid_times a \<longleftrightarrow> timeout_error (Seconds (opt_timeout a)) = None \<and>
     timeout_error (Millis (opt_response_wait_ms a)) = None \<and>
     sleep_error (Millis (opt_packet_delay_ms a)) = None"

text \<open>How many responses the flags make the run wait for before its last packet.\<close>

definition gates :: "int \<Rightarrow> nat \<Rightarrow> nat" where
  "gates fl n = (if fl AND WAIT_FOR_RESPONSE_FLAG \<noteq> 0 then n - 1 else 0)"

lemma returns_gate:
  assumes "timeout_error t = None" and "returns (ready n limit) k Q"
  shows "returns (ready (Suc n) limit) (bind_io (receive_response t limit) (\<lambda>response.
      bind_io (describe_response label response) (\<lambda>_.
        if no_response response then bind_io (emit (Warn msg)) (\<lambda>_. return_io (Some 2)) else k))) Q"
proof (rule returns_bind [OF returns_receive_answer [OF assms(1)]])
  fix r
  show "returns (\<lambda>w. \<not> no_response r \<and> ready n limit w) (bind_io (describe_response label r) (\<lambda>_.
      if no_response r then bind_io (emit (Warn msg)) (\<lambda>_. return_io (Some 2)) else k)) Q"
  proof (cases "no_response r")
    case True
    then show ?thesis by (simp add: returns_def)
  next
    case False
    with returns_bind [OF returns_describe assms(2)] show ?thesis by simp
  qed
qed

lemma returns_send_packets:
  assumes "valid_times a" and "index + length pkts = Suc n_total"
  shows "returns (ready (gates fl (length pkts)) (opt_response_limit a))
    (send_packets a fl n_total index pkts) (\<lambda>r w. r = None \<and> ready 0 (opt_response_limit a) w)"
  using assms(2)
proof (induction pkts arbitrary: index)
  case Nil
  then show ?case by (auto simp: gates_def intro: returns_return)
next
  case (Cons p rest)
  let ?limit = "opt_response_limit a"
  let ?Q = "\<lambda>r w. r = None \<and> ready 0 ?limit w"
  from Cons have IH: "returns (ready (gates fl (length rest)) ?limit)
      (send_packets a fl n_total (Suc index) rest) ?Q" by simp
  show ?case
    unfolding send_packets.simps
  proof (rule returns_bind [OF returns_sendall], rule returns_bind [OF returns_print])
    show "returns (ready (gates fl (length (p # rest))) ?limit) (if index < n_total then
         if fl AND WAIT_FOR_RESPONSE_FLAG \<noteq> 0 then
           bind_io (receive_response (Millis (opt_response_wait_ms a)) ?limit) (\<lambda>response.
           bind_io (describe_response (''packet '' @ show_nat index @ '' gate'') response) (\<lambda>_.
             if no_response response then
               bind_io (emit (Warn ''response gate failed; sequence stopped''))
                 (\<lambda>_. return_io (Some 2))
             else send_packets a fl n_total (Suc index) rest))
         else bind_io (sleep (Millis (opt_packet_delay_ms a)))
                (\<lambda>_. send_packets a fl n_total (Suc index) rest)
       else send_packets a fl n_total (Suc index) rest) ?Q"
    proof (cases "rest = []")
      case True
      with IH Cons.prems show ?thesis by (auto simp: gates_def)
    next
      case False
      with Cons.prems have lt: "index < n_total" by (cases rest) auto
      show ?thesis
      proof (cases "fl AND WAIT_FOR_RESPONSE_FLAG \<noteq> 0")
        case True
        with False have "gates fl (length (p # rest)) = Suc (gates fl (length rest))"
          by (cases rest) (simp_all add: gates_def)
        with lt True IH assms(1) returns_gate [OF _ IH] show ?thesis by (simp add: valid_times_def)
      next
        case nowait: False
        with lt IH assms(1) returns_bind [OF returns_sleep IH] show ?thesis
          by (simp add: gates_def valid_times_def)
      qed
    qed
  qed
qed

lemma returns_send_prelude:
  assumes "valid_times a"
  shows "returns (ready ((if fl AND HTTP_PRELUDE_FLAG \<noteq> 0 then 1 else 0) + n) (opt_response_limit a))
    (send_prelude a fl) (\<lambda>r w. r = None \<and> ready n (opt_response_limit a) w)"
proof (cases "fl AND HTTP_PRELUDE_FLAG \<noteq> 0")
  case True
  have "returns (ready n (opt_response_limit a)) (return_io None)
      (\<lambda>r w. r = (None :: int option) \<and> ready n (opt_response_limit a) w)"
    by (rule returns_return) simp
  with True assms show ?thesis
    by (simp add: send_prelude_def valid_times_def returns_bind [OF returns_sendall] returns_gate)
next
  case False
  then show ?thesis by (auto simp: send_prelude_def intro: returns_return)
qed

text \<open>
  All the run needs: time limits the library accepts, an address that connects, a
  connection that takes every packet, and an answer for the prelude and for every gate.
\<close>

definition cooperative :: "arguments \<Rightarrow> int \<Rightarrow> nat \<Rightarrow> world \<Rightarrow> bool" where
  "cooperative a fl n w \<longleftrightarrow> valid_times a \<and>
     (case resolution w of
        Inl _ \<Rightarrow> False
      | Inr addresses \<Rightarrow>
          list_ex (\<lambda>ad. socket_fault ad = None \<and> connect_fault ad = None) addresses) \<and>
     ready ((if fl AND HTTP_PRELUDE_FLAG \<noteq> 0 then 1 else 0) + gates fl n) (opt_response_limit a) w"

lemma returns_conversation:
  assumes "valid_times a" and "1 \<le> opt_response_limit a"
  shows "returns (ready ((if fl AND HTTP_PRELUDE_FLAG \<noteq> 0 then 1 else 0) + gates fl (length pkts))
      (opt_response_limit a)) (conversation a fl pkts) (\<lambda>n w. n = 0)"
proof -
  let ?limit = "opt_response_limit a"
  have final: "returns (ready 0 ?limit) (bind_io (receive_response (Seconds (opt_timeout a)) ?limit)
      (\<lambda>response. bind_io (describe_response ''final response'' response) (\<lambda>_. return_io (0 :: int))))
      (\<lambda>n w. n = 0)"
    using assms by (intro returns_bind [OF returns_receive_rest] returns_bind [OF returns_describe] returns_return)
      (simp_all add: valid_times_def)
  have guard: "returns (\<lambda>w. early = None \<and> ready k ?limit w)
      (case early of Some n \<Rightarrow> return_io n | None \<Rightarrow> m) Q"
    if "returns (ready k ?limit) m Q" for early :: "int option" and k m and Q :: "int \<Rightarrow> world \<Rightarrow> bool"
    using that by (cases early) (simp_all add: returns_def)
  show ?thesis
    unfolding conversation_def
    by (rule returns_bind [OF returns_send_prelude [OF assms(1)]], rule guard,
        rule returns_bind [OF returns_send_packets [OF assms(1)]], simp, rule guard, rule final)
qed

lemma try_addresses_connects:
  assumes "timeout_error d = None"
    and "list_ex (\<lambda>ad. socket_fault ad = None \<and> connect_fault ad = None) addresses"
  shows "try_addresses d m addresses = emit (Connect d)"
  using assms(2)
proof (induction addresses arbitrary: m)
  case (Cons ad rest)
  then show ?case
    using assms(1) by (auto simp: guarded_def split: option.splits)
qed simp

lemma run_cooperative:
  assumes "check_arguments a = None" and "input_file w = Inr data"
    and "decode_input a data = Inr fi" and "selection a fi = Some pkts"
    and "\<not> opt_dry_run a" and "cooperative a (flags fi) (length pkts) w"
  shows "fst (run_script a w) = 0"
proof -
  let ?w = "w\<lparr>log := log w @ start_of_run fi pkts\<rparr>"
  let ?c = "Connect (Seconds (opt_timeout a))"
  from assms(6) obtain addresses where res: "resolution w = Inr addresses"
    and ad: "list_ex (\<lambda>ad. socket_fault ad = None \<and> connect_fault ad = None) addresses"
    and v: "valid_times a" and r: "ready ((if flags fi AND HTTP_PRELUDE_FLAG \<noteq> 0 then 1 else 0) +
      gates (flags fi) (length pkts)) (opt_response_limit a) w"
    by (auto simp: cooperative_def split: sum.splits)
  from v ad res have c: "connect a ?w = (Inr (), ?w\<lparr>log := log ?w @ [?c]\<rparr>)"
    by (simp add: connect_def try_addresses_connects valid_times_def emit_def)
  have "1 \<le> opt_response_limit a"
    using assms(1) by (simp add: check_arguments_def split: if_splits)
  from returnsD [OF returns_conversation [OF v this, of "flags fi" pkts], of "?w\<lparr>log := log ?w @ [?c]\<rparr>"] r
  obtain w' where "conversation a (flags fi) pkts (?w\<lparr>log := log ?w @ [?c]\<rparr>) = (Inr 0, w')" by auto
  with c have "with_connection a (conversation a (flags fi) pkts) ?w = (Inr 0, w'\<lparr>log := log w' @ [Close]\<rparr>)"
    unfolding with_connection_def bind_io_def by simp
  with main_eq [OF assms(1-4)] assms(5) show ?thesis by (simp add: run_script_def Let_def)
qed

lemma run_cooperative_log:
  assumes "check_arguments a = None" and "input_file w = Inr data"
    and "decode_input a data = Inr fi" and "selection a fi = Some pkts"
    and "\<not> opt_dry_run a" and "cooperative a (flags fi) (length pkts) w"
  shows "fst (run_script a w) = 0 \<and>
    sends (log (snd (run_script a w))) = sends (log w) @ wire_packets (flags fi) pkts"
  using run_exchange [OF assms(1-5)] run_cooperative [OF assms]
  by (auto simp: session_log_def Let_def)

section \<open>Properties\<close>

text \<open>
  C3: a run that reaches the network, whatever the peer, the file and the connection do.
  The complete packets sent are, in order and with nothing else between them, a prefix of
  the prelude (if its flag is set) and the selected packets; after the prelude, and after
  every packet but the last, the next send happens only once the gate was passed: a
  response that is not empty, or the delay when no response is awaited. The run ends with
  exactly one of: status 0, everything sent and no error reported; status 2, a stop
  message logged, something left unsent, and no response since the last send although the
  flags asked for one there; status 1, an error message or a traceback as the last output
  and no stop message. And it does get to status 0 when the time limits are valid, an
  address connects, the connection takes every packet, and the peer answers the prelude
  and every gate the flags ask for.
\<close>

theorem replay_session_gated:
  assumes "check_arguments a = None" and "input_file w = Inr data"
    and "decode_input a data = Inr fi" and "selection a fi = Some pkts"
    and "\<not> opt_dry_run a"
  shows "\<exists>new. log (snd (run_script a w)) = log w @ new \<and>
    session_log (flags fi) pkts (fst (run_script a w)) new \<and>
    (cooperative a (flags fi) (length pkts) w \<longrightarrow>
       fst (run_script a w) = 0 \<and> sends new = wire_packets (flags fi) pkts)"
  using run_exchange [OF assms] run_cooperative_log [OF assms] by auto

text \<open>The witness: prelude, two packets and a gate, with the two answers they need.\<close>

definition answered_prelude :: world where
  "answered_prelude = answering_world [Data [0x48, 0x54], Quiet, Data [0x4f], Quiet, Data [0x21]]
     [7, 0, 1, 0x47, 0, 2, 0x48, 0x49]"

lemma default_times: "valid_times default_arguments"
  by (simp add: valid_times_def default_arguments_def timeout_error_def sleep_error_def)

theorem replay_session_gated_witness:
  "fst (run_script default_arguments answered_prelude) = 0 \<and>
   sends (log (snd (run_script default_arguments answered_prelude))) =
     [KEEPALIVE_PRELUDE, [0x47], [0x48, 0x49]] \<and>
   session_log 7 [[0x47], [0x48, 0x49]] 0 (log (snd (run_script default_arguments answered_prelude)))"
proof -
  let ?fi = "\<lparr>flags = 7, packets = [[0x47], [0x48, 0x49]]\<rparr> :: fuzzer_input"
  have p: "parse_fuzzer_input [7, 0, 1, 0x47, 0, 2, 0x48, 0x49] = Inr ?fi" by code_simp
  have d: "decode_input default_arguments [7, 0, 1, 0x47, 0, 2, 0x48, 0x49] = Inr ?fi"
    using p by (simp add: decode_input_def default_arguments_def)
  have c: "cooperative default_arguments (flags ?fi) (length [[0x47 :: byte], [0x48, 0x49]])
      answered_prelude"
    using default_times
    by (simp add: cooperative_def ready_def gates_def flag_defs answered_prelude_def
        answering_world_def default_arguments_def numeral_2_eq_2)
  have "check_arguments default_arguments = None" "\<not> opt_dry_run default_arguments"
    "selection default_arguments ?fi = Some [[0x47], [0x48, 0x49]]"
    "input_file answered_prelude = Inr [7, 0, 1, 0x47, 0, 2, 0x48, 0x49]"
    "log answered_prelude = []"
    by (simp_all add: check_arguments_def default_arguments_def selection_def answered_prelude_def
        answering_world_def)
  with replay_session_gated [OF _ _ d] c show ?thesis
    by (fastforce simp: wire_packets_def flag_defs)
qed

end
