(* ===== verification/Py_Regex.thy ===== *)
theory Py_Regex
  imports Py_Text
begin

text \<open>
  The regular expressions of \<open>check_build.py\<close> the way \<open>re\<close> matches them: a backtracking
  matcher that lists its results in the order the backtracking would find them, so that
  greedy repetition and the choice of the first result are Python's. For expressions
  without \<open>\b\<close>, \<open>re.fullmatch\<close> is shown to decide membership in the usual language.
\<close>

section \<open>Expressions and the matcher\<close>

datatype rx =
    Eps
  | Cls "char \<Rightarrow> bool"
  | Seq rx rx
  | Alt rx rx
  | Many rx
  | Group nat rx
  | Word_Boundary

text \<open>
  A position in the subject: what was consumed (last character first), what is left, and
  the text of the groups, the latest first.
\<close>

record position =
  behind :: string
  ahead :: string
  groups :: "(nat \<times> string) list"

definition is_word_char :: "char \<Rightarrow> bool" where
  "is_word_char c \<longleftrightarrow> is_digit c \<or> is_letter c \<or> code c = 95 \<or>
     code c \<in> {170, 178, 179, 181, 185, 186, 188, 189, 190} \<or>
     (192 \<le> code c \<and> code c \<noteq> 215 \<and> code c \<noteq> 247)"

definition at_word :: "string \<Rightarrow> bool" where
  "at_word s = (case s of [] \<Rightarrow> False | c # _ \<Rightarrow> is_word_char c)"

text \<open>
  Greedy repetition: first every way to go on after one more round, then stopping here.
  A round that consumes nothing is not repeated. The fuel is the number of characters
  left, of which each round takes at least one.
\<close>

fun repeat_greedy :: "(position \<Rightarrow> position list) \<Rightarrow> nat \<Rightarrow> position \<Rightarrow> position list" where
  "repeat_greedy f 0 p = [p]"
| "repeat_greedy f (Suc n) p =
     concat (map (repeat_greedy f n) (filter (\<lambda>q. length (ahead q) < length (ahead p)) (f p))) @ [p]"

fun runs :: "rx \<Rightarrow> position \<Rightarrow> position list" where
  "runs Eps p = [p]"
| "runs (Cls P) p = (case ahead p of
     [] \<Rightarrow> []
   | c # cs \<Rightarrow> if P c then [p\<lparr>behind := c # behind p, ahead := cs\<rparr>] else [])"
| "runs (Seq r s) p = concat (map (runs s) (runs r p))"
| "runs (Alt r s) p = runs r p @ runs s p"
| "runs (Many r) p = repeat_greedy (runs r) (length (ahead p)) p"
| "runs (Group k r) p =
     map (\<lambda>q. q\<lparr>groups := (k, take (length (ahead p) - length (ahead q)) (ahead p)) # groups q\<rparr>)
       (runs r p)"
| "runs Word_Boundary p = (if at_word (behind p) \<noteq> at_word (ahead p) then [p] else [])"

definition start_position :: "string \<Rightarrow> position" where
  "start_position s = \<lparr>behind = [], ahead = s, groups = []\<rparr>"

text \<open>\<open>re.match\<close>: the first result, if there is one. \<open>re.fullmatch\<close>: is there one at the end?\<close>

definition match_at :: "rx \<Rightarrow> position \<Rightarrow> position option" where
  "match_at r p = (case runs r p of [] \<Rightarrow> None | q # _ \<Rightarrow> Some q)"

definition re_match :: "rx \<Rightarrow> string \<Rightarrow> position option" where
  "re_match r s = match_at r (start_position s)"

definition re_fullmatch :: "rx \<Rightarrow> string \<Rightarrow> bool" where
  "re_fullmatch r s \<longleftrightarrow> list_ex (\<lambda>q. ahead q = []) (runs r (start_position s))"

text \<open>\<open>m.group(k)\<close>\<close>

definition group :: "nat \<Rightarrow> position \<Rightarrow> string option" where
  "group k p = map_of (groups p) k"

section \<open>Notations of the patterns\<close>

definition dot :: rx where "dot = Cls (\<lambda>c. c \<noteq> CHR 0x0A)"
definition any_text :: rx where "any_text = Many dot"
definition opt :: "rx \<Rightarrow> rx" where "opt r = Alt r Eps"
definition plus :: "rx \<Rightarrow> rx" where "plus r = Seq r (Many r)"

fun chars :: "string \<Rightarrow> rx" where
  "chars [] = Eps"
| "chars (c # cs) = Seq (Cls (\<lambda>d. d = c)) (chars cs)"

fun alts :: "rx list \<Rightarrow> rx" where
  "alts [] = Cls (\<lambda>_. False)"
| "alts [r] = r"
| "alts (r # s # rs) = Alt r (alts (s # rs))"

fun seqs :: "rx list \<Rightarrow> rx" where
  "seqs [] = Eps"
| "seqs [r] = r"
| "seqs (r # s # rs) = Seq r (seqs (s # rs))"

section \<open>The language of an expression\<close>

inductive_set star :: "string set \<Rightarrow> string set" for L where
  star_Nil: "[] \<in> star L"
| star_step: "u \<in> L \<Longrightarrow> v \<in> star L \<Longrightarrow> u @ v \<in> star L"

fun lang :: "rx \<Rightarrow> string set" where
  "lang Eps = {[]}"
| "lang (Cls P) = {[c] | c. P c}"
| "lang (Seq r s) = {u @ v | u v. u \<in> lang r \<and> v \<in> lang s}"
| "lang (Alt r s) = lang r \<union> lang s"
| "lang (Many r) = star (lang r)"
| "lang (Group k r) = lang r"
| "lang Word_Boundary = {}"

fun regular :: "rx \<Rightarrow> bool" where
  "regular (Seq r s) = (regular r \<and> regular s)"
| "regular (Alt r s) = (regular r \<and> regular s)"
| "regular (Many r) = regular r"
| "regular (Group k r) = regular r"
| "regular Word_Boundary = False"
| "regular _ = True"

text \<open>Every result consumes a word of the language.\<close>

definition consumes :: "string set \<Rightarrow> position \<Rightarrow> position \<Rightarrow> bool" where
  "consumes L p q \<longleftrightarrow> (\<exists>w \<in> L. ahead p = w @ ahead q \<and> behind q = rev w @ behind p)"

lemma repeat_greedy_sound:
  assumes "\<And>p q. q \<in> set (f p) \<Longrightarrow> consumes L p q"
  shows "q \<in> set (repeat_greedy f n p) \<Longrightarrow> consumes (star L) p q"
proof (induction n arbitrary: p)
  case 0
  then show ?case by (auto simp: consumes_def intro: star_Nil)
next
  case (Suc n)
  show ?case
  proof (cases "q = p")
    case True
    then show ?thesis by (auto simp: consumes_def intro: star_Nil)
  next
    case False
    with Suc.prems obtain m where m: "m \<in> set (f p)" and q: "q \<in> set (repeat_greedy f n m)" by auto
    from assms [OF m] obtain w where w: "w \<in> L" "ahead p = w @ ahead m" "behind m = rev w @ behind p"
      by (auto simp: consumes_def)
    from Suc.IH [OF q] obtain v where v: "v \<in> star L" "ahead m = v @ ahead q" "behind q = rev v @ behind m"
      by (auto simp: consumes_def)
    have "w @ v \<in> star L" using w(1) v(1) by (rule star_step)
    with w v show ?thesis unfolding consumes_def by (intro bexI [of _ "w @ v"]) auto
  qed
qed

lemma runs_sound: "regular r \<Longrightarrow> q \<in> set (runs r p) \<Longrightarrow> consumes (lang r) p q"
proof (induction r arbitrary: p q)
  case (Cls P)
  then show ?case by (auto simp: consumes_def split: list.splits if_splits)
next
  case (Seq r s)
  from Seq.prems obtain m where m: "m \<in> set (runs r p)" and q: "q \<in> set (runs s m)" by auto
  from Seq.IH(1) [OF _ m] Seq.IH(2) [OF _ q] Seq.prems(1)
  obtain u v where "u \<in> lang r" "v \<in> lang s" "ahead p = u @ v @ ahead q"
    "behind q = rev v @ rev u @ behind p"
    by (auto simp: consumes_def)
  then show ?case unfolding consumes_def by (intro bexI [of _ "u @ v"]) auto
next
  case (Alt r s)
  then show ?case by (fastforce simp: consumes_def)
next
  case (Many r)
  then show ?case using repeat_greedy_sound [of "runs r" "lang r"] by auto
next
  case (Group k r)
  then show ?case by (fastforce simp: consumes_def)
qed (auto simp: consumes_def)

text \<open>Every word of the language is consumed by some result.\<close>

definition reaches :: "(position \<Rightarrow> position list) \<Rightarrow> string \<Rightarrow> bool" where
  "reaches f w \<longleftrightarrow> (\<forall>p rest. ahead p = w @ rest \<longrightarrow>
     (\<exists>q \<in> set (f p). ahead q = rest \<and> behind q = rev w @ behind p))"

lemma repeat_greedy_complete:
  assumes "\<And>w. w \<in> L \<Longrightarrow> reaches f w"
  shows "w \<in> star L \<Longrightarrow> length w \<le> n \<Longrightarrow> reaches (repeat_greedy f n) w"
proof (induction w arbitrary: n rule: star.induct)
  case star_Nil
  then show ?case unfolding reaches_def by (cases n) auto
next
  case (star_step u v)
  show ?case
  proof (cases "u = []")
    case True
    with star_step show ?thesis by simp
  next
    case False
    with star_step.prems obtain k where n: "n = Suc k" and k: "length v \<le> k"
      by (cases n; cases u) auto
    show ?thesis
      unfolding reaches_def
    proof (intro allI impI)
      fix p :: position and rest
      assume a: "ahead p = (u @ v) @ rest"
      with assms [OF star_step.hyps(1)] obtain m where m: "m \<in> set (f p)" "ahead m = v @ rest"
        "behind m = rev u @ behind p"
        unfolding reaches_def by auto
      from star_step.IH [OF k] m(2) obtain q where "q \<in> set (repeat_greedy f k m)"
        "ahead q = rest" "behind q = rev v @ behind m"
        unfolding reaches_def by blast
      moreover have "length (ahead m) < length (ahead p)" using a m(2) False by simp
      ultimately show "\<exists>q \<in> set (repeat_greedy f n p). ahead q = rest \<and>
          behind q = rev (u @ v) @ behind p"
        unfolding n using m by auto
    qed
  qed
qed

lemma runs_complete: "regular r \<Longrightarrow> w \<in> lang r \<Longrightarrow> reaches (runs r) w"
proof (induction r arbitrary: w)
  case (Seq r s)
  then obtain u v where w: "w = u @ v" "u \<in> lang r" "v \<in> lang s" by auto
  with Seq have r: "reaches (runs r) u" and s: "reaches (runs s) v" by auto
  show ?case
    unfolding reaches_def
  proof (intro allI impI)
    fix p :: position and rest
    assume "ahead p = w @ rest"
    with r w(1) obtain m where m: "m \<in> set (runs r p)" "ahead m = v @ rest" "behind m = rev u @ behind p"
      unfolding reaches_def by auto
    with s obtain q where "q \<in> set (runs s m)" "ahead q = rest" "behind q = rev v @ behind m"
      unfolding reaches_def by blast
    with m w(1) show "\<exists>q \<in> set (runs (Seq r s) p). ahead q = rest \<and> behind q = rev w @ behind p"
      by auto
  qed
next
  case (Alt r s)
  then show ?case unfolding reaches_def by auto blast+
next
  case (Many r)
  have "reaches (repeat_greedy (runs r) n) w" if "length w \<le> n" for n
    using Many.prems by (intro repeat_greedy_complete [OF _ _ that, of "lang r"] Many.IH) auto
  then show ?case unfolding reaches_def by auto
next
  case (Group k r)
  then have "reaches (runs r) w" by simp
  then show ?case unfolding reaches_def by fastforce
qed (auto simp: reaches_def split: list.splits)

theorem fullmatch_lang: "regular r \<Longrightarrow> re_fullmatch r s \<longleftrightarrow> s \<in> lang r"
proof
  assume r: "regular r" and m: "re_fullmatch r s"
  from m obtain q where "q \<in> set (runs r (start_position s))" "ahead q = []"
    by (auto simp: re_fullmatch_def list_ex_iff)
  with runs_sound [OF r] show "s \<in> lang r"
    by (force simp: consumes_def start_position_def)
next
  assume r: "regular r" and s: "s \<in> lang r"
  have "ahead (start_position s) = s @ []" by (simp add: start_position_def)
  with runs_complete [OF r s] have "\<exists>q \<in> set (runs r (start_position s)). ahead q = []"
    unfolding reaches_def by blast
  then show "re_fullmatch r s" by (simp add: re_fullmatch_def list_ex_iff)
qed

section \<open>Languages of the notations\<close>

lemma star_append: "u \<in> star L \<Longrightarrow> v \<in> star L \<Longrightarrow> u @ v \<in> star L"
  by (induction u rule: star.induct) (auto intro: star.intros)

lemma star_chars: "w \<in> star {[c] | c. P c} \<longleftrightarrow> list_all P w"
proof
  show "w \<in> star {[c] | c. P c} \<Longrightarrow> list_all P w"
    by (induction w rule: star.induct) auto
next
  show "list_all P w \<Longrightarrow> w \<in> star {[c] | c. P c}"
  proof (induction w)
    case (Cons c w)
    then have "[c] @ w \<in> star {[c] | c. P c}" by (intro star_step) auto
    then show ?case by simp
  qed (simp add: star_Nil)
qed

definition no_newline :: "string \<Rightarrow> bool" where
  "no_newline s \<longleftrightarrow> list_all (\<lambda>c. c \<noteq> CHR 0x0A) s"

lemma lang_any_text [simp]: "lang any_text = {s. no_newline s}"
  by (auto simp: any_text_def dot_def star_chars no_newline_def)

lemma lang_chars [simp]: "lang (chars s) = {s}"
  by (induction s) auto

lemma lang_opt [simp]: "lang (opt r) = insert [] (lang r)"
  by (auto simp: opt_def)

lemma lang_alts [simp]: "lang (alts rs) = \<Union> (lang ` set rs)"
  by (induction rs rule: alts.induct) auto

lemma regular_notations [simp]:
  "regular any_text" "regular (chars s)" "regular (opt r) = regular r" "regular dot"
  "regular (plus r) = regular r"
  by (induction s) (auto simp: any_text_def dot_def opt_def plus_def)

lemma regular_alts [simp]: "regular (alts rs) = list_all regular rs"
  by (induction rs rule: alts.induct) auto

lemma regular_seqs [simp]: "regular (seqs rs) = list_all regular rs"
  by (induction rs rule: seqs.induct) auto

section \<open>Where a match goes first\<close>

text \<open>Advancing over a prefix of what is ahead.\<close>

definition advance :: "nat \<Rightarrow> position \<Rightarrow> position" where
  "advance k p = p\<lparr>behind := rev (take k (ahead p)) @ behind p, ahead := drop k (ahead p)\<rparr>"

lemma advance_simps [simp]:
  "ahead (advance k p) = drop k (ahead p)" "groups (advance k p) = groups p"
  "behind (advance k p) = rev (take k (ahead p)) @ behind p"
  by (simp_all add: advance_def)

lemma advance_0 [simp]: "advance 0 p = p"
  by (simp add: advance_def)

lemma advance_add: "advance k (advance j p) = advance (j + k) p"
  by (simp add: advance_def take_add add.commute)

lemma runs_cls: "runs (Cls P) p =
    (if ahead p \<noteq> [] \<and> P (hd (ahead p)) then [advance 1 p] else [])"
  by (cases "ahead p") (auto simp: advance_def)

text \<open>Greedy repetition of a character class gives back one character at a time.\<close>

lemma repeat_class:
  "length (ahead p) \<le> n \<Longrightarrow> repeat_greedy (runs (Cls P)) n p =
     map (\<lambda>k. advance k p) (rev [0..<Suc (length (takeWhile P (ahead p)))])"
proof (induction n arbitrary: p)
  case 0
  then show ?case by simp
next
  case (Suc n)
  show ?case
  proof (cases "ahead p \<noteq> [] \<and> P (hd (ahead p))")
    case False
    then have "takeWhile P (ahead p) = []" by (cases "ahead p") auto
    moreover have "runs (Cls P) p = []" using False by (simp only: runs_cls) simp
    ultimately show ?thesis by (simp del: runs.simps)
  next
    case True
    then obtain c cs where a: "ahead p = c # cs" "P c" by (cases "ahead p") auto
    let ?m = "length (takeWhile P cs)"
    have "length (ahead (advance 1 p)) \<le> n" using Suc.prems a by simp
    from Suc.IH [OF this] have "repeat_greedy (runs (Cls P)) n (advance 1 p) =
        map (\<lambda>k. advance (Suc k) p) (rev [0..<Suc ?m])"
      using a by (simp add: advance_add del: runs.simps upt_Suc)
    moreover have "map (\<lambda>k. advance (Suc k) p) (rev [0..<Suc ?m]) @ [p] =
        map (\<lambda>k. advance k p) (rev [0..<Suc (Suc ?m)])"
      by (subst (2) upt_conv_Cons) (simp_all add: map_Suc_upt [symmetric] rev_map del: upt_Suc map_Suc_upt)
    moreover have "runs (Cls P) p = [advance 1 p]" using True by (simp only: runs_cls) simp
    ultimately show ?thesis using a by (simp del: upt_Suc runs.simps)
  qed
qed

lemma runs_many_class: "runs (Many (Cls P)) p =
    map (\<lambda>k. advance k p) (rev [0..<Suc (length (takeWhile P (ahead p)))])"
  by (simp add: repeat_class del: upt_Suc runs.simps(2))

lemma runs_plus_class: "runs (plus (Cls P)) p =
    map (\<lambda>k. advance (Suc k) p) (rev [0..<length (takeWhile P (ahead p))])"
proof (cases "ahead p \<noteq> [] \<and> P (hd (ahead p))")
  case False
  then have "takeWhile P (ahead p) = []" by (cases "ahead p") auto
  moreover have "runs (Cls P) p = []" using False by (simp only: runs_cls) simp
  ultimately show ?thesis by (simp add: plus_def del: runs.simps(2))
next
  case True
  then obtain c cs where "ahead p = c # cs" "P c" by (cases "ahead p") auto
  then show ?thesis
    by (simp add: plus_def runs_cls runs_many_class advance_add del: upt_Suc runs.simps(2,5))
qed

lemma match_at_eq: "match_at r p = (if runs r p = [] then None else Some (hd (runs r p)))"
  by (simp add: match_at_def split: list.splits)

lemma takeWhile_stop:
  "list_all P w \<Longrightarrow> rest = [] \<or> \<not> P (hd rest) \<Longrightarrow> takeWhile P (w @ rest) = w"
  by (induction w) (auto simp: neq_Nil_conv, cases rest, auto)

text \<open>The first result of each kind of expression.\<close>

lemma first_many:
  "list_all P w \<Longrightarrow> rest = [] \<or> \<not> P (hd rest) \<Longrightarrow>
   match_at (Many (Cls P)) \<lparr>behind = b, ahead = w @ rest, groups = g\<rparr> =
     Some \<lparr>behind = rev w @ b, ahead = rest, groups = g\<rparr>"
  by (simp add: match_at_eq runs_many_class takeWhile_stop advance_def del: runs.simps)

lemma first_plus:
  "w \<noteq> [] \<Longrightarrow> list_all P w \<Longrightarrow> rest = [] \<or> \<not> P (hd rest) \<Longrightarrow>
   match_at (plus (Cls P)) \<lparr>behind = b, ahead = w @ rest, groups = g\<rparr> =
     Some \<lparr>behind = rev w @ b, ahead = rest, groups = g\<rparr>"
proof -
  assume w: "w \<noteq> []" "list_all P w" "rest = [] \<or> \<not> P (hd rest)"
  then obtain n where n: "length w = Suc n" by (cases w) auto
  then have "advance (Suc n) \<lparr>behind = b, ahead = w @ rest, groups = g\<rparr> =
      \<lparr>behind = rev w @ b, ahead = rest, groups = g\<rparr>"
    by (simp add: advance_def)
  with w n show ?thesis
    by (simp add: match_at_eq runs_plus_class takeWhile_stop del: runs.simps)
qed

lemma first_chars:
  "match_at (chars w) \<lparr>behind = b, ahead = w @ rest, groups = g\<rparr> =
     Some \<lparr>behind = rev w @ b, ahead = rest, groups = g\<rparr>"
  by (induction w arbitrary: b) (simp_all add: match_at_def)

lemma first_seq:
  "match_at r p = Some m \<Longrightarrow> match_at s m = Some q \<Longrightarrow> match_at (Seq r s) p = Some q"
  by (auto simp: match_at_def split: list.splits)

lemma first_group:
  "match_at r \<lparr>behind = b, ahead = w @ rest, groups = g\<rparr> =
     Some \<lparr>behind = b', ahead = rest, groups = g'\<rparr> \<Longrightarrow>
   match_at (Group k r) \<lparr>behind = b, ahead = w @ rest, groups = g\<rparr> =
     Some \<lparr>behind = b', ahead = rest, groups = (k, w) # g'\<rparr>"
  by (auto simp: match_at_def split: list.splits)

text \<open>When what follows fails, the repetition before it gives back one character.\<close>

lemma first_seq_second:
  "runs r p = m # m' # ms \<Longrightarrow> match_at s m = None \<Longrightarrow> match_at s m' = Some q \<Longrightarrow>
   match_at (Seq r s) p = Some q"
  by (auto simp: match_at_def split: list.splits)

lemma match_seq_single: "runs r p = [m] \<Longrightarrow> match_at (Seq r s) p = match_at s m"
  by (simp add: match_at_def)

lemma match_seq_None: "match_at r p = None \<Longrightarrow> match_at (Seq r s) p = None"
  by (simp add: match_at_def split: list.splits)

declare chars.simps [simp del] alts.simps [simp del]

end
