(* ===== verification/Elf_Evidence.thy ===== *)
theory Elf_Evidence
  imports Py_Regex Py_Bytes "HOL-Library.AList" "HOL-Library.Sublist"
begin

text \<open>
  \<open>parse_elf\<close> of \<open>check_build.py\<close>: one pass over the text that readelf prints for
  one ELF file or archive member, and what that pass has collected in the end, stated
  without reference to the order of the lines.
\<close>

section \<open>Units\<close>

record evidence =
  ev_references :: "string set"
  ev_other :: "(string \<times> string) list"
  ev_sections :: "string set"
  ev_symbols_present :: bool

text \<open>The dataclass \<open>Unit\<close>; its defaults are the empty strings and no evidence.\<close>

record inspected =
  unit_member :: string
  unit_evidence :: "evidence option"
  unit_error :: string
  unit_skipped :: string

definition empty_unit :: inspected where
  "empty_unit = \<lparr>unit_member = [], unit_evidence = None, unit_error = [], unit_skipped = []\<rparr>"

section \<open>Reading one line\<close>

definition space_rx :: rx where "space_rx = Cls is_space"
definition nonspace_rx :: rx where "nonspace_rx = Cls (\<lambda>c. \<not> is_space c)"
definition digit_rx :: rx where "digit_rx = Cls is_digit"
definition hex_rx :: rx where "hex_rx = Cls is_hex"
definition letter_rx :: rx where "letter_rx = Cls is_letter"

definition type_rx :: rx where
  "type_rx = seqs [Many space_rx, chars ''Type:'', plus space_rx, chars ''REL'', Word_Boundary]"

definition section_rx :: rx where
  "section_rx = seqs [Many space_rx, chars ''['', Many space_rx, plus digit_rx, chars '']'',
     plus space_rx, Group 1 (plus nonspace_rx), plus space_rx, plus nonspace_rx,
     plus space_rx, plus hex_rx, plus space_rx, plus hex_rx, plus space_rx,
     Group 2 (plus hex_rx), plus space_rx, plus hex_rx, plus space_rx,
     Group 3 (Many letter_rx), plus space_rx, plus digit_rx]"

definition index_rx :: rx where
  "index_rx = Seq (plus digit_rx) (chars '':'')"

text \<open>A section header: its name, size field and flags.\<close>

definition section_row :: "string \<Rightarrow> (string \<times> string \<times> string) option" where
  "section_row line = (case re_match section_rx line of
     None \<Rightarrow> None
   | Some q \<Rightarrow> Some (the (group 1 q), the (group 2 q), the (group 3 q)))"

definition hex_digit_value :: "char \<Rightarrow> nat" where
  "hex_digit_value c = (if is_digit c then code c - 48
     else if code c \<le> 70 then code c - 55 else code c - 87)"

text \<open>\<open>int(size, 16)\<close>\<close>

definition hex_value :: "string \<Rightarrow> nat" where
  "hex_value s = foldl (\<lambda>n c. 16 * n + hex_digit_value c) 0 s"

text \<open>A symbol table row: type, binding, section index and name without its version.\<close>

definition symbol_row :: "string \<Rightarrow> (string \<times> string \<times> string \<times> string) option" where
  "symbol_row line =
     (let fields = split_ws line
      in if 8 \<le> length fields \<and> re_fullmatch index_rx (fields ! 0)
         then Some (fields ! 3, fields ! 4, fields ! 6, takeWhile (\<lambda>c. c \<noteq> CHR ''@'') (fields ! 7))
         else None)"

section \<open>The pass\<close>

record scan =
  references :: "string set"
  other_symbols :: "(string \<times> string) list"
  sections :: "string set"
  header_count :: nat
  symtabs :: nat
  has_runtime_sections :: bool
  relocatable :: bool

definition start_scan :: scan where
  "start_scan = \<lparr>references = {}, other_symbols = [], sections = {}, header_count = 0,
     symtabs = 0, has_runtime_sections = False, relocatable = False\<rparr>"

definition scan_header :: "string \<Rightarrow> scan \<Rightarrow> scan" where
  "scan_header line st =
     (if line = ''ELF Header:'' then st\<lparr>header_count := Suc (header_count st)\<rparr> else st)"

definition scan_type :: "string \<Rightarrow> scan \<Rightarrow> scan" where
  "scan_type line st = (if re_match type_rx line \<noteq> None then st\<lparr>relocatable := True\<rparr> else st)"

definition scan_section :: "string \<Rightarrow> scan \<Rightarrow> scan" where
  "scan_section line st = (case section_row line of
     None \<Rightarrow> st
   | Some (name, sz, flgs) \<Rightarrow>
       let st1 = (if name = ''.symtab'' then st\<lparr>symtabs := Suc (symtabs st)\<rparr> else st)
       in if hex_value sz \<noteq> 0
          then st1\<lparr>sections := insert name (sections st1),
                   has_runtime_sections := has_runtime_sections st1 \<or>
                     CHR ''A'' \<in> set flgs \<or> CHR ''X'' \<in> set flgs\<rparr>
          else st1)"

definition scan_symbol :: "string \<Rightarrow> scan \<Rightarrow> scan" where
  "scan_symbol line st = (case symbol_row line of
     None \<Rightarrow> st
   | Some (typ, bnd, ndx, name) \<Rightarrow>
       if typ = ''FILE'' \<or> typ = ''SECTION'' then st
       else if ndx \<noteq> ''UND'' then
         st\<lparr>other_symbols := AList.update name ''definition'' (other_symbols st)\<rparr>
       else if bnd = ''WEAK'' then
         (if name \<in> fst ` set (other_symbols st) then st
          else st\<lparr>other_symbols := other_symbols st @ [(name, ''weak reference'')]\<rparr>)
       else st\<lparr>references := insert name (references st)\<rparr>)"

definition scan_line :: "string \<Rightarrow> scan \<Rightarrow> scan" where
  "scan_line line st = scan_symbol line (scan_section line (scan_type line (scan_header line st)))"

definition parse_elf :: "string \<Rightarrow> string \<Rightarrow> inspected result" where
  "parse_elf output member =
     (let st = fold scan_line (splitlines output) start_scan
      in if header_count st \<noteq> 1 then
           Inl (ValueError
             ''expected one ELF file (non-ELF members and LLVM bitcode are unsupported)'')
         else if \<exists>name \<in> sections st. prefix ''.gnu.lto_'' name then
           Inl (ValueError ''GCC LTO objects are unsupported; inspect the final linked binary'')
         else if relocatable st \<and> \<not> has_runtime_sections st \<and>
                 (''.rmeta'' \<in> sections st \<or> ''.rmeta-link'' \<in> sections st) then
           Inr (empty_unit\<lparr>unit_member := member,
             unit_skipped := ''Rust metadata (no runtime code or data)''\<rparr>)
         else Inr (empty_unit\<lparr>unit_member := member,
           unit_evidence := Some \<lparr>ev_references = references st, ev_other = other_symbols st,
             ev_sections = sections st, ev_symbols_present = (symtabs st \<noteq> 0)\<rparr>\<rparr>))"

section \<open>What the pass collects\<close>

text \<open>The symbol rows that count, by what they say about a name.\<close>

definition counts_as :: "string \<Rightarrow> (string \<Rightarrow> string \<Rightarrow> bool) \<Rightarrow> string \<Rightarrow> bool" where
  "counts_as name P line \<longleftrightarrow> (case symbol_row line of
     None \<Rightarrow> False
   | Some (typ, bnd, ndx, n) \<Rightarrow> n = name \<and> typ \<noteq> ''FILE'' \<and> typ \<noteq> ''SECTION'' \<and> P bnd ndx)"

definition definition_of :: "string \<Rightarrow> string \<Rightarrow> bool" where
  "definition_of name = counts_as name (\<lambda>bnd ndx. ndx \<noteq> ''UND'')"

definition weakly_refers :: "string \<Rightarrow> string \<Rightarrow> bool" where
  "weakly_refers name = counts_as name (\<lambda>bnd ndx. ndx = ''UND'' \<and> bnd = ''WEAK'')"

definition strongly_refers :: "string \<Rightarrow> string \<Rightarrow> bool" where
  "strongly_refers name = counts_as name (\<lambda>bnd ndx. ndx = ''UND'' \<and> bnd \<noteq> ''WEAK'')"

definition nonempty_section :: "string \<Rightarrow> string \<Rightarrow> bool" where
  "nonempty_section name line \<longleftrightarrow> (case section_row line of
     None \<Rightarrow> False | Some (n, sz, flgs) \<Rightarrow> n = name \<and> hex_value sz \<noteq> 0)"

definition runtime_section :: "string \<Rightarrow> bool" where
  "runtime_section line \<longleftrightarrow> (case section_row line of
     None \<Rightarrow> False
   | Some (n, sz, flgs) \<Rightarrow> hex_value sz \<noteq> 0 \<and> (CHR ''A'' \<in> set flgs \<or> CHR ''X'' \<in> set flgs))"

definition symtab_section :: "string \<Rightarrow> bool" where
  "symtab_section line \<longleftrightarrow> (case section_row line of
     None \<Rightarrow> False | Some (n, sz, flgs) \<Rightarrow> n = ''.symtab'')"

lemma scan_header_fields [simp]:
  "references (scan_header l st) = references st" "other_symbols (scan_header l st) = other_symbols st"
  "sections (scan_header l st) = sections st" "symtabs (scan_header l st) = symtabs st"
  "has_runtime_sections (scan_header l st) = has_runtime_sections st"
  "relocatable (scan_header l st) = relocatable st"
  "header_count (scan_header l st) = header_count st + (if l = ''ELF Header:'' then 1 else 0)"
  by (simp_all add: scan_header_def)

lemma scan_type_fields [simp]:
  "references (scan_type l st) = references st" "other_symbols (scan_type l st) = other_symbols st"
  "sections (scan_type l st) = sections st" "symtabs (scan_type l st) = symtabs st"
  "has_runtime_sections (scan_type l st) = has_runtime_sections st"
  "header_count (scan_type l st) = header_count st"
  "relocatable (scan_type l st) \<longleftrightarrow> relocatable st \<or> re_match type_rx l \<noteq> None"
  by (simp_all add: scan_type_def)

lemma option_triple_cases [case_names None Some]:
  fixes x :: "('a \<times> 'b \<times> 'c) option"
  obtains "x = None" | a b c where "x = Some (a, b, c)"
  by (cases x) auto

lemma option_quadruple_cases [case_names None Some]:
  fixes x :: "('a \<times> 'b \<times> 'c \<times> 'd) option"
  obtains "x = None" | a b c d where "x = Some (a, b, c, d)"
  by (cases x) auto

lemma scan_section_fields [simp]:
  "references (scan_section l st) = references st"
  "other_symbols (scan_section l st) = other_symbols st"
  "header_count (scan_section l st) = header_count st"
  "relocatable (scan_section l st) = relocatable st"
  "sections (scan_section l st) = sections st \<union> {n. nonempty_section n l}"
  "0 < symtabs (scan_section l st) \<longleftrightarrow> 0 < symtabs st \<or> symtab_section l"
  "has_runtime_sections (scan_section l st) \<longleftrightarrow> has_runtime_sections st \<or> runtime_section l"
  by (cases "section_row l" rule: option_triple_cases;
      auto simp: scan_section_def nonempty_section_def symtab_section_def
        runtime_section_def Let_def)+

lemma scan_symbol_fields [simp]:
  "sections (scan_symbol l st) = sections st" "symtabs (scan_symbol l st) = symtabs st"
  "has_runtime_sections (scan_symbol l st) = has_runtime_sections st"
  "header_count (scan_symbol l st) = header_count st"
  "relocatable (scan_symbol l st) = relocatable st"
  "references (scan_symbol l st) = references st \<union> {n. strongly_refers n l}"
  by (cases "symbol_row l" rule: option_quadruple_cases;
      auto simp: scan_symbol_def strongly_refers_def counts_as_def)+

lemma map_add_new:
  "m k = None \<Longrightarrow> ([k \<mapsto> v] ++ m) n = (if n = k then Some v else m n)"
  by (simp add: map_add_def split: option.splits)

lemma scan_symbol_other [simp]:
  "map_of (other_symbols (scan_symbol l st)) n =
     (if definition_of n l then Some ''definition''
      else if weakly_refers n l \<and> map_of (other_symbols st) n = None then Some ''weak reference''
      else map_of (other_symbols st) n)"
proof (cases "symbol_row l" rule: option_quadruple_cases)
  case None
  then show ?thesis by (simp add: scan_symbol_def definition_of_def weakly_refers_def counts_as_def)
next
  case (Some ty bnd ndx name)
  have "name \<in> fst ` set (other_symbols st) \<longleftrightarrow> map_of (other_symbols st) name \<noteq> None"
    by (simp add: map_of_eq_None_iff)
  with Some show ?thesis
    by (auto simp: scan_symbol_def definition_of_def weakly_refers_def counts_as_def AList.update_conv'
        map_add_new)
qed

lemma scan_line_fields [simp]:
  "references (scan_line l st) = references st \<union> {n. strongly_refers n l}"
  "sections (scan_line l st) = sections st \<union> {n. nonempty_section n l}"
  "header_count (scan_line l st) = header_count st + (if l = ''ELF Header:'' then 1 else 0)"
  "0 < symtabs (scan_line l st) \<longleftrightarrow> 0 < symtabs st \<or> symtab_section l"
  "has_runtime_sections (scan_line l st) \<longleftrightarrow> has_runtime_sections st \<or> runtime_section l"
  "relocatable (scan_line l st) \<longleftrightarrow> relocatable st \<or> re_match type_rx l \<noteq> None"
  "map_of (other_symbols (scan_line l st)) n =
     (if definition_of n l then Some ''definition''
      else if weakly_refers n l \<and> map_of (other_symbols st) n = None then Some ''weak reference''
      else map_of (other_symbols st) n)"
  by (simp_all add: scan_line_def)

lemma fold_scan_fields:
  "references (fold scan_line ls st) = references st \<union> {n. \<exists>l \<in> set ls. strongly_refers n l}"
  "sections (fold scan_line ls st) = sections st \<union> {n. \<exists>l \<in> set ls. nonempty_section n l}"
  "header_count (fold scan_line ls st) = header_count st + count_list ls ''ELF Header:''"
  "0 < symtabs (fold scan_line ls st) \<longleftrightarrow> 0 < symtabs st \<or> (\<exists>l \<in> set ls. symtab_section l)"
  "has_runtime_sections (fold scan_line ls st) \<longleftrightarrow>
     has_runtime_sections st \<or> (\<exists>l \<in> set ls. runtime_section l)"
  "relocatable (fold scan_line ls st) \<longleftrightarrow>
     relocatable st \<or> (\<exists>l \<in> set ls. re_match type_rx l \<noteq> None)"
  by (induction ls arbitrary: st) auto

lemma fold_scan_other:
  "map_of (other_symbols (fold scan_line ls st)) n =
     (if \<exists>l \<in> set ls. definition_of n l then Some ''definition''
      else if map_of (other_symbols st) n = None \<and> (\<exists>l \<in> set ls. weakly_refers n l)
      then Some ''weak reference'' else map_of (other_symbols st) n)"
  by (induction ls arbitrary: st) auto

section \<open>A section header as readelf prints it\<close>

text \<open>
  The fields of a line of the wide section table: an index in brackets, name, type,
  address, offset, size, entry size and flags, and the numbers that follow. Name, type and
  flags are padded to columns. The flags may be missing; their column is then blank.
\<close>

definition blank :: "string \<Rightarrow> bool" where
  "blank s \<longleftrightarrow> list_all is_space s"

record section_fields =
  sf_pad :: string
  sf_index :: string
  sf_name :: string
  sf_type :: string
  sf_addr :: string
  sf_off :: string
  sf_size :: string
  sf_es :: string
  sf_flags :: string
  sf_link :: string

definition section_line :: "section_fields \<Rightarrow> string \<Rightarrow> string \<Rightarrow> string \<Rightarrow> string \<Rightarrow> string \<Rightarrow> string" where
  "section_line f sep1 sep2 pre gap rest =
     ''  '' @ ''['' @ sf_pad f @ sf_index f @ '']'' @ '' '' @ sf_name f @ sep1 @ sf_type f @ sep2 @
     sf_addr f @ '' '' @ sf_off f @ '' '' @ sf_size f @ '' '' @ sf_es f @ pre @ sf_flags f @ gap @
     sf_link f @ rest"

definition word_like :: "(char \<Rightarrow> bool) \<Rightarrow> string \<Rightarrow> bool" where
  "word_like P w \<longleftrightarrow> w \<noteq> [] \<and> list_all P w"

lemma classes_disjoint:
  "is_digit c \<Longrightarrow> \<not> is_space c" "is_hex c \<Longrightarrow> \<not> is_space c" "is_letter c \<Longrightarrow> \<not> is_space c"
  by (auto simp: is_digit_def is_hex_def is_letter_def is_upper_def is_lower_def is_space_def)

lemma special_chars [simp]:
  "is_space CHR '' ''" "\<not> is_space CHR ''[''" "\<not> is_space CHR '']''" "\<not> is_digit CHR '']''"
  "\<not> is_digit CHR '' ''" "\<not> is_hex CHR '' ''" "\<not> is_letter CHR '' ''"
  by (simp_all add: is_space_def is_digit_def is_hex_def is_letter_def is_upper_def is_lower_def code_def)

lemma word_like_head:
  "word_like P w \<Longrightarrow> w \<noteq> [] \<and> P (hd (w @ r)) \<and> list_all P w"
  by (cases w) (auto simp: word_like_def)

text \<open>Continuing a chain of first results, from the left.\<close>

lemma chain_seqs:
  "match_at r p = Some m \<Longrightarrow> match_at (seqs (s # rs)) m = Some q \<Longrightarrow>
   match_at (seqs (r # s # rs)) p = Some q"
  by (simp add: first_seq)

lemma first_spaces:
  "blank w \<Longrightarrow> w \<noteq> [] \<Longrightarrow> rest = [] \<or> \<not> is_space (hd rest) \<Longrightarrow>
   match_at (plus space_rx) \<lparr>behind = b, ahead = w @ rest, groups = g\<rparr> =
     Some \<lparr>behind = rev w @ b, ahead = rest, groups = g\<rparr>"
  unfolding space_rx_def blank_def by (rule first_plus)

lemma first_words:
  "word_like is_digit w \<Longrightarrow> rest = [] \<or> \<not> is_digit (hd rest) \<Longrightarrow>
   match_at (plus digit_rx) \<lparr>behind = b, ahead = w @ rest, groups = g\<rparr> =
     Some \<lparr>behind = rev w @ b, ahead = rest, groups = g\<rparr>"
  "word_like is_hex w \<Longrightarrow> rest = [] \<or> \<not> is_hex (hd rest) \<Longrightarrow>
   match_at (plus hex_rx) \<lparr>behind = b, ahead = w @ rest, groups = g\<rparr> =
     Some \<lparr>behind = rev w @ b, ahead = rest, groups = g\<rparr>"
  "word_like (\<lambda>c. \<not> is_space c) w \<Longrightarrow> rest = [] \<or> is_space (hd rest) \<Longrightarrow>
   match_at (plus nonspace_rx) \<lparr>behind = b, ahead = w @ rest, groups = g\<rparr> =
     Some \<lparr>behind = rev w @ b, ahead = rest, groups = g\<rparr>"
  unfolding digit_rx_def hex_rx_def nonspace_rx_def word_like_def by (rule first_plus; simp)+

text \<open>The end of the line: flags, the gap and the next number.\<close>

definition flags_tail :: "rx list" where
  "flags_tail = [plus space_rx, Group 3 (Many letter_rx), plus space_rx, plus digit_rx]"

lemma first_flags:
  assumes "blank pre" and "pre \<noteq> []" and "word_like is_letter flgs" and "blank gap" and "gap \<noteq> []" and "word_like is_digit link"
  shows "\<exists>q. match_at (seqs flags_tail)
      \<lparr>behind = b, ahead = pre @ flgs @ gap @ link @ rest, groups = g\<rparr> = Some q \<and>
    groups q = (3, flgs) # g"
proof -
  let ?d = "takeWhile is_digit (link @ rest)" and ?r = "dropWhile is_digit (link @ rest)"
  have d: "word_like is_digit ?d" "?r = [] \<or> \<not> is_digit (hd ?r)" "link @ rest = ?d @ ?r"
    using assms(6) hd_dropWhile [of is_digit "link @ rest"]
    by (auto simp: word_like_def list_all_iff takeWhile_append dest: set_takeWhileD)
  have f: "\<not> is_space (hd (flgs @ gap @ link @ rest))" "\<not> is_letter (hd (gap @ link @ rest))"
    "\<not> is_space (hd (link @ rest))"
    using assms classes_disjoint
    by (cases flgs; cases gap; cases link; force simp: word_like_def blank_def)+
  have "match_at (seqs flags_tail)
      \<lparr>behind = b, ahead = pre @ flgs @ gap @ link @ rest, groups = g\<rparr> =
    Some \<lparr>behind = rev ?d @ rev gap @ rev flgs @ rev pre @ b, ahead = ?r, groups = (3, flgs) # g\<rparr>"
    unfolding flags_tail_def
  proof (intro chain_seqs)
    show "match_at (plus space_rx) \<lparr>behind = b, ahead = pre @ flgs @ gap @ link @ rest, groups = g\<rparr> =
        Some \<lparr>behind = rev pre @ b, ahead = flgs @ gap @ link @ rest, groups = g\<rparr>"
      using assms(1,2) f by (intro first_spaces) simp_all
    show "match_at (Group 3 (Many letter_rx)) \<lparr>behind = rev pre @ b, ahead = flgs @ gap @ link @ rest, groups = g\<rparr> =
        Some \<lparr>behind = rev flgs @ rev pre @ b, ahead = gap @ link @ rest, groups = (3, flgs) # g\<rparr>"
      unfolding letter_rx_def using assms(3) f by (intro first_group first_many) (simp_all add: word_like_def)
    show "match_at (plus space_rx) \<lparr>behind = rev flgs @ rev pre @ b, ahead = gap @ link @ rest, groups = (3, flgs) # g\<rparr> =
        Some \<lparr>behind = rev gap @ rev flgs @ rev pre @ b, ahead = link @ rest, groups = (3, flgs) # g\<rparr>"
      using assms f by (intro first_spaces) simp_all
    show "match_at (seqs [plus digit_rx]) \<lparr>behind = rev gap @ rev flgs @ rev pre @ b, ahead = link @ rest, groups = (3, flgs) # g\<rparr> =
        Some \<lparr>behind = rev ?d @ rev gap @ rev flgs @ rev pre @ b, ahead = ?r, groups = (3, flgs) # g\<rparr>"
      using first_words(1) [OF d(1,2), of "rev gap @ rev flgs @ rev pre @ b" "(3, flgs) # g"]
      by (simp only: d(3) [symmetric] seqs.simps)
  qed
  then show ?thesis by auto
qed

lemma match_digits_tail:
  assumes "word_like is_digit link"
  shows "\<exists>q. match_at (plus digit_rx) \<lparr>behind = b, ahead = link @ rest, groups = g\<rparr> = Some q \<and>
    groups q = g"
proof -
  let ?d = "takeWhile is_digit (link @ rest)" and ?r = "dropWhile is_digit (link @ rest)"
  have "word_like is_digit ?d" "?r = [] \<or> \<not> is_digit (hd ?r)"
    using assms hd_dropWhile [of is_digit "link @ rest"]
    by (auto simp: word_like_def list_all_iff takeWhile_append dest: set_takeWhileD)
  from first_words(1) [OF this, of b g] show ?thesis by (simp del: takeWhile_append1)
qed

text \<open>Without flags the white space before them gives one blank back.\<close>

lemma first_no_flags:
  assumes "blank gap" and "2 \<le> length gap" and "word_like is_digit link"
  shows "\<exists>q. match_at (seqs flags_tail)
      \<lparr>behind = b, ahead = gap @ link @ rest, groups = g\<rparr> = Some q \<and>
    groups q = (3, []) # g"
proof -
  let ?p = "\<lparr>behind = b, ahead = gap @ link @ rest, groups = g\<rparr>"
  let ?tail = "[Group 3 (Many letter_rx), plus space_rx, plus digit_rx]"
  obtain k where k: "length gap = Suc (Suc k)"
    using assms(2) by (metis Suc_le_D numeral_2_eq_2 Suc_le_mono)
  have ne: "gap \<noteq> []" using k by auto
  have hd: "\<not> is_space (hd (link @ rest))" "\<not> is_letter (hd (link @ rest))" "link @ rest \<noteq> []"
    using assms(3) by (cases link; auto simp: word_like_def is_digit_def is_space_def
      is_letter_def is_upper_def is_lower_def)+
  have "takeWhile is_space (ahead ?p) = gap"
    using takeWhile_stop [of is_space gap "link @ rest"] assms(1) hd by (simp add: blank_def)
  then have r: "runs (plus space_rx) ?p =
      advance (Suc (Suc k)) ?p # advance (Suc k) ?p # map (\<lambda>j. advance (Suc j) ?p) (rev [0..<k])"
    unfolding space_rx_def runs_plus_class using k by simp
  obtain c cs where c: "link @ rest = c # cs" using hd(3) by (cases "link @ rest") auto
  have m: "advance (Suc (Suc k)) ?p = \<lparr>behind = rev gap @ b, ahead = link @ rest, groups = g\<rparr>"
    using k by (simp add: advance_def)
  have "match_at (plus space_rx) \<lparr>behind = x, ahead = link @ rest, groups = y\<rparr> = None" for x y
    using hd c by (simp add: match_at_def plus_def space_rx_def)
  moreover have "runs (Group 3 (Many letter_rx)) \<lparr>behind = x, ahead = link @ rest, groups = g\<rparr> =
      [\<lparr>behind = x, ahead = link @ rest, groups = (3, []) # g\<rparr>]" for x
    using hd c by (simp add: letter_rx_def)
  ultimately have none: "match_at (seqs ?tail) (advance (Suc (Suc k)) ?p) = None"
    unfolding m seqs.simps by (simp only: match_seq_single match_seq_None)
  have gap: "butlast gap @ [last gap] = gap" "length (butlast gap) = Suc k" using ne k by simp_all
  have "take (Suc k) ((butlast gap @ [last gap]) @ link @ rest) = butlast gap"
    "drop (Suc k) ((butlast gap @ [last gap]) @ link @ rest) = [last gap] @ link @ rest"
    using gap(2) by simp_all
  then have m': "advance (Suc k) ?p =
      \<lparr>behind = rev (butlast gap) @ b, ahead = [] @ [last gap] @ link @ rest, groups = g\<rparr>"
    unfolding gap(1) by (simp add: advance_def)
  have sp: "is_space (last gap)" using assms(1) ne by (simp add: blank_def list_all_iff)
  then have nl: "\<not> is_letter (last gap)" using classes_disjoint(3) by blast
  obtain q where q: "match_at (plus digit_rx) \<lparr>behind = rev [last gap] @ rev (butlast gap) @ b,
      ahead = link @ rest, groups = (3, []) # g\<rparr> = Some q" "groups q = (3, []) # g"
    using match_digits_tail [OF assms(3)] by blast
  have "match_at (seqs ?tail) (advance (Suc k) ?p) = Some q"
    unfolding m'
  proof (intro chain_seqs)
    show "match_at (Group 3 (Many letter_rx))
        \<lparr>behind = rev (butlast gap) @ b, ahead = [] @ [last gap] @ link @ rest, groups = g\<rparr> =
      Some \<lparr>behind = rev [] @ rev (butlast gap) @ b, ahead = [last gap] @ link @ rest,
        groups = (3, []) # g\<rparr>"
      unfolding letter_rx_def using nl by (intro first_group first_many) simp_all
    show "match_at (plus space_rx) \<lparr>behind = rev [] @ rev (butlast gap) @ b,
        ahead = [last gap] @ link @ rest, groups = (3, []) # g\<rparr> =
      Some \<lparr>behind = rev [last gap] @ rev [] @ rev (butlast gap) @ b, ahead = link @ rest,
        groups = (3, []) # g\<rparr>"
      using sp hd by (intro first_spaces) (simp_all add: blank_def)
    show "match_at (seqs [plus digit_rx]) \<lparr>behind = rev [last gap] @ rev [] @ rev (butlast gap) @ b,
        ahead = link @ rest, groups = (3, []) # g\<rparr> = Some q"
      using q(1) by simp
  qed
  with none r have "match_at (seqs flags_tail) ?p = Some q"
    unfolding flags_tail_def seqs.simps(3) [of "plus space_rx"] by (intro first_seq_second)
  with q(2) show ?thesis by blast
qed

text \<open>A match that leaves certain groups, and one step of it.\<close>

definition matches_with :: "rx \<Rightarrow> position \<Rightarrow> (nat \<times> string) list \<Rightarrow> bool" where
  "matches_with r p gs \<longleftrightarrow> (\<exists>q. match_at r p = Some q \<and> groups q = gs)"

lemma chain_with:
  "match_at r p = Some m \<Longrightarrow> matches_with (seqs (s # rs)) m gs \<Longrightarrow>
   matches_with (seqs (r # s # rs)) p gs"
  unfolding matches_with_def using chain_seqs by blast

lemma flags_with:
  assumes "blank pre" and "pre \<noteq> []" and "list_all is_letter flgs" and "blank gap" and "gap \<noteq> []"
    and "word_like is_digit link"
  shows "matches_with (seqs flags_tail)
    \<lparr>behind = b, ahead = pre @ flgs @ gap @ link @ rest, groups = g\<rparr> ((3, flgs) # g)"
proof (cases "flgs = []")
  case False
  with assms show ?thesis
    unfolding matches_with_def by (intro first_flags) (simp_all add: word_like_def)
next
  case True
  have "blank (pre @ gap)" using assms(1,4) by (simp add: blank_def)
  moreover have "2 \<le> length (pre @ gap)" using assms(2,5) by (cases pre; cases gap) auto
  ultimately show ?thesis
    using first_no_flags [OF _ _ assms(6), of "pre @ gap" b rest g] True
    unfolding matches_with_def by simp
qed

text \<open>A word of one class ends where another class begins.\<close>

lemma step_words:
  "word_like is_digit w \<Longrightarrow> match_at (plus digit_rx)
     \<lparr>behind = b, ahead = w @ '']'' @ r, groups = g\<rparr> =
     Some \<lparr>behind = rev w @ b, ahead = '']'' @ r, groups = g\<rparr>"
  "word_like is_hex w \<Longrightarrow> blank s \<Longrightarrow> s \<noteq> [] \<Longrightarrow> match_at (plus hex_rx)
     \<lparr>behind = b, ahead = w @ s @ r, groups = g\<rparr> =
     Some \<lparr>behind = rev w @ b, ahead = s @ r, groups = g\<rparr>"
  "word_like (\<lambda>c. \<not> is_space c) w \<Longrightarrow> blank s \<Longrightarrow> s \<noteq> [] \<Longrightarrow> match_at (plus nonspace_rx)
     \<lparr>behind = b, ahead = w @ s @ r, groups = g\<rparr> =
     Some \<lparr>behind = rev w @ b, ahead = s @ r, groups = g\<rparr>"
  using classes_disjoint
  by (cases s; intro first_words; force simp: blank_def)+

lemma step_space:
  "blank s \<Longrightarrow> s \<noteq> [] \<Longrightarrow> word_like P w \<Longrightarrow> (\<And>c. P c \<Longrightarrow> \<not> is_space c) \<Longrightarrow>
   match_at (plus space_rx) \<lparr>behind = b, ahead = s @ w @ r, groups = g\<rparr> =
     Some \<lparr>behind = rev s @ b, ahead = w @ r, groups = g\<rparr>"
  using word_like_head [of P w r] by (intro first_spaces) auto

definition section_fields_ok :: "section_fields \<Rightarrow> bool" where
  "section_fields_ok f \<longleftrightarrow> blank (sf_pad f) \<and> word_like is_digit (sf_index f) \<and>
     word_like (\<lambda>c. \<not> is_space c) (sf_name f) \<and> word_like (\<lambda>c. \<not> is_space c) (sf_type f) \<and>
     word_like is_hex (sf_addr f) \<and> word_like is_hex (sf_off f) \<and> word_like is_hex (sf_size f) \<and>
     word_like is_hex (sf_es f) \<and> list_all is_letter (sf_flags f) \<and> word_like is_digit (sf_link f)"

definition gap_ok :: "string \<Rightarrow> bool" where
  "gap_ok s \<longleftrightarrow> blank s \<and> s \<noteq> []"

lemma section_line_matches:
  assumes f: "section_fields_ok f" and g: "gap_ok sep1" "gap_ok sep2" "gap_ok pre" "gap_ok gap"
  shows "matches_with section_rx (start_position (section_line f sep1 sep2 pre gap rest))
    [(3, sf_flags f), (2, sf_size f), (1, sf_name f)]"
proof -
  have pad: "match_at (Many space_rx) \<lparr>behind = b, ahead = w @ v @ r, groups = gr\<rparr> =
      Some \<lparr>behind = rev w @ b, ahead = v @ r, groups = gr\<rparr>"
    if "blank w" "v \<noteq> []" "\<not> is_space (hd v)" for w v b r gr
    using that unfolding space_rx_def blank_def by (intro first_many) simp_all
  note ok = f [unfolded section_fields_ok_def]
  have one: "gap_ok '' ''" by (simp add: gap_ok_def blank_def)
  have sp: "match_at (plus space_rx) \<lparr>behind = b, ahead = s @ w @ r, groups = gr\<rparr> =
      Some \<lparr>behind = rev s @ b, ahead = w @ r, groups = gr\<rparr>"
    if "gap_ok s" "word_like is_hex w \<or> word_like (\<lambda>c. \<not> is_space c) w" for s w b r gr
    using that step_space classes_disjoint(2) unfolding gap_ok_def by blast
  have hx: "match_at (plus hex_rx) \<lparr>behind = b, ahead = w @ s @ r, groups = gr\<rparr> =
      Some \<lparr>behind = rev w @ b, ahead = s @ r, groups = gr\<rparr>"
    if "gap_ok s" "word_like is_hex w" for s w b r gr
    using that step_words(2) unfolding gap_ok_def by blast
  have nm: "match_at (plus nonspace_rx) \<lparr>behind = b, ahead = w @ s @ r, groups = gr\<rparr> =
      Some \<lparr>behind = rev w @ b, ahead = s @ r, groups = gr\<rparr>"
    if "gap_ok s" "word_like (\<lambda>c. \<not> is_space c) w" for s w b r gr
    using that step_words(3) unfolding gap_ok_def by blast
  have lead: "blank ''  ''" "''['' \<noteq> []" "\<not> is_space (hd ''['')" "blank (sf_pad f)"
    "sf_index f \<noteq> []" "\<not> is_space (hd (sf_index f))" "word_like is_digit (sf_index f)"
    using ok classes_disjoint(1) by (auto simp: blank_def word_like_def list_all_iff)
  have w: "word_like is_hex (sf_name f) \<or> word_like (\<lambda>c. \<not> is_space c) (sf_name f)"
    "word_like (\<lambda>c. \<not> is_space c) (sf_name f)"
    "word_like is_hex (sf_type f) \<or> word_like (\<lambda>c. \<not> is_space c) (sf_type f)"
    "word_like (\<lambda>c. \<not> is_space c) (sf_type f)"
    "word_like is_hex (sf_addr f) \<or> word_like (\<lambda>c. \<not> is_space c) (sf_addr f)"
    "word_like is_hex (sf_off f) \<or> word_like (\<lambda>c. \<not> is_space c) (sf_off f)"
    "word_like is_hex (sf_size f) \<or> word_like (\<lambda>c. \<not> is_space c) (sf_size f)"
    "word_like is_hex (sf_es f) \<or> word_like (\<lambda>c. \<not> is_space c) (sf_es f)"
    using ok by simp_all
  have h: "word_like is_hex (sf_addr f)" "word_like is_hex (sf_off f)" "word_like is_hex (sf_size f)"
    "word_like is_hex (sf_es f)" using ok by simp_all
  have tail: "blank pre" "pre \<noteq> []" "list_all is_letter (sf_flags f)" "blank gap" "gap \<noteq> []"
    "word_like is_digit (sf_link f)" using ok g by (simp_all add: gap_ok_def)
  show ?thesis
    unfolding section_rx_def start_position_def section_line_def
    by (rule chain_with, rule pad, rule lead(1), rule lead(2), rule lead(3),
        rule chain_with, rule first_chars, rule chain_with, rule pad, rule lead(4), rule lead(5),
        rule lead(6), rule chain_with, rule step_words(1), rule lead(7),
        rule chain_with, rule first_chars, rule chain_with, rule sp, rule one, rule w(1),
        rule chain_with, rule first_group, rule nm, rule g(1), rule w(2),
        rule chain_with, rule sp, rule g(1), rule w(3), rule chain_with, rule nm, rule g(2), rule w(4),
        rule chain_with, rule sp, rule g(2), rule w(5), rule chain_with, rule hx, rule one, rule h(1),
        rule chain_with, rule sp, rule one, rule w(6), rule chain_with, rule hx, rule one, rule h(2),
        rule chain_with, rule sp, rule one, rule w(7),
        rule chain_with, rule first_group, rule hx, rule one, rule h(3),
        rule chain_with, rule sp, rule one, rule w(8), rule chain_with, rule hx, rule g(3), rule h(4),
        rule flags_with [unfolded flags_tail_def]; fact tail)
qed
section \<open>The evidence of a parsed file\<close>

lemma elf_evidence:
  assumes "parse_elf output member = Inr u" and "unit_evidence u = Some ev"
  shows "ev_references ev = {n. \<exists>l \<in> set (splitlines output). strongly_refers n l}"
    "ev_sections ev = {n. \<exists>l \<in> set (splitlines output). nonempty_section n l}"
    "ev_symbols_present ev \<longleftrightarrow> (\<exists>l \<in> set (splitlines output). symtab_section l)"
    "map_of (ev_other ev) = (\<lambda>n.
       if \<exists>l \<in> set (splitlines output). definition_of n l then Some ''definition''
       else if \<exists>l \<in> set (splitlines output). weakly_refers n l then Some ''weak reference'' else None)"
proof -
  define st where "st = fold scan_line (splitlines output) start_scan"
  have ev: "ev = \<lparr>ev_references = references st, ev_other = other_symbols st,
      ev_sections = sections st, ev_symbols_present = (symtabs st \<noteq> 0)\<rparr>"
    using assms by (auto simp: parse_elf_def Let_def empty_unit_def st_def split: if_splits)
  show "ev_references ev = {n. \<exists>l \<in> set (splitlines output). strongly_refers n l}"
    "ev_sections ev = {n. \<exists>l \<in> set (splitlines output). nonempty_section n l}"
    "ev_symbols_present ev \<longleftrightarrow> (\<exists>l \<in> set (splitlines output). symtab_section l)"
    using fold_scan_fields [of "splitlines output" start_scan]
    by (simp_all add: ev st_def start_scan_def)
  show "map_of (ev_other ev) = (\<lambda>n.
       if \<exists>l \<in> set (splitlines output). definition_of n l then Some ''definition''
       else if \<exists>l \<in> set (splitlines output). weakly_refers n l then Some ''weak reference'' else None)"
    using fold_scan_other [of "splitlines output" start_scan]
    by (auto simp: ev st_def start_scan_def fun_eq_iff)
qed

section \<open>Properties\<close>

text \<open>
  C23: a section header in readelf's wide format is read back: name, size and flags are
  the fields of the line, also when the flags column is blank, whatever the padding.
\<close>

theorem section_row_reads_line:
  assumes "section_fields_ok f" and "gap_ok sep1" "gap_ok sep2" "gap_ok pre" "gap_ok gap"
  shows "section_row (section_line f sep1 sep2 pre gap rest) =
    Some (sf_name f, sf_size f, sf_flags f)"
  using section_line_matches [OF assms, of rest]
  by (auto simp: matches_with_def section_row_def re_match_def group_def)

theorem section_row_reads_line_witness:
  "section_row (''  [ 6] .text             PROGBITS        0000000000000000 000040 0000a9 00  AX  0   0 16'') =
     Some (''.text'', ''0000a9'', ''AX'') \<and>
   section_row (''  [24] .strtab           STRTAB          0000000000000000 000a10 0001f3 00      0   0  1'') =
     Some (''.strtab'', ''0001f3'', [])"
proof -
  let ?f = "\<lparr>sf_pad = '' '', sf_index = ''6'', sf_name = ''.text'', sf_type = ''PROGBITS'',
    sf_addr = ''0000000000000000'', sf_off = ''000040'', sf_size = ''0000a9'', sf_es = ''00'',
    sf_flags = ''AX'', sf_link = ''0''\<rparr>"
  let ?g = "\<lparr>sf_pad = [], sf_index = ''24'', sf_name = ''.strtab'', sf_type = ''STRTAB'',
    sf_addr = ''0000000000000000'', sf_off = ''000a10'', sf_size = ''0001f3'', sf_es = ''00'',
    sf_flags = [], sf_link = ''0''\<rparr>"
  have ok: "section_fields_ok ?f" "section_fields_ok ?g"
    by (simp_all add: section_fields_ok_def blank_def word_like_def is_digit_def is_hex_def
        is_space_def is_letter_def is_upper_def is_lower_def code_def)
  have gaps: "gap_ok ''             ''" "gap_ok ''        ''" "gap_ok ''  ''"
    "gap_ok ''           ''" "gap_ok ''          ''" "gap_ok ''   ''"
    by (simp_all add: gap_ok_def blank_def)
  from section_row_reads_line [OF ok(1) gaps(1,2,3,3), of "''   0 16''"]
    section_row_reads_line [OF ok(2) gaps(4,5,6,6), of "''   0  1''"]
  show ?thesis by (simp add: section_line_def)
qed

text \<open>
  C14: what \<open>parse_elf\<close> returns depends only on which lines occur, not on their order:
  the strong references, the sections that are not empty, whether a symbol table exists,
  and for every other name whether it is defined (which wins over any weak reference) or
  only weakly referred to. It fails exactly for a wrong number of ELF headers or GCC LTO
  sections, and skips exactly relocatable Rust metadata without runtime sections.
\<close>

theorem parse_elf_collects:
  "let ls = splitlines output;
       lto = (\<exists>n. prefix ''.gnu.lto_'' n \<and> (\<exists>l \<in> set ls. nonempty_section n l));
       rust = ((\<exists>l \<in> set ls. re_match type_rx l \<noteq> None) \<and> (\<nexists>l. l \<in> set ls \<and> runtime_section l) \<and>
               (\<exists>l \<in> set ls. nonempty_section ''.rmeta'' l \<or> nonempty_section ''.rmeta-link'' l))
   in case parse_elf output member of
        Inl e \<Rightarrow> \<not> (count_list ls ''ELF Header:'' = 1 \<and> \<not> lto)
      | Inr u \<Rightarrow> count_list ls ''ELF Header:'' = 1 \<and> \<not> lto \<and>
          unit_member u = member \<and> unit_error u = [] \<and> (unit_skipped u \<noteq> [] \<longleftrightarrow> rust) \<and>
          (case unit_evidence u of
             None \<Rightarrow> rust
           | Some ev \<Rightarrow> \<not> rust \<and>
               ev_references ev = {n. \<exists>l \<in> set ls. strongly_refers n l} \<and>
               ev_sections ev = {n. \<exists>l \<in> set ls. nonempty_section n l} \<and>
               ev_symbols_present ev = (\<exists>l \<in> set ls. symtab_section l) \<and>
               map_of (ev_other ev) = (\<lambda>n.
                 if \<exists>l \<in> set ls. definition_of n l then Some ''definition''
                 else if \<exists>l \<in> set ls. weakly_refers n l then Some ''weak reference'' else None))"
proof -
  define ls where "ls = splitlines output"
  define st where "st = fold scan_line ls start_scan"
  have f: "references st = {n. \<exists>l \<in> set ls. strongly_refers n l}"
    "sections st = {n. \<exists>l \<in> set ls. nonempty_section n l}"
    "header_count st = count_list ls ''ELF Header:''"
    "0 < symtabs st \<longleftrightarrow> (\<exists>l \<in> set ls. symtab_section l)"
    "has_runtime_sections st \<longleftrightarrow> (\<exists>l \<in> set ls. runtime_section l)"
    "relocatable st \<longleftrightarrow> (\<exists>l \<in> set ls. re_match type_rx l \<noteq> None)"
    using fold_scan_fields [of ls start_scan] by (simp_all add: st_def start_scan_def)
  have o: "map_of (other_symbols st) = (\<lambda>n.
      if \<exists>l \<in> set ls. definition_of n l then Some ''definition''
      else if \<exists>l \<in> set ls. weakly_refers n l then Some ''weak reference'' else None)"
    using fold_scan_other [of ls start_scan] by (auto simp: st_def start_scan_def fun_eq_iff)
  have lto: "(\<exists>name \<in> sections st. prefix ''.gnu.lto_'' name) \<longleftrightarrow>
      (\<exists>n. prefix ''.gnu.lto_'' n \<and> (\<exists>l \<in> set ls. nonempty_section n l))"
    unfolding f(2) by blast
  have rust: "relocatable st \<and> \<not> has_runtime_sections st \<and>
      (''.rmeta'' \<in> sections st \<or> ''.rmeta-link'' \<in> sections st) \<longleftrightarrow>
      (\<exists>l \<in> set ls. re_match type_rx l \<noteq> None) \<and> (\<nexists>l. l \<in> set ls \<and> runtime_section l) \<and>
      (\<exists>l \<in> set ls. nonempty_section ''.rmeta'' l \<or> nonempty_section ''.rmeta-link'' l)"
    unfolding f by blast
  show ?thesis
    unfolding parse_elf_def ls_def [symmetric] st_def [symmetric] Let_def
    unfolding lto rust f(3)
    by (simp add: f(1,2,4) o empty_unit_def)
qed

end
