(* ===== verification/Evidence_Checks.thy ===== *)
theory Evidence_Checks
  imports Elf_Evidence "HOL-Library.List_Lexorder" "HOL-Library.Char_ord"
begin

text \<open>
  The table \<open>CHECKS\<close> of \<open>check_build.py\<close>, \<open>detect\<close> and \<open>policy_failed\<close>: which names
  count as evidence for an instrumentation, which of the four states a check has for the
  evidence of one ELF file, and when that state violates an expectation.
\<close>

section \<open>The table\<close>

definition FORTIFY_FUNCTIONS :: "string list" where
  "FORTIFY_FUNCTIONS =
    [''asprintf'', ''confstr'', ''dprintf'', ''explicit_bzero'', ''fdelt'', ''fgets'',
     ''fgets_unlocked'', ''fgetws'', ''fgetws_unlocked'', ''fprintf'', ''fread'',
     ''fread_unlocked'', ''fwprintf'', ''getcwd'', ''getdomainname'', ''getgroups'',
     ''gethostname'', ''getlogin_r'', ''gets'', ''getwd'', ''longjmp'', ''mbsnrtowcs'',
     ''mbsrtowcs'', ''mbstowcs'', ''memcpy'', ''memmove'', ''mempcpy'', ''memset'',
     ''obstack_printf'', ''obstack_vprintf'', ''poll'', ''ppoll'', ''pread'', ''pread64'',
     ''printf'', ''read'', ''readlink'', ''readlinkat'', ''realpath'', ''recv'', ''recvfrom'',
     ''snprintf'', ''sprintf'', ''stpcpy'', ''stpncpy'', ''strcat'', ''strcpy'', ''strncat'',
     ''strncpy'', ''swprintf'', ''syslog'', ''ttyname_r'', ''vasprintf'', ''vdprintf'',
     ''vfprintf'', ''vfwprintf'', ''vprintf'', ''vsnprintf'', ''vsprintf'', ''vswprintf'',
     ''vsyslog'', ''vwprintf'', ''wcrtomb'', ''wcpcpy'', ''wcpncpy'', ''wcsnrtombs'',
     ''wcsrtombs'', ''wcstombs'', ''wcscat'', ''wcscpy'', ''wcsncat'', ''wcsncpy'', ''wctomb'',
     ''wmemcpy'', ''wmemmove'', ''wmempcpy'', ''wmemset'', ''wprintf'']"

definition stack_protector_rx :: rx where
  "stack_protector_rx = Seq (chars ''__stack_chk_'')
     (alts [Seq (chars ''fail'') (opt (chars ''_local'')), chars ''guard''])"

definition fortify_rx :: rx where
  "fortify_rx = alts [
     seqs [chars ''__'', opt (chars ''nldbl___''), alts (map chars FORTIFY_FUNCTIONS),
       chars ''_chk'', opt (chars ''ieee128'')],
     seqs [chars ''__open'', opt (alts [chars ''64'', chars ''at'', chars ''at64'']), chars ''_2'']]"

definition asan_rx :: rx where
  "asan_rx = Seq (chars ''__asan_'') (alts [chars ''init'',
     Seq (chars ''report_'') any_text, Seq (chars ''load'') any_text, Seq (chars ''store'') any_text,
     Seq (chars ''stack_'') any_text, Seq (chars ''register_'') any_text,
     Seq (chars ''unregister_'') any_text, chars ''memcpy'', chars ''memmove'', chars ''memset''])"

definition ubsan_rx :: rx where
  "ubsan_rx = Seq (chars ''__ubsan_handle_'') any_text"

definition tsan_rx :: rx where
  "tsan_rx = Seq (chars ''__tsan_'') (alts [chars ''init'',
     Seq (chars ''read'') any_text, Seq (chars ''write'') any_text, Seq (chars ''atomic'') any_text,
     chars ''func_entry'', chars ''func_exit'', Seq (chars ''vptr_'') any_text])"

definition msan_rx :: rx where
  "msan_rx = Seq (chars ''__msan_'') any_text"

definition sancov_rx :: rx where
  "sancov_rx = Seq (chars ''__sanitizer_cov_'') (alts [
     Seq (chars ''trace_pc'') (opt (chars ''_guard'')), chars ''trace_pc_guard_init'',
     chars ''8bit_counters_init'', chars ''bool_flag_init''])"

definition sancov_cmp_rx :: rx where
  "sancov_cmp_rx = Seq (chars ''__sanitizer_cov_trace_'') (alts [
     seqs [opt (chars ''const_''), chars ''cmp'', Cls (\<lambda>c. c \<in> set ''1248'')], chars ''switch''])"

definition sancov_section_rx :: rx where
  "sancov_section_rx = Seq (chars ''__sancov_'') (alts [chars ''cntrs'', chars ''guards'', chars ''bools''])"

definition llvm_profile_rx :: rx where
  "llvm_profile_rx = Seq (chars ''__llvm_prf_'') (alts [chars ''cnts'', chars ''bits''])"

text \<open>Each check has a symbol pattern and a section pattern; \<open>None\<close> matches nothing.\<close>

definition CHECKS :: "(string \<times> rx option \<times> rx option) list" where
  "CHECKS = [
     (''stack_protector'', Some stack_protector_rx, None),
     (''fortify'', Some fortify_rx, None),
     (''asan'', Some asan_rx, Some (chars ''asan_globals'')),
     (''ubsan'', Some ubsan_rx, None),
     (''tsan'', Some tsan_rx, None),
     (''msan'', Some msan_rx, None),
     (''sancov'', Some sancov_rx, Some sancov_section_rx),
     (''sancov_cmp'', Some sancov_cmp_rx, None),
     (''sancov_pc_table'', Some (chars ''__sanitizer_cov_pcs_init''), Some (chars ''__sancov_pcs'')),
     (''llvm_profile'', None, Some llvm_profile_rx),
     (''source_coverage'', None, Some (chars ''__llvm_covmap'')),
     (''libfuzzer'', Some (chars ''LLVMFuzzerRunDriver''), None)]"

definition check_names :: "string list" where
  "check_names = map fst CHECKS"

definition MODES :: "string list" where
  "MODES = [''present'', ''absent'', ''ignore'']"

definition LEGACY_MODES :: "(string \<times> string) list" where
  "LEGACY_MODES = [(''require'', ''present''), (''forbid'', ''absent''), (''report'', ''ignore'')]"

datatype state = Found | Symbol_Only | Not_Seen | Unknown

definition STATES :: "state list" where
  "STATES = [Found, Symbol_Only, Not_Seen, Unknown]"

fun state_text :: "state \<Rightarrow> string" where
  "state_text Found = ''FOUND''"
| "state_text Symbol_Only = ''SYMBOL-ONLY''"
| "state_text Not_Seen = ''NOT-SEEN''"
| "state_text Unknown = ''UNKNOWN''"

section \<open>detect and policy_failed\<close>

text \<open>\<open>sorted(name for name in names if pattern and re.fullmatch(pattern, name))\<close>\<close>

definition matching :: "rx option \<Rightarrow> string set \<Rightarrow> string list" where
  "matching pattern names = (case pattern of
     None \<Rightarrow> []
   | Some r \<Rightarrow> sorted_list_of_set (Set.filter (re_fullmatch r) names))"

definition reason_text :: "string \<Rightarrow> string \<Rightarrow> string" where
  "reason_text name why = name @ '' ('' @ why @ '')''"

definition detect :: "string \<Rightarrow> evidence \<Rightarrow> state \<times> string" where
  "detect check ev =
     (let (symbol_pattern, section_pattern) = the (map_of CHECKS check) in
      case matching section_pattern (ev_sections ev) of
        n # _ \<Rightarrow> (Found, reason_text n ''section'')
      | [] \<Rightarrow>
     (case matching symbol_pattern (ev_references ev) of
        n # _ \<Rightarrow> (Found, reason_text n ''reference'')
      | [] \<Rightarrow>
     (case matching symbol_pattern (fst ` set (ev_other ev)) of
        n # _ \<Rightarrow>
          let reason = the (map_of (ev_other ev) n)
          in (if check = ''libfuzzer'' \<and> reason = ''definition'' then Found else Symbol_Only,
              reason_text n reason)
      | [] \<Rightarrow>
          if \<not> ev_symbols_present ev then (Unknown, ''symbol table unavailable'')
          else (Not_Seen, ''no matching evidence''))))"

definition policy_failed :: "string \<Rightarrow> state \<Rightarrow> bool" where
  "policy_failed mode s \<longleftrightarrow>
     (mode = ''present'' \<and> s \<noteq> Found) \<or> (mode = ''absent'' \<and> s \<noteq> Not_Seen)"

section \<open>Which names match\<close>

definition finite_evidence :: "evidence \<Rightarrow> bool" where
  "finite_evidence ev \<longleftrightarrow> finite (ev_references ev) \<and> finite (ev_sections ev)"

definition some_match :: "rx option \<Rightarrow> string set \<Rightarrow> bool" where
  "some_match pattern names \<longleftrightarrow> (case pattern of None \<Rightarrow> False | Some r \<Rightarrow> \<exists>n \<in> names. re_fullmatch r n)"

lemma matching_Nil: "finite names \<Longrightarrow> matching pattern names = [] \<longleftrightarrow> \<not> some_match pattern names"
  by (auto simp: matching_def some_match_def split: option.splits)

lemma matching_first:
  "finite names \<Longrightarrow> matching pattern names = n # ns \<Longrightarrow>
   n \<in> names \<and> (\<forall>r. pattern = Some r \<longrightarrow> re_fullmatch r n \<and>
     (\<forall>m \<in> names. re_fullmatch r m \<longrightarrow> n \<le> m))"
proof -
  assume fin: "finite names" and m: "matching pattern names = n # ns"
  then obtain r where r: "pattern = Some r" "sorted_list_of_set (Set.filter (re_fullmatch r) names) = n # ns"
    by (auto simp: matching_def split: option.splits)
  have "finite (Set.filter (re_fullmatch r) names)" using fin by simp
  then have s: "set (n # ns) = Set.filter (re_fullmatch r) names" and o: "sorted (n # ns)"
    unfolding r(2) [symmetric] by simp_all
  have "n \<in> Set.filter (re_fullmatch r) names" using s by auto
  moreover have "n \<le> m" if "m \<in> Set.filter (re_fullmatch r) names" for m
    using that s o by auto
  ultimately show ?thesis using r(1) by auto
qed

lemma detect_state:
  assumes "finite_evidence ev" and "map_of CHECKS check = Some (sy, se)"
  shows "fst (detect check ev) =
    (if some_match se (ev_sections ev) \<or> some_match sy (ev_references ev) then Found
     else if some_match sy (fst ` set (ev_other ev)) then
       (if check = ''libfuzzer'' \<and> map_of (ev_other ev) ''LLVMFuzzerRunDriver'' = Some ''definition''
        then Found else Symbol_Only)
     else if ev_symbols_present ev then Not_Seen else Unknown)"
proof -
  have fin: "finite (ev_sections ev)" "finite (ev_references ev)" "finite (fst ` set (ev_other ev))"
    using assms(1) by (simp_all add: finite_evidence_def)
  note nil = fin [THEN matching_Nil]
  have driver: "n = ''LLVMFuzzerRunDriver'' \<and> map_of (ev_other ev) n \<noteq> None"
    if "check = ''libfuzzer''" "matching sy (fst ` set (ev_other ev)) = n # ns" for n ns
  proof -
    have "sy = Some (chars ''LLVMFuzzerRunDriver'')"
      using assms(2) that(1) by (simp add: CHECKS_def)
    with matching_first [OF fin(3) that(2)]
    have n: "n \<in> fst ` set (ev_other ev)" and "re_fullmatch (chars ''LLVMFuzzerRunDriver'') n"
      by blast+
    from this(2) have "n = ''LLVMFuzzerRunDriver''" by (simp add: fullmatch_lang)
    moreover have "map_of (ev_other ev) n \<noteq> None" using n by (simp add: map_of_eq_None_iff)
    ultimately show ?thesis by blast
  qed
  have reason: "check = ''libfuzzer'' \<and> the (map_of (ev_other ev) n) = ''definition'' \<longleftrightarrow>
      check = ''libfuzzer'' \<and> map_of (ev_other ev) ''LLVMFuzzerRunDriver'' = Some ''definition''"
    if "matching sy (fst ` set (ev_other ev)) = n # ns" for n ns
    using driver [OF _ that] by auto
  show ?thesis
  proof (cases "matching se (ev_sections ev)")
    case (Cons n ns)
    then have "some_match se (ev_sections ev)" using nil(1) [of se] by simp
    with Cons show ?thesis by (simp add: detect_def assms(2))
  next
    case Nil
    then have no_section: "\<not> some_match se (ev_sections ev)" using nil(1) by simp
    show ?thesis
    proof (cases "matching sy (ev_references ev)")
      case (Cons n ns)
      then have "some_match sy (ev_references ev)" using nil(2) [of sy] by simp
      with Nil Cons show ?thesis by (simp add: detect_def assms(2))
    next
      case no_ref: Nil
      then have no_reference: "\<not> some_match sy (ev_references ev)" using nil(2) by simp
      show ?thesis
      proof (cases "matching sy (fst ` set (ev_other ev))")
        case (Cons n ns)
        then have "some_match sy (fst ` set (ev_other ev))" using nil(3) [of sy] by simp
        with Nil no_ref Cons no_section no_reference reason [OF Cons] show ?thesis
          by (simp add: detect_def assms(2) Let_def)
      next
        case none: Nil
        then have "\<not> some_match sy (fst ` set (ev_other ev))" using nil(3) by simp
        with Nil no_ref none no_section no_reference show ?thesis
          by (simp add: detect_def assms(2))
      qed
    qed
  qed
qed

lemma driver_matches:
  assumes "map_of CHECKS check = Some (sy, se)" and "check = ''libfuzzer''"
    and "map_of (ev_other ev) ''LLVMFuzzerRunDriver'' = Some v"
  shows "some_match sy (fst ` set (ev_other ev))"
proof -
  have "sy = Some (chars ''LLVMFuzzerRunDriver'')"
    using assms(1,2) by (simp add: CHECKS_def)
  moreover have "''LLVMFuzzerRunDriver'' \<in> fst ` set (ev_other ev)"
    using map_of_SomeD [OF assms(3)] by force
  ultimately show ?thesis by (simp add: some_match_def fullmatch_lang)
qed

lemma check_known: "check \<in> set check_names \<Longrightarrow> \<exists>sy se. map_of CHECKS check = Some (sy, se)"
  by (cases "map_of CHECKS check") (auto simp: check_names_def map_of_eq_None_iff)

lemma parse_elf_finite:
  assumes "parse_elf output member = Inr u" and "unit_evidence u = Some ev"
  shows "finite_evidence ev"
proof -
  have fin: "finite (references (fold scan_line ls st)) \<and> finite (sections (fold scan_line ls st))"
    if "finite (references st) \<and> finite (sections st)" for ls st
    using that
  proof (induction ls arbitrary: st)
    case (Cons l ls)
    have "{n. strongly_refers n l} \<subseteq> {snd (snd (snd (the (symbol_row l))))}"
      "{n. nonempty_section n l} \<subseteq> {fst (the (section_row l))}"
      by (auto simp: strongly_refers_def counts_as_def nonempty_section_def split: option.splits)
    then have "finite {n. strongly_refers n l}" "finite {n. nonempty_section n l}"
      by (auto intro: finite_subset)
    with Cons show ?case by simp
  qed simp
  from assms fin [of start_scan] show ?thesis
    by (auto simp: parse_elf_def Let_def empty_unit_def finite_evidence_def start_scan_def
        split: if_splits)
qed

section \<open>Properties\<close>

text \<open>
  C13: an expectation accepts no inconclusive evidence. For every check of the table,
  "present" is met exactly by a strong reference or a nonempty section whose whole name
  matches, or by the definition of the libFuzzer driver; "absent" exactly when there is a
  symbol table and no section, reference, weak reference or definition matches. Weak
  references and definitions of a sanitizer runtime alone violate both.
\<close>

theorem policy_needs_conclusive_evidence:
  assumes "finite_evidence ev" and "map_of CHECKS check = Some (sy, se)"
  shows "(\<not> policy_failed ''present'' (fst (detect check ev)) \<longleftrightarrow>
      some_match se (ev_sections ev) \<or> some_match sy (ev_references ev) \<or>
      check = ''libfuzzer'' \<and> map_of (ev_other ev) ''LLVMFuzzerRunDriver'' = Some ''definition'') \<and>
    (\<not> policy_failed ''absent'' (fst (detect check ev)) \<longleftrightarrow>
      ev_symbols_present ev \<and> \<not> some_match se (ev_sections ev) \<and>
      \<not> some_match sy (ev_references ev) \<and> \<not> some_match sy (fst ` set (ev_other ev))) \<and>
    \<not> policy_failed ''ignore'' (fst (detect check ev))"
  unfolding detect_state [OF assms] policy_failed_def using driver_matches [OF assms(2)] by auto

definition weak_asan :: evidence where
  "weak_asan = \<lparr>ev_references = {''main''}, ev_other = [(''__asan_init'', ''weak reference'')],
     ev_sections = {''.text''}, ev_symbols_present = True\<rparr>"

theorem policy_needs_conclusive_evidence_witness:
  "policy_failed ''present'' (fst (detect ''asan'' weak_asan)) \<and>
   policy_failed ''absent'' (fst (detect ''asan'' weak_asan))"
proof -
  have c: "map_of CHECKS ''asan'' = Some (Some asan_rx, Some (chars ''asan_globals''))"
    by (simp add: CHECKS_def)
  have f: "finite_evidence weak_asan" by (simp add: finite_evidence_def weak_asan_def)
  have "re_fullmatch asan_rx ''__asan_init''" "\<not> re_fullmatch asan_rx ''main''"
    "\<not> re_fullmatch (chars ''asan_globals'') ''.text''"
    by (simp_all add: fullmatch_lang asan_rx_def)
  with policy_needs_conclusive_evidence [OF f c] show ?thesis
    by (simp add: weak_asan_def some_match_def)
qed

text \<open>A middle part with an optional prefix and suffix around it.\<close>

lemma framed_lang:
  "lang (seqs [chars a, opt (chars b), r, chars c, opt (chars d)]) =
     {name. \<exists>pre f suf. f \<in> lang r \<and> pre \<in> {[], b} \<and> suf \<in> {[], d} \<and> name = a @ pre @ f @ c @ suf}"
  by (auto simp: set_eq_iff) (metis append_Nil append_Nil2)+

text \<open>
  C19: the fortify check counts whole names only: a symbol matches exactly when it is
  __f_chk, possibly with the nldbl prefix or the ieee128 suffix, for a function f of the
  list, or one of the four checked open functions.
\<close>

theorem fortify_matches_whole_names:
  "re_fullmatch fortify_rx name \<longleftrightarrow>
     (\<exists>pre f suf. f \<in> set FORTIFY_FUNCTIONS \<and> pre \<in> {[], ''nldbl___''} \<and> suf \<in> {[], ''ieee128''} \<and>
        name = ''__'' @ pre @ f @ ''_chk'' @ suf) \<or>
     name \<in> {''__open_2'', ''__open64_2'', ''__openat_2'', ''__openat64_2''}"
proof -
  have r: "regular fortify_rx"
    by (simp add: fortify_rx_def list_all_iff)
  have a: "lang (seqs [chars ''__'', opt (chars ''nldbl___''), alts (map chars FORTIFY_FUNCTIONS),
       chars ''_chk'', opt (chars ''ieee128'')]) =
     {name. \<exists>pre f suf. f \<in> set FORTIFY_FUNCTIONS \<and> pre \<in> {[], ''nldbl___''} \<and>
        suf \<in> {[], ''ieee128''} \<and> name = ''__'' @ pre @ f @ ''_chk'' @ suf}" (is "_ = ?A")
    unfolding framed_lang lang_alts by simp
  have b: "lang (seqs [chars ''__open'', opt (alts [chars ''64'', chars ''at'', chars ''at64'']), chars ''_2'']) =
      {''__open_2'', ''__open64_2'', ''__openat_2'', ''__openat64_2''}"
    by auto
  have "lang fortify_rx = ?A \<union> {''__open_2'', ''__open64_2'', ''__openat_2'', ''__openat64_2''}"
    unfolding fortify_rx_def lang_alts using a b by (simp del: lang.simps seqs.simps)
  then show ?thesis unfolding fullmatch_lang [OF r] by blast
qed

text \<open>
  C16: from the text of readelf to the verdict "absent": the expectation is met exactly
  when the table of sections lists a symbol table and no line of the output names
  matching code, be it a nonempty section, a definition, or a strong or weak reference.
\<close>

theorem absent_means_no_line:
  assumes "parse_elf output member = Inr u" and "unit_evidence u = Some ev"
    and "map_of CHECKS check = Some (sy, se)"
  shows "\<not> policy_failed ''absent'' (fst (detect check ev)) \<longleftrightarrow>
    (let ls = set (splitlines output)
     in (\<exists>l \<in> ls. symtab_section l) \<and>
        (\<nexists>l n. l \<in> ls \<and> nonempty_section n l \<and> some_match se {n}) \<and>
        (\<nexists>l n. l \<in> ls \<and> some_match sy {n} \<and>
           (strongly_refers n l \<or> weakly_refers n l \<or> definition_of n l)))"
proof -
  let ?ls = "set (splitlines output)"
  note c = elf_evidence [OF assms(1,2)]
  have o: "n \<in> fst ` set (ev_other ev) \<longleftrightarrow> (\<exists>l \<in> ?ls. definition_of n l \<or> weakly_refers n l)" for n
  proof -
    have "n \<in> fst ` set (ev_other ev) \<longleftrightarrow> map_of (ev_other ev) n \<noteq> None"
      by (simp add: map_of_eq_None_iff)
    then show ?thesis unfolding c(4) by auto
  qed
  have m: "some_match p A \<longleftrightarrow> (\<exists>n \<in> A. some_match p {n})" for p A
    by (cases p) (auto simp: some_match_def)
  have "\<not> policy_failed ''absent'' (fst (detect check ev)) \<longleftrightarrow>
      ev_symbols_present ev \<and> \<not> some_match se (ev_sections ev) \<and>
      \<not> some_match sy (ev_references ev) \<and> \<not> some_match sy (fst ` set (ev_other ev))"
    unfolding detect_state [OF parse_elf_finite [OF assms(1,2)] assms(3)] policy_failed_def by auto
  also have "\<dots> \<longleftrightarrow> (let ls = ?ls
     in (\<exists>l \<in> ls. symtab_section l) \<and>
        (\<nexists>l n. l \<in> ls \<and> nonempty_section n l \<and> some_match se {n}) \<and>
        (\<nexists>l n. l \<in> ls \<and> some_match sy {n} \<and>
           (strongly_refers n l \<or> weakly_refers n l \<or> definition_of n l)))"
    unfolding Let_def m [of _ "ev_sections ev"] m [of _ "ev_references ev"]
      m [of _ "fst ` set (ev_other ev)"]
    unfolding Bex_def o c(1-3) mem_Collect_eq by blast
  finally show ?thesis .
qed

theorem absent_means_no_line_witness:
  "\<exists>u ev. parse_elf ''ELF Header:'' [] = Inr u \<and> unit_evidence u = Some ev \<and>
     policy_failed ''absent'' (fst (detect ''msan'' ev))"
proof -
  let ?ev = "\<lparr>ev_references = {}, ev_other = [], ev_sections = {}, ev_symbols_present = False\<rparr>"
  have s: "splitlines ''ELF Header:'' = [''ELF Header:'']" by code_simp
  have r: "section_row ''ELF Header:'' = None" "symbol_row ''ELF Header:'' = None"
    by code_simp+
  have p: "parse_elf ''ELF Header:'' [] = Inr (empty_unit\<lparr>unit_evidence := Some ?ev\<rparr>)"
    by (simp add: parse_elf_def s scan_line_def scan_symbol_def scan_section_def scan_type_def
        scan_header_def r start_scan_def empty_unit_def)
  have "map_of CHECKS ''msan'' = Some (Some msan_rx, None)" by (simp add: CHECKS_def)
  from absent_means_no_line [OF p _ this, of ?ev] r show ?thesis
    using p by (simp add: s symtab_section_def)
qed

end
