(* ===== verification/Glob.thy ===== *)
theory Glob
  imports Py_Text
begin

text \<open>
  \<open>fnmatch.fnmatchcase\<close>, which the build checker uses for exclusions and for the
  path rules of its configuration: \<open>*\<close>, \<open>?\<close> and bracket expressions over the whole
  name, case-sensitive, with no special treatment of the slash.
\<close>

section \<open>Patterns\<close>

text \<open>
  Bracket items are single characters and ranges; a range whose ends are in the wrong
  order matches nothing. (A bracket that starts with such a range followed by an
  exclamation mark is the one form where Python's translation departs from this.)
\<close>

datatype bracket_item = Single char | Range char char

datatype glob_item = Star | Any_Char | Exactly char | Bracket bool "bracket_item list"

fun bracket_items :: "string \<Rightarrow> bracket_item list" where
  "bracket_items (a # m # b # rest) =
     (if m = CHR ''-'' then Range a b # bracket_items rest
      else Single a # bracket_items (m # b # rest))"
| "bracket_items (a # rest) = Single a # bracket_items rest"
| "bracket_items [] = []"

text \<open>
  The inside of a bracket that opens before \<open>s\<close>, and what follows its end: a leading
  exclamation mark negates, and a closing bracket in first place belongs to the set.
\<close>

definition bracket_body :: "string \<Rightarrow> (bool \<times> string \<times> string) option" where
  "bracket_body s =
     (let neg = (s \<noteq> [] \<and> hd s = CHR ''!'');
          t = (if neg then tl s else s);
          first = (if t \<noteq> [] \<and> hd t = CHR '']'' then 1 else 0);
          body = take first t @ takeWhile (\<lambda>c. c \<noteq> CHR '']'') (drop first t);
          rest = drop (length body) t
      in if rest = [] then None else Some (neg, body, tl rest))"

lemma bracket_body_shorter:
  "bracket_body s = Some (neg, body, rest) \<Longrightarrow> length rest < length s"
  by (auto simp: bracket_body_def Let_def split: if_splits)

function parse_glob :: "string \<Rightarrow> glob_item list" where
  "parse_glob [] = []"
| "parse_glob (c # cs) =
     (if c = CHR ''*'' then Star # parse_glob cs
      else if c = CHR ''?'' then Any_Char # parse_glob cs
      else if c = CHR ''['' then
        (case bracket_body cs of
           None \<Rightarrow> Exactly c # parse_glob cs
         | Some (neg, body, rest) \<Rightarrow> Bracket neg (bracket_items body) # parse_glob rest)
      else Exactly c # parse_glob cs)"
  by pat_completeness auto
termination
  by (relation "measure length") (auto dest: bracket_body_shorter)

section \<open>Matching\<close>

fun in_item :: "char \<Rightarrow> bracket_item \<Rightarrow> bool" where
  "in_item c (Single d) = (c = d)"
| "in_item c (Range a b) = (code a \<le> code c \<and> code c \<le> code b)"

fun item_matches :: "glob_item \<Rightarrow> char \<Rightarrow> bool" where
  "item_matches Star c = False"
| "item_matches Any_Char c = True"
| "item_matches (Exactly d) c = (c = d)"
| "item_matches (Bracket neg items) c = (list_ex (in_item c) items \<noteq> neg)"

fun glob_match :: "glob_item list \<Rightarrow> string \<Rightarrow> bool" where
  "glob_match [] s = (s = [])"
| "glob_match (Star # gs) [] = glob_match gs []"
| "glob_match (Star # gs) (c # cs) = (glob_match gs (c # cs) \<or> glob_match (Star # gs) cs)"
| "glob_match (g # gs) [] = False"
| "glob_match (g # gs) (c # cs) = (item_matches g c \<and> glob_match gs cs)"

definition fnmatchcase :: "string \<Rightarrow> string \<Rightarrow> bool" where
  "fnmatchcase name pattern = glob_match (parse_glob pattern) name"

section \<open>What patterns match\<close>

lemma glob_match_star: "glob_match (Star # gs) s \<longleftrightarrow> (\<exists>u v. s = u @ v \<and> glob_match gs v)"
proof (induction s)
  case Nil
  then show ?case by simp
next
  case (Cons c s)
  show ?case
  proof
    assume "glob_match (Star # gs) (c # s)"
    then consider "glob_match gs (c # s)" | "glob_match (Star # gs) s" by auto
    then show "\<exists>u v. c # s = u @ v \<and> glob_match gs v"
    proof cases
      case 1
      then show ?thesis by (intro exI [of _ "[]"] exI [of _ "c # s"]) simp
    next
      case 2
      then obtain u v where "s = u @ v" "glob_match gs v" using Cons.IH by auto
      then show ?thesis by (intro exI [of _ "c # u"] exI [of _ v]) simp
    qed
  next
    assume "\<exists>u v. c # s = u @ v \<and> glob_match gs v"
    then obtain u v where uv: "c # s = u @ v" "glob_match gs v" by auto
    then show "glob_match (Star # gs) (c # s)"
      using Cons.IH by (cases u) auto
  qed
qed

lemma glob_match_one:
  "g \<noteq> Star \<Longrightarrow> glob_match (g # gs) s \<longleftrightarrow> (\<exists>c cs. s = c # cs \<and> item_matches g c \<and> glob_match gs cs)"
  by (cases g; cases s) auto

definition meta_free :: "string \<Rightarrow> bool" where
  "meta_free s \<longleftrightarrow> list_all (\<lambda>c. c \<noteq> CHR ''*'' \<and> c \<noteq> CHR ''?'' \<and> c \<noteq> CHR ''['') s"

lemma parse_glob_literal: "meta_free p \<Longrightarrow> parse_glob (p @ q) = map Exactly p @ parse_glob q"
  by (induction p) (auto simp: meta_free_def)

lemma glob_match_literal: "glob_match (map Exactly p @ gs) s \<longleftrightarrow> (\<exists>v. s = p @ v \<and> glob_match gs v)"
  by (induction p arbitrary: s) (auto simp: glob_match_one)

lemma fnmatch_literal: "meta_free p \<Longrightarrow> fnmatchcase name p \<longleftrightarrow> name = p"
  using parse_glob_literal [of p "[]"] glob_match_literal [of p "[]" name]
  by (simp add: fnmatchcase_def)

lemma fnmatch_star_suffix: "meta_free p \<Longrightarrow> fnmatchcase name (CHR ''*'' # p) \<longleftrightarrow> (\<exists>u. name = u @ p)"
  using parse_glob_literal [of p "[]"] glob_match_literal [of p "[]"]
  by (simp add: fnmatchcase_def glob_match_star del: glob_match.simps(2,3))

lemma fnmatch_prefix_star: "meta_free p \<Longrightarrow> fnmatchcase name (p @ ''*'') \<longleftrightarrow> (\<exists>u. name = p @ u)"
  using parse_glob_literal [of p "''*''"] glob_match_literal [of p "[Star]" name]
  by (simp add: fnmatchcase_def glob_match_star del: glob_match.simps(2,3))

end
