(* ===== verification/Posix_Path.thy ===== *)
theory Posix_Path
  imports Py_Text "HOL-Library.Sublist"
begin

text \<open>
  The part of \<open>pathlib\<close> and \<open>os.path\<close> the build checker computes with, without looking
  at any file: parsing, joining, printing, parents, suffixes and relative paths.
\<close>

section \<open>Paths\<close>

text \<open>\<open>s.split(c)\<close> for one separator character\<close>

fun split_on :: "char \<Rightarrow> string \<Rightarrow> string list" where
  "split_on c [] = [[]]"
| "split_on c (x # xs) =
     (if x = c then [] # split_on c xs
      else (x # hd (split_on c xs)) # tl (split_on c xs))"

record path =
  absolute :: bool
  parts :: "string list"

definition plain_part :: "string \<Rightarrow> bool" where
  "plain_part p \<longleftrightarrow> p \<noteq> [] \<and> p \<noteq> ''.'' \<and> CHR ''/'' \<notin> set p"

definition parse_path :: "string \<Rightarrow> path" where
  "parse_path s =
     \<lparr>absolute = (case s of [] \<Rightarrow> False | c # _ \<Rightarrow> c = CHR ''/''),
      parts = filter (\<lambda>p. p \<noteq> [] \<and> p \<noteq> ''.'') (split_on CHR ''/'' s)\<rparr>"

abbreviation join_parts :: "string list \<Rightarrow> string" where
  "join_parts \<equiv> join ''/''"

text \<open>\<open>str(path)\<close>\<close>

definition path_text :: "path \<Rightarrow> string" where
  "path_text p =
     (if absolute p then ''/'' @ join_parts (parts p)
      else if parts p = [] then ''.'' else join_parts (parts p))"

text \<open>\<open>path / name\<close>: an absolute name replaces the path.\<close>

definition join_path :: "path \<Rightarrow> string \<Rightarrow> path" where
  "join_path p name =
     (let q = parse_path name
      in if absolute q then q else p\<lparr>parts := parts p @ parts q\<rparr>)"

definition parent :: "path \<Rightarrow> path" where
  "parent p = p\<lparr>parts := butlast (parts p)\<rparr>"

definition path_name :: "path \<Rightarrow> string" where
  "path_name p = (if parts p = [] then [] else last (parts p))"

text \<open>\<open>path.suffix\<close>: from the last dot on, unless the name begins or ends with that dot.\<close>

definition suffix_of :: "string \<Rightarrow> string" where
  "suffix_of name =
     (let tail = rev (takeWhile (\<lambda>c. c \<noteq> CHR ''.'') (rev name));
          stem = length name - length tail - 1
      in if CHR ''.'' \<in> set name \<and> 0 < stem \<and> tail \<noteq> [] then ''.'' @ tail else [])"

section \<open>Relative paths\<close>

text \<open>\<open>os.path.normpath\<close> on the parts: a part \<open>..\<close> takes back the part before it.\<close>

definition norm_step :: "bool \<Rightarrow> string list \<Rightarrow> string \<Rightarrow> string list" where
  "norm_step rooted done_parts p =
     (if p \<noteq> ''..'' then done_parts @ [p]
      else if done_parts = [] then (if rooted then [] else [''..''])
      else if last done_parts = ''..'' then done_parts @ [''..'']
      else butlast done_parts)"

definition normalize :: "path \<Rightarrow> path" where
  "normalize p = p\<lparr>parts := foldl (norm_step (absolute p)) [] (parts p)\<rparr>"

text \<open>
  \<open>os.path.relpath(path, start)\<close> of two absolute paths. It goes up from the start to the
  longest common part and then down to the path.
\<close>

definition relative_parts :: "string list \<Rightarrow> string list \<Rightarrow> string list" where
  "relative_parts ps start =
     (let common = length (longest_common_prefix ps start)
      in replicate (length start - common) ''..'' @ drop common ps)"

definition relpath :: "path \<Rightarrow> path \<Rightarrow> path" where
  "relpath p start =
     \<lparr>absolute = False,
      parts = relative_parts (parts (normalize p)) (parts (normalize start))\<rparr>"

section \<open>Facts\<close>

lemma split_on_nonempty [simp]: "split_on c s \<noteq> []"
  by (cases s) auto

lemma split_on_append:
  "c \<notin> set p \<Longrightarrow> split_on c (p @ c # s) = p # split_on c s"
  by (induction p) auto

lemma split_on_single: "c \<notin> set p \<Longrightarrow> split_on c p = [p]"
  by (induction p) auto

lemma split_on_parts: "p \<in> set (split_on c s) \<Longrightarrow> c \<notin> set p"
proof (induction c s arbitrary: p rule: split_on.induct)
  case (2 c x xs)
  show ?case
  proof (cases "x = c")
    case False
    have "hd (split_on c xs) \<in> set (split_on c xs)" by simp
    with 2 False show ?thesis
      by (auto dest: list.set_sel(2) [OF split_on_nonempty])
  qed (use 2 in auto)
qed simp

lemma join_split: "list_all plain_part ps \<Longrightarrow> ps \<noteq> [] \<Longrightarrow> split_on CHR ''/'' (join_parts ps) = ps"
  by (induction ps rule: induct_list012)
    (auto simp: plain_part_def split_on_single split_on_append)

definition plain_path :: "path \<Rightarrow> bool" where
  "plain_path p \<longleftrightarrow> list_all plain_part (parts p)"

lemma parse_path_plain: "plain_path (parse_path s)"
  using split_on_parts [of _ "CHR ''/''" s]
  by (auto simp: plain_path_def parse_path_def list_all_iff plain_part_def)

lemma filter_plain: "list_all plain_part ps \<Longrightarrow> filter (\<lambda>p. p \<noteq> [] \<and> p \<noteq> ''.'') ps = ps"
  by (induction ps) (auto simp: plain_part_def)

text \<open>Printing a path and parsing it again gives the path back.\<close>

lemma parse_path_text:
  assumes "plain_path p"
  shows "parse_path (path_text p) = p"
proof (cases "parts p = []")
  case True
  then show ?thesis
    by (cases p) (auto simp: path_text_def parse_path_def)
next
  case False
  then obtain q ps where q: "parts p = q # ps" by (cases "parts p") auto
  with assms have "plain_part q" by (simp add: plain_path_def)
  then obtain c cs where c: "q = c # cs" "c \<noteq> CHR ''/''" by (cases q) (auto simp: plain_part_def)
  then have hd: "\<exists>r. join_parts (parts p) = c # r" using q by (cases ps) auto
  have s: "split_on CHR ''/'' (join_parts (parts p)) = parts p"
    using assms False by (intro join_split) (simp_all add: plain_path_def)
  show ?thesis
    using s hd c assms False
    by (cases p) (auto simp: path_text_def parse_path_def filter_plain plain_path_def)
qed

text \<open>Following a relative path from its start leads back to the path.\<close>

definition clean_parts :: "string list \<Rightarrow> bool" where
  "clean_parts ps \<longleftrightarrow> ''..'' \<notin> set ps"

lemma norm_clean: "clean_parts ps \<Longrightarrow> foldl (norm_step r) acc ps = acc @ ps"
  by (induction ps arbitrary: acc) (auto simp: clean_parts_def norm_step_def)

lemma norm_up: "clean_parts acc \<Longrightarrow> n \<le> length acc \<Longrightarrow>
   foldl (norm_step r) acc (replicate n ''..'') = take (length acc - n) acc"
proof (induction n arbitrary: acc)
  case (Suc n)
  then have ne: "acc \<noteq> []" by auto
  then have l: "last acc \<noteq> ''..''"
    using Suc.prems(1) last_in_set [OF ne] unfolding clean_parts_def by metis
  have c: "clean_parts (butlast acc)"
    using Suc.prems(1) by (auto simp: clean_parts_def dest: in_set_butlastD)
  have "foldl (norm_step r) acc (replicate (Suc n) ''..'') =
      foldl (norm_step r) (butlast acc) (replicate n ''..'')"
    using ne l by (simp add: norm_step_def)
  also have "\<dots> = take (length (butlast acc) - n) (butlast acc)"
    using c Suc.prems(2) by (intro Suc.IH) auto
  also have "\<dots> = take (length acc - Suc n) acc"
    by (simp add: butlast_conv_take)
  finally show ?case .
qed simp

lemma relative_leads_back:
  assumes "clean_parts ps" and "clean_parts start"
  shows "foldl (norm_step r) [] (start @ relative_parts ps start) = ps"
proof -
  define l where "l = longest_common_prefix ps start"
  have "prefix l ps" "prefix l start"
    by (simp_all add: l_def longest_common_prefix_prefix1 longest_common_prefix_prefix2)
  then have t: "take (length l) start = l" "length l \<le> length start" "l @ drop (length l) ps = ps"
    by (auto simp: prefix_def)
  have d: "clean_parts (drop (length l) ps)"
    using assms(1) by (auto simp: clean_parts_def dest: in_set_dropD)
  show ?thesis
    using assms(2) d t
    by (simp add: relative_parts_def Let_def norm_clean norm_up flip: l_def)
qed

text \<open>
  Resolved paths, as \<open>Path.resolve\<close> gives them: absolute, without empty, dot and
  dot-dot parts. Different ones have different texts relative to the same start.
\<close>

definition resolved_path :: "path \<Rightarrow> bool" where
  "resolved_path p \<longleftrightarrow> absolute p \<and> plain_path p \<and> clean_parts (parts p)"

lemma normalize_clean: "clean_parts (parts p) \<Longrightarrow> normalize p = p"
  by (cases p) (simp add: normalize_def norm_clean)

lemma resolved_parent: "resolved_path p \<Longrightarrow> resolved_path (parent p)"
  by (cases p)
    (auto simp: resolved_path_def parent_def clean_parts_def plain_path_def list_all_iff
      dest: in_set_butlastD)

lemma relpath_resolved:
  "resolved_path p \<Longrightarrow> resolved_path start \<Longrightarrow>
   relpath p start = \<lparr>absolute = False, parts = relative_parts (parts p) (parts start)\<rparr>"
  by (simp add: relpath_def resolved_path_def normalize_clean)

lemma relative_parts_plain:
  "list_all plain_part ps \<Longrightarrow> list_all plain_part (relative_parts ps start)"
  unfolding relative_parts_def Let_def list_all_iff
  by (fastforce simp: plain_part_def dest: in_set_dropD)

lemma relpath_inj:
  assumes "resolved_path p" and "resolved_path q" and "resolved_path start"
    and "path_text (relpath p start) = path_text (relpath q start)"
  shows "p = q"
proof -
  have "plain_path (relpath r start)" if "resolved_path r" for r
    using that assms(3)
    by (simp add: relpath_resolved plain_path_def relative_parts_plain resolved_path_def)
  then have "relpath p start = relpath q start"
    using parse_path_text assms(1,2,4) by metis
  then have r: "relative_parts (parts p) (parts start) = relative_parts (parts q) (parts start)"
    by (simp add: relpath_resolved assms(1-3))
  have c: "clean_parts (parts p)" "clean_parts (parts q)" "clean_parts (parts start)"
    using assms(1-3) by (simp_all add: resolved_path_def)
  have "parts p = parts q"
    using relative_leads_back [OF c(1,3), of True] relative_leads_back [OF c(2,3), of True]
    unfolding r by simp
  then show ?thesis using assms(1,2) by (cases p; cases q) (simp add: resolved_path_def)
qed

end
