(* ===== verification/Ini_File.thy ===== *)
theory Ini_File
  imports Py_Text "HOL-Library.AList"
begin

text \<open>
  How \<open>configparser\<close> reads an INI file, with the settings the build checker uses: no
  interpolation, duplicates are errors, indented lines continue a value, and lines that
  start with a hash sign or a semicolon are comments. An error is a \<open>ConfigError\<close> with
  the name of the exception.
\<close>

section \<open>The file as read\<close>

type_synonym options = "(string \<times> string) list"

record ini =
  ini_defaults :: options
  ini_sections :: "(string \<times> options) list"



definition lower_char :: "char \<Rightarrow> char" where
  "lower_char c =
     (if is_upper c \<or> (192 \<le> code c \<and> code c \<le> 222 \<and> code c \<noteq> 215) then char_of (code c + 32) else c)"

definition lower :: "string \<Rightarrow> string" where
  "lower s = map lower_char s"

definition rstrip :: "string \<Rightarrow> string" where
  "rstrip s = rev (dropWhile is_space (rev s))"

text \<open>The lines of a text, as iterating over the file gives them, without their ends.\<close>

fun file_lines_from :: "string \<Rightarrow> string \<Rightarrow> string list" where
  "file_lines_from cur [] = (if cur = [] then [] else [rev cur])"
| "file_lines_from cur (c # cs) =
     (if c = newline then rev cur # file_lines_from [] cs else file_lines_from (c # cur) cs)"

definition file_lines :: "string \<Rightarrow> string list" where
  "file_lines s = file_lines_from [] s"

section \<open>One line\<close>

text \<open>\<open>\[(?P<header>.+)\]\<close>: up to the last closing bracket.\<close>

definition section_header :: "string \<Rightarrow> string option" where
  "section_header value =
     (case value of
        [] \<Rightarrow> None
      | c # s \<Rightarrow>
          let h = butlast (rev (dropWhile (\<lambda>d. d \<noteq> CHR '']'') (rev s)))
          in if c = CHR ''['' \<and> CHR '']'' \<in> set s \<and> h \<noteq> [] then Some h else None)"

definition delimiter :: "char \<Rightarrow> bool" where
  "delimiter c \<longleftrightarrow> c = CHR ''='' \<or> c = CHR '':''"

text \<open>The name before the first delimiter and the value after it.\<close>

definition option_line :: "string \<Rightarrow> (string \<times> string) option" where
  "option_line value =
     (if \<exists>c \<in> set value. delimiter c
      then Some (rstrip (takeWhile (\<lambda>c. \<not> delimiter c) value),
                 strip (tl (dropWhile (\<lambda>c. \<not> delimiter c) value)))
      else None)"

definition comment_line :: "string \<Rightarrow> bool" where
  "comment_line line \<longleftrightarrow> (case strip line of [] \<Rightarrow> False | c # _ \<Rightarrow> c = CHR ''#'' \<or> c = CHR '';'')"

definition indentation :: "string \<Rightarrow> nat" where
  "indentation line = length (takeWhile is_space line)"

section \<open>The reader\<close>

type_synonym raw_options = "(string \<times> string list) list"

text \<open>
  The current section is None before the first header, and \<open>Some None\<close> for the
  defaults. An empty option name counts as none, as in the conditions of the code.
\<close>

record reader =
  raw_defaults :: raw_options
  raw_sections :: "(string \<times> raw_options) list"
  cur_section :: "string option option"
  cur_option :: string
  indent_level :: nat
  bogus :: bool

definition start_reader :: reader where
  "start_reader = \<lparr>raw_defaults = [], raw_sections = [], cur_section = None, cur_option = [],
     indent_level = 0, bogus = False\<rparr>"

definition DEFAULT :: string where "DEFAULT = ''DEFAULT''"

definition cur_options :: "reader \<Rightarrow> raw_options" where
  "cur_options r = (case cur_section r of
     None \<Rightarrow> []
   | Some None \<Rightarrow> raw_defaults r
   | Some (Some s) \<Rightarrow> the (map_of (raw_sections r) s))"

definition put_options :: "raw_options \<Rightarrow> reader \<Rightarrow> reader" where
  "put_options opts r = (case cur_section r of
     None \<Rightarrow> r
   | Some None \<Rightarrow> r\<lparr>raw_defaults := opts\<rparr>
   | Some (Some s) \<Rightarrow> r\<lparr>raw_sections := AList.update s opts (raw_sections r)\<rparr>)"

definition append_line :: "string \<Rightarrow> reader \<Rightarrow> reader" where
  "append_line value r =
     (let opts = cur_options r; k = cur_option r
      in put_options (AList.update k (the (map_of opts k) @ [value]) opts) r)"

definition enter_section :: "string \<Rightarrow> reader \<Rightarrow> reader result" where
  "enter_section s r =
     (if s \<in> fst ` set (raw_sections r) then Inl (ConfigError ''DuplicateSectionError'')
      else if s = DEFAULT then Inr (r\<lparr>cur_section := Some None, cur_option := []\<rparr>)
      else Inr (r\<lparr>raw_sections := raw_sections r @ [(s, [])], cur_section := Some (Some s),
                  cur_option := []\<rparr>))"

definition enter_option :: "string \<Rightarrow> string \<Rightarrow> reader \<Rightarrow> reader result" where
  "enter_option name value r =
     (let r1 = (if name = [] then r\<lparr>bogus := True\<rparr> else r);
          k = lower name
      in if k \<in> fst ` set (cur_options r1) then Inl (ConfigError ''DuplicateOptionError'')
         else Inr ((put_options (cur_options r1 @ [(k, [value])]) r1)\<lparr>cur_option := k\<rparr>))"

definition read_line :: "string \<Rightarrow> reader \<Rightarrow> reader result" where
  "read_line line r =
     (let value = (if comment_line line then [] else strip line)
      in if value = [] then
           Inr (if \<not> comment_line line \<and> cur_section r \<noteq> None \<and> cur_option r \<noteq> []
                then append_line [] r else r)
         else if cur_section r \<noteq> None \<and> cur_option r \<noteq> [] \<and> indent_level r < indentation line
         then Inr (append_line value r)
         else
           let r1 = r\<lparr>indent_level := indentation line\<rparr>
           in case section_header value of
                Some s \<Rightarrow> enter_section s r1
              | None \<Rightarrow>
                  if cur_section r1 = None then Inl (ConfigError ''MissingSectionHeaderError'')
                  else (case option_line value of
                          Some (name, v) \<Rightarrow> enter_option name v r1
                        | None \<Rightarrow> Inr (r1\<lparr>bogus := True\<rparr>)))"

fun read_lines :: "string list \<Rightarrow> reader \<Rightarrow> reader result" where
  "read_lines [] r = Inr r"
| "read_lines (l # ls) r = bind_result (read_line l r) (read_lines ls)"

definition finish_options :: "raw_options \<Rightarrow> options" where
  "finish_options opts = map (\<lambda>(k, vs). (k, rstrip (join [newline] vs))) opts"

definition parse_ini :: "string \<Rightarrow> ini result" where
  "parse_ini text =
     bind_result (read_lines (file_lines text) start_reader) (\<lambda>r.
       if bogus r then Inl (ConfigError ''ParsingError'')
       else Inr \<lparr>ini_defaults = finish_options (raw_defaults r),
                 ini_sections = map (\<lambda>(s, opts). (s, finish_options opts)) (raw_sections r)\<rparr>)"

section \<open>The reader's invariant\<close>

definition distinct_keys :: "('a \<times> 'b) list \<Rightarrow> bool" where
  "distinct_keys xs \<longleftrightarrow> distinct (map fst xs)"

text \<open>
  Names occur once, the current section exists, and so does the current option in it: the
  look-ups of \<open>append_line\<close> always find something.
\<close>

definition reader_ok :: "reader \<Rightarrow> bool" where
  "reader_ok r \<longleftrightarrow>
     distinct_keys (raw_sections r) \<and> DEFAULT \<notin> fst ` set (raw_sections r) \<and>
     list_all (\<lambda>(s, opts). distinct_keys opts) (raw_sections r) \<and> distinct_keys (raw_defaults r) \<and>
     (case cur_section r of
        None \<Rightarrow> cur_option r = []
      | Some None \<Rightarrow> True
      | Some (Some s) \<Rightarrow> s \<in> fst ` set (raw_sections r)) \<and>
     (cur_option r = [] \<or> cur_option r \<in> fst ` set (cur_options r))"

lemma cur_options_updates [simp]:
  "cur_options (r\<lparr>bogus := b\<rparr>) = cur_options r" "cur_options (r\<lparr>indent_level := n\<rparr>) = cur_options r"
  "cur_options (r\<lparr>cur_option := k\<rparr>) = cur_options r"
  by (simp_all add: cur_options_def split: option.split)

lemma reader_ok_updates [simp]:
  "reader_ok (r\<lparr>bogus := b\<rparr>) = reader_ok r" "reader_ok (r\<lparr>indent_level := n\<rparr>) = reader_ok r"
  by (simp_all add: reader_ok_def split: option.split)

lemma start_reader_ok: "reader_ok start_reader"
  by (simp add: reader_ok_def start_reader_def distinct_keys_def)

lemma update_keys_set: "fst ` set (AList.update k v xs) = insert k (fst ` set xs)"
  using dom_update [of k v xs] by (simp add: dom_map_of_conv_image_fst)

lemma update_all:
  "list_all (\<lambda>(k, v). P v) xs \<Longrightarrow> P v \<Longrightarrow> list_all (\<lambda>(k, v). P v) (AList.update k v xs)"
  by (induction xs) auto

lemma distinct_keys_update: "distinct_keys xs \<Longrightarrow> distinct_keys (AList.update k v xs)"
  by (simp add: distinct_keys_def distinct_update)

lemma distinct_keys_snoc:
  "distinct_keys xs \<Longrightarrow> k \<notin> fst ` set xs \<Longrightarrow> distinct_keys (xs @ [(k, v)])"
  by (simp add: distinct_keys_def)

lemma cur_options_put:
  "cur_section r \<noteq> None \<Longrightarrow> cur_options (put_options opts r) = opts"
  by (auto simp: cur_options_def put_options_def map_of_eq_None_iff AList.update_conv'
      split: option.splits)

lemma put_options_fields [simp]:
  "cur_section (put_options opts r) = cur_section r" "cur_option (put_options opts r) = cur_option r"
  "indent_level (put_options opts r) = indent_level r" "bogus (put_options opts r) = bogus r"
  by (simp_all add: put_options_def split: option.splits)

lemma cur_options_distinct: "reader_ok r \<Longrightarrow> distinct_keys (cur_options r)"
proof (cases "cur_section r")
  case (Some x)
  assume ok: "reader_ok r"
  show ?thesis
  proof (cases x)
    case None
    with Some ok show ?thesis by (simp add: cur_options_def reader_ok_def)
  next
    case (Some s)
    with \<open>cur_section r = Some x\<close> ok have "s \<in> fst ` set (raw_sections r)"
      by (simp add: reader_ok_def)
    then obtain opts where m: "map_of (raw_sections r) s = Some opts"
      using map_of_eq_None_iff [of "raw_sections r" s] by auto
    then have "(s, opts) \<in> set (raw_sections r)" by (rule map_of_SomeD)
    with ok have "distinct_keys opts" by (auto simp: reader_ok_def list_all_iff)
    with \<open>cur_section r = Some x\<close> Some m show ?thesis by (simp add: cur_options_def)
  qed
qed (simp add: cur_options_def distinct_keys_def)

text \<open>Replacing the options of the current section keeps the invariant.\<close>

lemma put_options_ok:
  assumes "reader_ok r" and "distinct_keys opts" and "cur_section r \<noteq> None"
    and "k = [] \<or> k \<in> fst ` set opts"
  shows "reader_ok ((put_options opts r)\<lparr>cur_option := k\<rparr>)"
proof -
  let ?r = "(put_options opts r)\<lparr>cur_option := k\<rparr>"
  obtain x where x: "cur_section r = Some x" using assms(3) by blast
  have c: "cur_options ?r = opts"
    using cur_options_put [OF assms(3), of opts] by simp
  show ?thesis
  proof (cases x)
    case None
    with assms x c show ?thesis
      by (simp add: reader_ok_def put_options_def)
  next
    case (Some s)
    have "s \<in> fst ` set (raw_sections r)" using assms(1) x Some by (simp add: reader_ok_def)
    moreover have "list_all (\<lambda>(s, opts). distinct_keys opts) (AList.update s opts (raw_sections r))"
      using assms(1,2) by (intro update_all) (simp_all add: reader_ok_def)
    ultimately show ?thesis
      using assms x c Some
      by (auto simp: reader_ok_def put_options_def update_keys_set distinct_keys_update)
  qed
qed

lemma append_line_ok:
  assumes "reader_ok r" and "cur_section r \<noteq> None" and "cur_option r \<noteq> []"
  shows "reader_ok (append_line value r)"
proof -
  let ?opts = "AList.update (cur_option r) (the (map_of (cur_options r) (cur_option r)) @ [value]) (cur_options r)"
  have "reader_ok ((put_options ?opts r)\<lparr>cur_option := cur_option r\<rparr>)"
    using assms cur_options_distinct [OF assms(1)]
    by (intro put_options_ok) (simp_all add: distinct_keys_update update_keys_set)
  moreover have "(put_options ?opts r)\<lparr>cur_option := cur_option r\<rparr> = put_options ?opts r"
    by (simp add: put_options_def split: option.splits)
  ultimately show ?thesis by (simp add: append_line_def Let_def)
qed

lemma enter_section_ok:
  assumes "reader_ok r" and "enter_section s r = Inr r'"
  shows "reader_ok r'"
proof (cases "s = DEFAULT")
  case True
  with assms show ?thesis
    by (auto simp: enter_section_def reader_ok_def split: if_splits)
next
  case False
  with assms show ?thesis
    by (auto simp: enter_section_def reader_ok_def distinct_keys_def split: if_splits)
qed

lemma enter_option_ok:
  assumes "reader_ok r" and "cur_section r \<noteq> None" and "enter_option name value r = Inr r'"
  shows "reader_ok r'"
proof -
  let ?r = "if name = [] then r\<lparr>bogus := True\<rparr> else r"
  have ok: "reader_ok ?r" using assms(1) by simp
  have k: "lower name \<notin> fst ` set (cur_options ?r)"
    and r': "r' = (put_options (cur_options ?r @ [(lower name, [value])]) ?r)\<lparr>cur_option := lower name\<rparr>"
    using assms(3) by (auto simp: enter_option_def Let_def split: if_splits)
  show ?thesis
    unfolding r' using ok k assms(2) cur_options_distinct [OF ok]
    by (intro put_options_ok) (auto simp: distinct_keys_snoc)
qed

lemma read_line_ok:
  assumes "reader_ok r" and "read_line line r = Inr r'"
  shows "reader_ok r'"
proof -
  from assms(1) have i: "reader_ok (r\<lparr>indent_level := indentation line\<rparr>)" by simp
  from assms show ?thesis
    by (auto simp: read_line_def Let_def append_line_ok intro: enter_section_ok [OF i] enter_option_ok [OF i]
        split: if_splits option.splits)
qed

lemma read_lines_ok: "reader_ok r \<Longrightarrow> read_lines ls r = Inr r' \<Longrightarrow> reader_ok r'"
  by (induction ls r rule: read_lines.induct) (auto simp: bind_result_eq_Inr dest: read_line_ok)

text \<open>In the file as read, every section occurs once and every option once in it.\<close>

lemma parse_ini_distinct:
  assumes "parse_ini text = Inr c"
  shows "distinct_keys (ini_sections c)" and "distinct_keys (ini_defaults c)"
    and "list_all (\<lambda>(s, opts). distinct_keys opts) (ini_sections c)"
    and "DEFAULT \<notin> fst ` set (ini_sections c)"
proof -
  from assms obtain r where r: "read_lines (file_lines text) start_reader = Inr r"
    and c: "c = \<lparr>ini_defaults = finish_options (raw_defaults r),
                 ini_sections = map (\<lambda>(s, opts). (s, finish_options opts)) (raw_sections r)\<rparr>"
    by (auto simp: parse_ini_def bind_result_eq_Inr split: if_splits)
  have ok: "reader_ok r" by (rule read_lines_ok [OF start_reader_ok r])
  have f: "map fst (finish_options opts) = map fst opts" for opts
    by (simp add: finish_options_def split_beta)
  have g: "map fst (map (\<lambda>(s, opts). (s, finish_options opts)) xs) = map fst xs" for xs
    by (simp add: split_beta)
  show "distinct_keys (ini_sections c)" "distinct_keys (ini_defaults c)"
    using ok by (simp_all add: c reader_ok_def distinct_keys_def f g del: map_map)
  show "list_all (\<lambda>(s, opts). distinct_keys opts) (ini_sections c)"
    using ok by (auto simp: c reader_ok_def distinct_keys_def f list_all_iff)
  show "DEFAULT \<notin> fst ` set (ini_sections c)"
    using ok by (auto simp: c reader_ok_def image_image split_beta)
qed

section \<open>Files in plain layout\<close>

text \<open>
  A file as the documentation lays it out: section headers, options as \<open>name = value\<close>,
  and the further lines of a value indented below it.
\<close>

definition option_lines :: "string \<times> string list \<Rightarrow> string list" where
  "option_lines = (\<lambda>(k, vs). (k @ '' = '' @ hd vs) # map (\<lambda>l. ''    '' @ l) (tl vs))"

definition section_lines :: "string \<times> raw_options \<Rightarrow> string list" where
  "section_lines = (\<lambda>(s, opts). (''['' @ s @ '']'') # concat (map option_lines opts))"

definition ini_text :: "(string \<times> raw_options) list \<Rightarrow> string" where
  "ini_text ss = unlines (concat (map section_lines ss))"

definition trimmed :: "string \<Rightarrow> bool" where
  "trimmed s \<longleftrightarrow> s \<noteq> [] \<and> \<not> is_space (hd s) \<and> \<not> is_space (last s) \<and> newline \<notin> set s"

definition starts_comment :: "string \<Rightarrow> bool" where
  "starts_comment s \<longleftrightarrow> s \<noteq> [] \<and> (hd s = CHR ''#'' \<or> hd s = CHR '';'')"

definition plain_option :: "string \<times> string list \<Rightarrow> bool" where
  "plain_option = (\<lambda>(k, vs).
     trimmed k \<and> \<not> starts_comment k \<and> hd k \<noteq> CHR ''['' \<and> \<not> (\<exists>c \<in> set k. delimiter c) \<and> lower k = k \<and>
     vs \<noteq> [] \<and> (hd vs = [] \<or> trimmed (hd vs)) \<and>
     list_all (\<lambda>l. trimmed l \<and> \<not> starts_comment l) (tl vs))"

definition plain_section :: "string \<times> raw_options \<Rightarrow> bool" where
  "plain_section = (\<lambda>(s, opts). s \<noteq> [] \<and> s \<noteq> DEFAULT \<and> newline \<notin> set s \<and>
     distinct_keys opts \<and> list_all plain_option opts)"

lemma dropWhile_blank: "list_all P b \<Longrightarrow> dropWhile P (b @ s) = dropWhile P s"
  by (induction b) auto

lemma strip_around:
  assumes "list_all is_space a" and "list_all is_space b" and "trimmed s"
  shows "strip (a @ s @ b) = s"
proof -
  obtain c cs where s: "s = c # cs" "\<not> is_space c" using assms(3) by (cases s) (auto simp: trimmed_def)
  obtain d ds where r: "rev s = d # ds" "\<not> is_space d"
    using assms(3) by (cases "rev s") (auto simp: trimmed_def hd_rev simp flip: hd_rev)
  have "dropWhile is_space (a @ s @ b) = s @ b" using assms(1) s by (simp add: dropWhile_blank)
  moreover have "dropWhile is_space (rev (s @ b)) = rev s"
    using assms(2) r by (simp add: dropWhile_blank list_all_rev)
  ultimately show ?thesis by (simp add: strip_def)
qed

lemmas strip_trimmed = strip_around [of "[]" "[]", simplified]

lemma rstrip_after:
  assumes "list_all is_space b" and "s = [] \<or> \<not> is_space (last s)"
  shows "rstrip (s @ b) = s"
proof -
  have "dropWhile is_space (rev s) = rev s"
    using assms(2) by (cases "rev s") (auto simp: hd_rev [symmetric] simp flip: hd_rev)
  then show ?thesis using assms(1) by (simp add: rstrip_def dropWhile_blank list_all_rev)
qed

lemma file_lines_unlines:
  assumes "list_all (\<lambda>l. newline \<notin> set l) ls"
  shows "file_lines (unlines ls) = ls"
proof -
  have one: "file_lines_from cur (l @ newline # rest) = (rev cur @ l) # file_lines_from [] rest"
    if "newline \<notin> set l" for cur l rest
    using that by (induction l arbitrary: cur) auto
  show ?thesis using assms
    by (induction ls) (auto simp: file_lines_def one [where cur = "[]", simplified])
qed

lemma space_chars [simp]: "is_space CHR '' ''" "\<not> is_space CHR ''[''" "\<not> is_space CHR '']''"
  "\<not> is_space CHR ''=''" "CHR ''['' \<noteq> newline" "CHR '']'' \<noteq> newline" "CHR '' '' \<noteq> newline" "CHR ''='' \<noteq> newline"
  "newline \<noteq> CHR ''[''" "newline \<noteq> CHR '']''" "newline \<noteq> CHR '' ''" "newline \<noteq> CHR ''=''"
  by (simp_all add: is_space_def code_def newline_def)

lemma read_header:
  assumes "s \<noteq> []" and "newline \<notin> set s" and "s \<noteq> DEFAULT" and "s \<notin> fst ` set (raw_sections r)"
  shows "read_line (''['' @ s @ '']'') r = Inr (r\<lparr>indent_level := 0,
    raw_sections := raw_sections r @ [(s, [])], cur_section := Some (Some s), cur_option := []\<rparr>)"
proof -
  let ?l = "''['' @ s @ '']''"
  have v: "strip ?l = ?l" using assms by (intro strip_trimmed) (simp add: trimmed_def)
  have "section_header ?l = Some s" using assms(1) by (simp add: section_header_def)
  moreover have "\<not> comment_line ?l" unfolding comment_line_def v by simp
  moreover have "indentation ?l = 0" by (simp add: indentation_def)
  ultimately show ?thesis
    unfolding read_line_def v Let_def using assms(3,4) by (simp add: enter_section_def)
qed

text \<open>The reader inside a section, after its options so far.\<close>

definition in_section :: "(string \<times> raw_options) list \<Rightarrow> string \<Rightarrow> raw_options \<Rightarrow> string \<Rightarrow> reader" where
  "in_section pre s opts k = start_reader\<lparr>raw_sections := pre @ [(s, opts)],
     cur_section := Some (Some s), cur_option := k\<rparr>"

lemma update_last: "k \<notin> fst ` set xs \<Longrightarrow> AList.update k v (xs @ [(k, w)]) = xs @ [(k, v)]"
  by (induction xs) auto

lemma map_of_last: "k \<notin> fst ` set xs \<Longrightarrow> ([k \<mapsto> w] ++ map_of xs) k = Some w"
proof -
  assume "k \<notin> fst ` set xs"
  then have "map_of xs k = None" by (simp add: map_of_eq_None_iff)
  then show ?thesis by (simp add: map_add_def)
qed

lemma in_section_fields [simp]:
  "cur_section (in_section pre s opts k) = Some (Some s)" "cur_option (in_section pre s opts k) = k"
  "indent_level (in_section pre s opts k) = 0" "bogus (in_section pre s opts k) = False"
  "raw_sections (in_section pre s opts k) = pre @ [(s, opts)]"
  "raw_defaults (in_section pre s opts k) = []"
  "(in_section pre s opts k)\<lparr>indent_level := 0\<rparr> = in_section pre s opts k"
  by (simp_all add: in_section_def start_reader_def)

lemma in_section_options:
  "s \<notin> fst ` set pre \<Longrightarrow> cur_options (in_section pre s opts k) = opts"
  "s \<notin> fst ` set pre \<Longrightarrow> (put_options opts' (in_section pre s opts k))\<lparr>cur_option := k'\<rparr> = in_section pre s opts' k'"
  by (simp_all add: cur_options_def put_options_def update_last map_of_last in_section_def)

lemma read_key:
  assumes "trimmed k" and "\<not> starts_comment k" and "hd k \<noteq> CHR ''[''" and "\<not> (\<exists>c \<in> set k. delimiter c)"
    and "lower k = k" and "first = [] \<or> trimmed first"
    and "k \<notin> fst ` set opts" and "s \<notin> fst ` set pre"
  shows "read_line (k @ '' = '' @ first) (in_section pre s opts k0) =
    Inr (in_section pre s (opts @ [(k, [first])]) k)"
proof -
  let ?l = "k @ '' = '' @ first"
  obtain c cs where k: "k = c # cs" using assms(1) by (cases k) (auto simp: trimmed_def)
  have c: "\<not> is_space c" "c \<noteq> CHR ''[''" "c \<noteq> CHR ''#''" "c \<noteq> CHR '';''"
    using assms(1-3) by (auto simp: k trimmed_def starts_comment_def)
  define v where "v = (if first = [] then k @ '' ='' else ?l)"
  have "strip (v @ (if first = [] then '' '' else [])) = v"
    using strip_around [of "[]" "if first = [] then '' '' else []" v] assms(1,6)
    by (auto simp: v_def trimmed_def)
  moreover have "v @ (if first = [] then '' '' else []) = ?l" by (simp add: v_def)
  ultimately have v: "strip ?l = v" by simp
  have vc: "\<exists>vs. v = c # vs" by (simp add: v_def k)
  then have no_comment: "\<not> comment_line ?l" and no_header: "section_header v = None" and ne: "v \<noteq> []"
    unfolding comment_line_def v using c by (auto simp: section_header_def Let_def)
  have indent: "indentation ?l = 0" using c by (simp add: indentation_def k)
  have d: "delimiter CHR ''=''" "\<not> delimiter CHR '' ''" by (simp_all add: delimiter_def)
  have "v = (k @ '' '') @ CHR ''='' # (if first = [] then [] else CHR '' '' # first)"
    by (simp add: v_def)
  then have "takeWhile (\<lambda>c. \<not> delimiter c) v = k @ '' ''"
    "dropWhile (\<lambda>c. \<not> delimiter c) v = CHR ''='' # (if first = [] then [] else CHR '' '' # first)"
    "\<exists>c \<in> set v. delimiter c"
    using assms(4) d by (simp_all add: takeWhile_append dropWhile_append)
  moreover have "rstrip (k @ '' '') = k" using assms(1) by (intro rstrip_after) (auto simp: trimmed_def)
  moreover have "strip (if first = [] then [] else CHR '' '' # first) = first"
    using assms(6) strip_around [of "'' ''" "[]" first] by (auto simp: strip_def)
  ultimately have "option_line v = Some (k, first)" by (simp add: option_line_def)
  then show ?thesis
    unfolding read_line_def v Let_def using no_comment no_header ne indent assms(5,7,8) k
    by (simp add: enter_option_def in_section_options Let_def)
qed

lemma read_continuation:
  assumes "trimmed l" and "\<not> starts_comment l" and "k \<noteq> []"
    and "k \<notin> fst ` set opts" and "s \<notin> fst ` set pre"
  shows "read_line (''    '' @ l) (in_section pre s (opts @ [(k, vs)]) k) =
    Inr (in_section pre s (opts @ [(k, vs @ [l])]) k)"
proof -
  have v: "strip (''    '' @ l) = l"
    using strip_around [of "''    ''" "[]" l] assms(1) by simp
  have "l \<noteq> []" "\<not> comment_line (''    '' @ l)"
    using assms(1,2) unfolding comment_line_def v by (auto simp: trimmed_def starts_comment_def split: list.splits)
  moreover have "0 < indentation (''    '' @ l)" by (simp add: indentation_def)
  moreover have "append_line l (in_section pre s (opts @ [(k, vs)]) k) =
      in_section pre s (opts @ [(k, vs @ [l])]) k"
    using assms(4,5)
    by (simp add: append_line_def in_section_options(1) map_of_last update_last)
      (simp add: put_options_def in_section_def start_reader_def update_last)
  ultimately show ?thesis unfolding read_line_def v Let_def using assms(3) by simp
qed

lemma read_lines_append:
  "read_lines (xs @ ys) r = bind_result (read_lines xs r) (read_lines ys)"
proof (induction xs arbitrary: r)
  case (Cons x xs)
  then show ?case by (cases "read_line x r") simp_all
qed simp

lemma read_continuations:
  assumes "list_all (\<lambda>l. trimmed l \<and> \<not> starts_comment l) ls" and "k \<noteq> []"
    and "k \<notin> fst ` set opts" and "s \<notin> fst ` set pre"
  shows "read_lines (map (\<lambda>l. ''    '' @ l) ls) (in_section pre s (opts @ [(k, vs)]) k) =
    Inr (in_section pre s (opts @ [(k, vs @ ls)]) k)"
  using assms(1)
proof (induction ls arbitrary: vs)
  case (Cons l ls)
  then have "read_line (''    '' @ l) (in_section pre s (opts @ [(k, vs)]) k) =
      Inr (in_section pre s (opts @ [(k, vs @ [l])]) k)"
    using assms(2-4) by (intro read_continuation) simp_all
  with Cons show ?case by simp
qed simp

lemma read_option:
  assumes "plain_option (k, vs)" and "k \<notin> fst ` set opts" and "s \<notin> fst ` set pre"
  shows "read_lines (option_lines (k, vs)) (in_section pre s opts k0) =
    Inr (in_section pre s (opts @ [(k, vs)]) k)"
proof -
  obtain v ls where vs: "vs = v # ls" using assms(1) by (cases vs) (auto simp: plain_option_def)
  have "k \<noteq> []" using assms(1) by (auto simp: plain_option_def trimmed_def)
  have "read_line (k @ '' = '' @ v) (in_section pre s opts k0) = Inr (in_section pre s (opts @ [(k, [v])]) k)"
    using assms by (intro read_key) (auto simp: plain_option_def vs)
  moreover have "read_lines (map (\<lambda>l. ''    '' @ l) ls) (in_section pre s (opts @ [(k, [v])]) k) =
      Inr (in_section pre s (opts @ [(k, [v] @ ls)]) k)"
    using assms \<open>k \<noteq> []\<close> by (intro read_continuations) (auto simp: plain_option_def vs)
  ultimately show ?thesis by (simp add: option_lines_def vs)
qed

lemma read_options:
  assumes "list_all plain_option os" and "distinct_keys (opts @ os)" and "s \<notin> fst ` set pre"
  shows "\<exists>k. read_lines (concat (map option_lines os)) (in_section pre s opts k0) =
    Inr (in_section pre s (opts @ os) k)"
  using assms(1,2)
proof (induction os arbitrary: opts k0)
  case (Cons x os)
  obtain k vs where x: "x = (k, vs)" by (cases x)
  have "read_lines (option_lines (k, vs)) (in_section pre s opts k0) =
      Inr (in_section pre s (opts @ [(k, vs)]) k)"
    using Cons.prems assms(3) by (intro read_option) (auto simp: x distinct_keys_def)
  moreover have "\<exists>k'. read_lines (concat (map option_lines os)) (in_section pre s (opts @ [(k, vs)]) k) =
      Inr (in_section pre s ((opts @ [(k, vs)]) @ os) k')"
    using Cons.prems by (intro Cons.IH) (simp_all add: x)
  ultimately show ?case by (simp add: x read_lines_append)
qed auto

text \<open>The reader between sections.\<close>

definition between :: "(string \<times> raw_options) list \<Rightarrow> reader \<Rightarrow> bool" where
  "between pre r \<longleftrightarrow> raw_sections r = pre \<and> raw_defaults r = [] \<and> \<not> bogus r"

lemma read_section:
  assumes "plain_section (s, opts)" and "s \<notin> fst ` set pre" and "between pre r"
  shows "\<exists>r'. read_lines (section_lines (s, opts)) r = Inr r' \<and> between (pre @ [(s, opts)]) r'"
proof -
  have "read_line (''['' @ s @ '']'') r = Inr (r\<lparr>indent_level := 0,
      raw_sections := pre @ [(s, [])], cur_section := Some (Some s), cur_option := []\<rparr>)"
    using read_header [of s r] assms by (simp add: plain_section_def between_def)
  also have "r\<lparr>indent_level := 0, raw_sections := pre @ [(s, [])], cur_section := Some (Some s),
      cur_option := []\<rparr> = in_section pre s [] []"
    using assms(3) by (cases r) (simp add: between_def in_section_def start_reader_def)
  finally have h: "read_line (''['' @ s @ '']'') r = Inr (in_section pre s [] [])" .
  have "\<exists>k. read_lines (concat (map option_lines opts)) (in_section pre s [] []) =
      Inr (in_section pre s ([] @ opts) k)"
    using assms by (intro read_options) (simp_all add: plain_section_def)
  with h show ?thesis by (auto simp: section_lines_def between_def)
qed

lemma read_sections:
  assumes "list_all plain_section ss" and "distinct_keys (pre @ ss)" and "between pre r"
  shows "\<exists>r'. read_lines (concat (map section_lines ss)) r = Inr r' \<and> between (pre @ ss) r'"
  using assms
proof (induction ss arbitrary: pre r)
  case (Cons x ss)
  obtain s opts where x: "x = (s, opts)" by (cases x)
  obtain r1 where r1: "read_lines (section_lines (s, opts)) r = Inr r1" "between (pre @ [(s, opts)]) r1"
    using read_section [of s opts pre r] Cons.prems by (auto simp: x distinct_keys_def)
  have "\<exists>r'. read_lines (concat (map section_lines ss)) r1 = Inr r' \<and> between ((pre @ [(s, opts)]) @ ss) r'"
    using Cons.prems r1(2) by (intro Cons.IH) (simp_all add: x)
  with r1(1) show ?case by (simp add: x read_lines_append)
qed auto

lemma finish_plain:
  assumes "plain_option (k, vs)"
  shows "rstrip (join [newline] vs) = join [newline] vs"
proof -
  have "join [newline] vs = [] \<or> \<not> is_space (last (join [newline] vs))"
    using assms
  proof (cases "tl vs = []")
    case True
    with assms show ?thesis by (cases vs) (auto simp: plain_option_def trimmed_def)
  next
    case False
    obtain v ls where vs: "vs = v # ls" "ls \<noteq> []" using False by (cases vs) auto
    have "last (join [newline] (v # ls)) = last (last ls) \<and> join [newline] ls \<noteq> []"
      if "list_all trimmed ls" "ls \<noteq> []" for v ls
      using that
    proof (induction ls arbitrary: v)
      case (Cons l ls)
      then show ?case by (cases ls) (auto simp: trimmed_def)
    qed simp
    moreover have "list_all trimmed ls" using assms by (auto simp: plain_option_def vs list_all_iff)
    ultimately show ?thesis using vs by (auto simp: list_all_iff trimmed_def)
  qed
  then show ?thesis using rstrip_after [of "[]" "join [newline] vs"] by simp
qed

lemma lines_without_newline:
  assumes "plain_section x"
  shows "list_all (\<lambda>l. newline \<notin> set l) (section_lines x)"
  using assms
  by (auto simp: plain_section_def section_lines_def option_lines_def plain_option_def trimmed_def
      list_all_iff split_beta dest: list.set_sel)

section \<open>A file in plain layout\<close>

text \<open>
  A check of the reader: a configuration written in plain layout, without comments and
  blank lines, is read as written: section headers,
  options with \<open>=\<close> and indented further lines give back exactly the sections, options
  and lines they stand for, in order.
\<close>

lemma parse_ini_reads_layout:
  assumes "list_all plain_section ss" and "distinct (map fst ss)"
  shows "parse_ini (ini_text ss) = Inr \<lparr>ini_defaults = [],
    ini_sections = map (\<lambda>(s, opts). (s, map (\<lambda>(k, vs). (k, join [newline] vs)) opts)) ss\<rparr>"
proof -
  have "list_all (\<lambda>l. newline \<notin> set l) (concat (map section_lines ss))"
    using assms(1) lines_without_newline by (fastforce simp: list_all_iff)
  then have f: "file_lines (ini_text ss) = concat (map section_lines ss)"
    unfolding ini_text_def by (rule file_lines_unlines)
  have "between [] start_reader" by (simp add: between_def start_reader_def)
  then obtain r where r: "read_lines (concat (map section_lines ss)) start_reader = Inr r" "between ss r"
    using read_sections [of ss "[]" start_reader] assms by (auto simp: distinct_keys_def)
  have "finish_options opts = map (\<lambda>(k, vs). (k, join [newline] vs)) opts" if "(s, opts) \<in> set ss" for s opts
    using assms(1) that finish_plain
    by (fastforce simp: finish_options_def plain_section_def list_all_iff)
  then show ?thesis
    using r by (auto simp: parse_ini_def f between_def finish_options_def)
qed

end
