(* ===== verification/Checker_Config.thy ===== *)
theory Checker_Config
  imports Evidence_Checks Glob Posix_Path Ini_File
begin

text \<open>
  \<open>load_config\<close> and \<open>effective_modes\<close> of \<open>check_build.py\<close>. The INI file is taken as
  \<open>parse_ini\<close> presents it: the defaults and the sections in order, each with its
  options in order.
\<close>

section \<open>Looking up options\<close>

text \<open>\<open>config.get(section, option, fallback=...)\<close>\<close>

definition ini_get :: "ini \<Rightarrow> string \<Rightarrow> string \<Rightarrow> string \<Rightarrow> string" where
  "ini_get c sect option fallback =
     (case map_of (ini_sections c) sect of
        None \<Rightarrow> fallback
      | Some opts \<Rightarrow> (case map_of opts option of None \<Rightarrow> fallback | Some v \<Rightarrow> v))"

text \<open>\<open>lines(value)\<close>\<close>

definition lines_of :: "string \<Rightarrow> string list" where
  "lines_of v = filter (\<lambda>l. l \<noteq> []) (map strip (splitlines v))"

section \<open>Checking the names\<close>

definition checks_prefix :: string where "checks_prefix = ''checks:''"

definition rule_pattern :: "string \<Rightarrow> string" where
  "rule_pattern sect = strip (drop (length checks_prefix) sect)"

text \<open>The options a section may have: None for a section that is not known.\<close>

definition allowed_keys :: "string \<Rightarrow> string list option" where
  "allowed_keys sect =
     (if prefix checks_prefix sect then Some check_names
      else if sect = ''scan'' then Some [''object_dirs'', ''binary_paths'', ''exclude'']
      else if sect = ''checks'' then Some check_names
      else if sect = ''output'' then Some [''report'']
      else None)"

fun check_keys :: "string \<Rightarrow> string list \<Rightarrow> options \<Rightarrow> unit result" where
  "check_keys sect keys [] = Inr ()"
| "check_keys sect keys ((key, v) # opts) =
     (if key \<in> set keys then check_keys sect keys opts
      else Inl (ValueError (''unknown config option: ['' @ sect @ ''] '' @ key)))"

fun check_sections :: "(string \<times> options) list \<Rightarrow> unit result" where
  "check_sections [] = Inr ()"
| "check_sections ((sect, opts) # rest) =
     (if prefix checks_prefix sect \<and> rule_pattern sect = [] then
        Inl (ValueError ''[checks:PATH_GLOB] requires a nonempty path pattern'')
      else case allowed_keys sect of
             None \<Rightarrow> Inl (ValueError (''unknown config section: ['' @ sect @ '']''))
           | Some keys \<Rightarrow>
               bind_result (check_keys sect keys opts) (\<lambda>_. check_sections rest))"

section \<open>Modes\<close>

definition translate_mode :: "string \<Rightarrow> string" where
  "translate_mode v = (case map_of LEGACY_MODES (strip v) of None \<Rightarrow> strip v | Some m \<Rightarrow> m)"

text \<open>
  The options of one section, in order, into the dictionary \<open>section_modes\<close>. The
  baseline drops \<open>ignore\<close>, a path rule keeps it, since there it overrides.
\<close>

fun section_modes :: "bool \<Rightarrow> options \<Rightarrow> options result" where
  "section_modes baseline [] = Inr []"
| "section_modes baseline ((check, v) # opts) =
     (let mode = translate_mode v
      in if mode \<notin> set MODES then
           Inl (ValueError (''invalid mode for '' @ check @ '': '' @ py_repr mode @
             ''; use absent, ignore, present''))
         else bind_result (section_modes baseline opts) (\<lambda>ms.
           Inr (if mode \<noteq> ''ignore'' \<or> \<not> baseline then (check, mode) # ms else ms)))"

text \<open>
  All sections: the baseline modes and the path rules in file order. A section that
  raises stops the loop.
\<close>

fun collect_modes ::
  "(string \<times> options) list \<Rightarrow> options \<Rightarrow> (string \<times> options) list \<Rightarrow>
   (options \<times> (string \<times> options) list) result" where
  "collect_modes [] modes overrides = Inr (modes, overrides)"
| "collect_modes ((sect, opts) # rest) modes overrides =
     (if sect \<noteq> ''checks'' \<and> \<not> prefix checks_prefix sect then collect_modes rest modes overrides
      else bind_result (section_modes (sect = ''checks'') opts) (\<lambda>ms.
        if sect = ''checks'' then collect_modes rest ms overrides
        else collect_modes rest modes (overrides @ [(rule_pattern sect, ms)])))"

section \<open>load_config\<close>

record config =
  object_dirs :: "path list"
  binary_paths :: "path list"
  excludes :: "string list"
  base_modes :: options
  path_rules :: "(string \<times> options) list"
  report_path :: path

definition load_config :: "path \<Rightarrow> ini \<Rightarrow> config result" where
  "load_config config_path c =
     (if ini_defaults c \<noteq> [] then Inl (ValueError ''[DEFAULT] is not supported'')
      else bind_result (check_sections (ini_sections c)) (\<lambda>_.
        let objects = lines_of (ini_get c ''scan'' ''object_dirs'' []);
            binaries = lines_of (ini_get c ''scan'' ''binary_paths'' [])
        in if objects = [] \<and> binaries = [] then
             Inl (ValueError ''configure at least one object_dirs or binary_paths entry'')
           else bind_result (collect_modes (ini_sections c) [] []) (\<lambda>(modes, overrides).
             let report = strip (ini_get c ''output'' ''report'' ''build-report.md'')
             in if report = [] then Inl (ValueError ''[output] report must not be empty'')
                else let base = parent config_path
                     in Inr \<lparr>object_dirs = map (join_path base) objects,
                             binary_paths = map (join_path base) binaries,
                             excludes = lines_of (ini_get c ''scan'' ''exclude'' []),
                             base_modes = modes, path_rules = overrides,
                             report_path = join_path base report\<rparr>)))"

section \<open>effective_modes\<close>

definition rule_applies :: "string \<Rightarrow> string \<Rightarrow> string \<Rightarrow> bool" where
  "rule_applies name member pattern \<longleftrightarrow> fnmatchcase name pattern \<or>
     (member \<noteq> [] \<and> fnmatchcase (name @ ''('' @ member @ '')'') pattern)"

text \<open>\<open>dict.update\<close>\<close>

definition update_modes :: "options \<Rightarrow> options \<Rightarrow> options" where
  "update_modes changes effective = fold (\<lambda>(k, v). AList.update k v) changes effective"

fun effective_modes :: "string \<Rightarrow> string \<Rightarrow> options \<Rightarrow> (string \<times> options) list \<Rightarrow> options" where
  "effective_modes name member effective [] = effective"
| "effective_modes name member effective ((pattern, changes) # overrides) =
     effective_modes name member
       (if rule_applies name member pattern then update_modes changes effective else effective)
       overrides"

section \<open>Facts\<close>

definition valid_section :: "string \<times> options \<Rightarrow> bool" where
  "valid_section s \<longleftrightarrow> (case allowed_keys (fst s) of
     None \<Rightarrow> False | Some keys \<Rightarrow> fst ` set (snd s) \<subseteq> set keys) \<and>
     (prefix checks_prefix (fst s) \<longrightarrow> rule_pattern (fst s) \<noteq> [])"

definition mode_section :: "string \<Rightarrow> bool" where
  "mode_section sect \<longleftrightarrow> sect = ''checks'' \<or> prefix checks_prefix sect"

definition valid_modes :: "string \<times> options \<Rightarrow> bool" where
  "valid_modes s \<longleftrightarrow> (mode_section (fst s) \<longrightarrow> (\<forall>v \<in> snd ` set (snd s). translate_mode v \<in> set MODES))"

lemma check_keys_Inr: "check_keys sect keys opts = Inr u \<longleftrightarrow> fst ` set opts \<subseteq> set keys"
  by (induction sect keys opts rule: check_keys.induct) auto

lemma check_sections_Inr: "check_sections ss = Inr u \<longleftrightarrow> list_all valid_section ss"
proof (induction ss rule: check_sections.induct)
  case (2 sect opts rest)
  then show ?case
    by (cases "allowed_keys sect") (auto simp: bind_result_eq_Inr check_keys_Inr valid_section_def)
qed simp

lemma section_modes_Inr:
  "section_modes baseline opts = Inr ms \<longleftrightarrow>
     list_all (\<lambda>v. translate_mode v \<in> set MODES) (map snd opts) \<and>
     ms = filter (\<lambda>(k, m). m \<noteq> ''ignore'' \<or> \<not> baseline) (map (\<lambda>(k, v). (k, translate_mode v)) opts)"
proof (induction baseline opts arbitrary: ms rule: section_modes.induct)
  case (1 baseline)
  then show ?case by auto
next
  case (2 baseline check v opts)
  show ?case
  proof (cases "translate_mode v \<in> set MODES")
    case True
    have ih: "section_modes baseline opts = Inr x \<longleftrightarrow>
        list_all (\<lambda>v. translate_mode v \<in> set MODES) (map snd opts) \<and>
        x = filter (\<lambda>(k, m). m \<noteq> ''ignore'' \<or> \<not> baseline) (map (\<lambda>(k, v). (k, translate_mode v)) opts)" for x
      using "2.IH" True by simp
    show ?thesis
      using True by (auto simp: bind_result_eq_Inr ih Let_def)
  next
    case False
    then show ?thesis by (simp add: Let_def)
  qed
qed

text \<open>The modes and rules the accepted sections stand for.\<close>

definition translated :: "options \<Rightarrow> options" where
  "translated opts = map (\<lambda>(k, v). (k, translate_mode v)) opts"

definition enforced_modes :: "options \<Rightarrow> options" where
  "enforced_modes opts = filter (\<lambda>(k, m). m \<noteq> ''ignore'') (translated opts)"

definition rules_of :: "(string \<times> options) list \<Rightarrow> (string \<times> options) list" where
  "rules_of ss = map (\<lambda>(sect, opts). (rule_pattern sect, translated opts))
     (filter (\<lambda>(sect, opts). prefix checks_prefix sect) ss)"

lemma checks_no_prefix [simp]: "\<not> prefix checks_prefix ''checks''"
  by (simp add: checks_prefix_def)

lemma section_modes_translated:
  "section_modes baseline opts = Inr ms \<longleftrightarrow>
     (\<forall>v \<in> snd ` set opts. translate_mode v \<in> set MODES) \<and>
     ms = (if baseline then enforced_modes opts else translated opts)"
  by (auto simp: section_modes_Inr enforced_modes_def translated_def list_all_iff)

lemma collect_modes_Inr:
  assumes "distinct (map fst ss)"
  shows "collect_modes ss modes overrides = Inr (ms, os) \<longleftrightarrow>
    list_all valid_modes ss \<and>
    ms = (case map_of ss ''checks'' of None \<Rightarrow> modes | Some opts \<Rightarrow> enforced_modes opts) \<and>
    os = overrides @ rules_of ss"
  using assms
proof (induction ss arbitrary: modes overrides)
  case Nil
  then show ?case by (auto simp: rules_of_def)
next
  case (Cons s ss)
  obtain sect opts where s: "s = (sect, opts)" by (cases s)
  have d: "distinct (map fst ss)" using Cons.prems by simp
  note IH = Cons.IH [OF d]
  consider "sect = ''checks''" | "sect \<noteq> ''checks''" "prefix checks_prefix sect"
    | "sect \<noteq> ''checks''" "\<not> prefix checks_prefix sect" by blast
  then show ?case
  proof cases
    case 1
    then have "map_of ss ''checks'' = None"
      using Cons.prems by (simp add: s map_of_eq_None_iff)
    with 1 show ?thesis
      by (auto simp: s IH bind_result_eq_Inr section_modes_translated valid_modes_def
          mode_section_def rules_of_def)
  next
    case 2
    then show ?thesis
      by (auto simp: s IH bind_result_eq_Inr section_modes_translated valid_modes_def
          mode_section_def rules_of_def)
  next
    case 3
    then show ?thesis
      by (auto simp: s IH valid_modes_def mode_section_def rules_of_def)
  qed
qed

text \<open>Everything that goes wrong here is a ValueError.\<close>

definition value_error :: "py_exn \<Rightarrow> bool" where
  "value_error e \<longleftrightarrow> (\<exists>m. e = ValueError m)"

lemma check_keys_error: "check_keys sect keys opts = Inl e \<Longrightarrow> value_error e"
  by (induction sect keys opts rule: check_keys.induct) (auto simp: value_error_def split: if_splits)

lemma check_sections_error: "check_sections ss = Inl e \<Longrightarrow> value_error e"
  by (induction ss rule: check_sections.induct)
    (auto simp: bind_result_eq_Inl check_keys_error value_error_def split: if_splits option.splits
      dest: check_keys_error)

lemma section_modes_error: "section_modes b opts = Inl e \<Longrightarrow> value_error e"
  by (induction b opts rule: section_modes.induct)
    (auto simp: bind_result_eq_Inl value_error_def Let_def split: if_splits)

lemma collect_modes_error: "collect_modes ss ms os = Inl e \<Longrightarrow> value_error e"
  by (induction ss ms os rule: collect_modes.induct)
    (auto simp: bind_result_eq_Inl dest: section_modes_error split: if_splits)

text \<open>What \<open>load_config\<close> demands, apart from the names and modes.\<close>

definition scan_paths :: "ini \<Rightarrow> string \<Rightarrow> string list" where
  "scan_paths c option = lines_of (ini_get c ''scan'' option [])"

definition report_name :: "ini \<Rightarrow> string" where
  "report_name c = strip (ini_get c ''output'' ''report'' ''build-report.md'')"

definition acceptable :: "ini \<Rightarrow> bool" where
  "acceptable c \<longleftrightarrow> ini_defaults c = [] \<and>
     list_all valid_section (ini_sections c) \<and> list_all valid_modes (ini_sections c) \<and>
     (scan_paths c ''object_dirs'' \<noteq> [] \<or> scan_paths c ''binary_paths'' \<noteq> []) \<and>
     report_name c \<noteq> []"

lemma load_config_modes:
  assumes "load_config config_path c = Inr cfg" and "distinct (map fst (ini_sections c))"
  shows "list_all valid_section (ini_sections c)" and "list_all valid_modes (ini_sections c)"
    and "base_modes cfg = (case map_of (ini_sections c) ''checks'' of
      None \<Rightarrow> [] | Some opts \<Rightarrow> enforced_modes opts)"
    and "path_rules cfg = rules_of (ini_sections c)"
proof -
  from assms(1) obtain u ms os where
    u: "check_sections (ini_sections c) = Inr u" and
    m: "collect_modes (ini_sections c) [] [] = Inr (ms, os)" and
    cfg: "base_modes cfg = ms" "path_rules cfg = os"
    by (auto simp: load_config_def bind_result_eq_Inr Let_def split: if_splits)
  from u show "list_all valid_section (ini_sections c)" by (simp add: check_sections_Inr)
  from m show "list_all valid_modes (ini_sections c)"
    "base_modes cfg = (case map_of (ini_sections c) ''checks'' of
      None \<Rightarrow> [] | Some opts \<Rightarrow> enforced_modes opts)"
    "path_rules cfg = rules_of (ini_sections c)"
    unfolding collect_modes_Inr [OF assms(2)] cfg by simp_all
qed

definition known_mode :: "string \<times> string \<Rightarrow> bool" where
  "known_mode = (\<lambda>(check, mode). check \<in> set check_names \<and> mode \<in> set MODES)"

lemma translated_known:
  assumes "valid_section (sect, opts)" and "valid_modes (sect, opts)" and "mode_section sect"
  shows "list_all known_mode (translated opts)"
proof -
  have "allowed_keys sect = Some check_names"
    using assms(3) by (auto simp: mode_section_def allowed_keys_def)
  with assms show ?thesis
    by (fastforce simp: list_all_iff known_mode_def translated_def valid_section_def valid_modes_def)
qed

lemma rules_known:
  assumes "list_all valid_section ss" and "list_all valid_modes ss"
  shows "list_all (\<lambda>r. list_all known_mode (snd r)) (rules_of ss)"
proof -
  have "list_all known_mode (translated opts)"
    if "(sect, opts) \<in> set ss" "prefix checks_prefix sect" for sect opts
    using assms that by (intro translated_known [of sect]) (auto simp: list_all_iff mode_section_def)
  then show ?thesis by (auto simp: rules_of_def list_all_iff)
qed

lemma update_known:
  "list_all known_mode changes \<Longrightarrow> list_all known_mode ms \<Longrightarrow>
   list_all known_mode (update_modes changes ms)"
proof -
  have one: "list_all known_mode (AList.update k v ms)"
    if "known_mode (k, v)" "list_all known_mode ms" for k v ms
    using that by (induction ms) auto
  show "list_all known_mode changes \<Longrightarrow> list_all known_mode ms \<Longrightarrow> ?thesis"
    unfolding update_modes_def by (induction changes arbitrary: ms) (auto simp: one)
qed

lemma effective_modes_known:
  "list_all (\<lambda>r. list_all known_mode (snd r)) rules \<Longrightarrow> list_all known_mode modes \<Longrightarrow>
   list_all known_mode (effective_modes name member modes rules)"
  by (induction name member modes rules rule: effective_modes.induct) (auto simp: update_known)

lemma load_config_cases:
  assumes "parse_ini text = Inr c"
  shows "case load_config config_path c of
      Inl e \<Rightarrow> \<not> acceptable c \<and> (\<exists>m. e = ValueError m)
    | Inr cfg \<Rightarrow> acceptable c \<and>
        object_dirs cfg = map (join_path (parent config_path)) (scan_paths c ''object_dirs'') \<and>
        binary_paths cfg = map (join_path (parent config_path)) (scan_paths c ''binary_paths'') \<and>
        excludes cfg = scan_paths c ''exclude'' \<and>
        base_modes cfg = (case map_of (ini_sections c) ''checks'' of
          None \<Rightarrow> [] | Some opts \<Rightarrow> enforced_modes opts) \<and>
        path_rules cfg = rules_of (ini_sections c) \<and>
        report_path cfg = join_path (parent config_path) (report_name c)"
proof -
  have distinct: "distinct (map fst (ini_sections c))"
    using parse_ini_distinct(1) [OF assms] by (simp add: distinct_keys_def)
  show ?thesis
  proof (cases "ini_defaults c = []")
    case False
    then show ?thesis by (simp add: load_config_def acceptable_def)
  next
    case d: True
    show ?thesis
    proof (cases "check_sections (ini_sections c)")
      case (Inl e)
      then have "\<not> list_all valid_section (ini_sections c)"
        using check_sections_Inr [of "ini_sections c" "()"] by auto
      moreover have "\<exists>m. e = ValueError m"
        using check_sections_error [OF Inl] by (simp add: value_error_def)
      ultimately show ?thesis using d Inl by (simp add: load_config_def acceptable_def)
    next
      case secs: (Inr u)
      then have v: "list_all valid_section (ini_sections c)" by (simp add: check_sections_Inr)
      show ?thesis
      proof (cases "collect_modes (ini_sections c) [] []")
        case (Inl e)
        then have "\<not> list_all valid_modes (ini_sections c)"
          using collect_modes_Inr [OF distinct, of "[]" "[]"] by auto
        moreover have "\<exists>m. e = ValueError m"
          using collect_modes_error [OF Inl] by (simp add: value_error_def)
        ultimately show ?thesis using d secs Inl
          by (simp add: load_config_def acceptable_def Let_def)
      next
        case (Inr r)
        obtain ms os where r: "r = (ms, os)" by (cases r)
        from Inr have m: "list_all valid_modes (ini_sections c)"
          "ms = (case map_of (ini_sections c) ''checks'' of None \<Rightarrow> [] | Some opts \<Rightarrow> enforced_modes opts)"
          "os = rules_of (ini_sections c)"
          unfolding r collect_modes_Inr [OF distinct] by simp_all
        show ?thesis
          using d secs Inr v m(1) r
          by (simp add: load_config_def acceptable_def Let_def scan_paths_def report_name_def m(2,3))
      qed
    qed
  qed
qed

lemma parse_ini_error: "parse_ini text = Inl e \<Longrightarrow> \<exists>m. e = ConfigError m"
proof -
  have "\<exists>m. e = ConfigError m" if "read_line l r = Inl e" for l r e
    using that by (auto simp: read_line_def enter_section_def enter_option_def Let_def
        split: if_splits option.splits)
  then have "\<exists>m. e = ConfigError m" if "read_lines ls r = Inl e" for ls r e
    using that by (induction ls r rule: read_lines.induct) (auto simp: bind_result_eq_Inl)
  then show "parse_ini text = Inl e \<Longrightarrow> \<exists>m. e = ConfigError m"
    by (auto simp: parse_ini_def bind_result_eq_Inl split: if_splits)
qed

section \<open>Properties\<close>

text \<open>
  C15: reading a configuration, from the text of the file. It is accepted exactly when
  \<open>configparser\<close> can read it and it has known sections and options, valid modes,
  something to scan and a report name; then it is read without loss: the paths relative to
  the file, the enforced baseline modes with the old spellings translated, and the path
  rules in file order with \<open>ignore\<close> kept. A text that \<open>configparser\<close> rejects gives its
  error, and every other one a ValueError.
\<close>

theorem load_config_reads_file:
  "case bind_result (parse_ini text) (load_config config_path) of
      Inl e \<Rightarrow>
        (case parse_ini text of
           Inl e' \<Rightarrow> e = e' \<and> (\<exists>m. e = ConfigError m)
         | Inr c \<Rightarrow> \<not> acceptable c \<and> (\<exists>m. e = ValueError m))
    | Inr cfg \<Rightarrow>
        (case parse_ini text of
           Inl _ \<Rightarrow> False
         | Inr c \<Rightarrow> acceptable c \<and>
             object_dirs cfg = map (join_path (parent config_path)) (scan_paths c ''object_dirs'') \<and>
             binary_paths cfg = map (join_path (parent config_path)) (scan_paths c ''binary_paths'') \<and>
             excludes cfg = scan_paths c ''exclude'' \<and>
             base_modes cfg = (case map_of (ini_sections c) ''checks'' of
               None \<Rightarrow> [] | Some opts \<Rightarrow> enforced_modes opts) \<and>
             path_rules cfg = rules_of (ini_sections c) \<and>
             report_path cfg = join_path (parent config_path) (report_name c))"
proof (cases "parse_ini text")
  case (Inl e)
  with parse_ini_error [OF Inl] show ?thesis by simp
next
  case (Inr c)
  with load_config_cases [OF Inr, of config_path] show ?thesis
    by (cases "load_config config_path c") simp_all
qed

definition sample_text :: string where
  "sample_text = unlines
     [''[scan]'', ''object_dirs ='', ''    build'', ''    # built by the script'', ''[checks]'',
      ''asan = require'', ''MSan: ignore'', ''[checks:third_party/*]'', ''asan = ignore'']"

definition sample_ini :: ini where
  "sample_ini = \<lparr>ini_defaults = [], ini_sections =
     [(''scan'', [(''object_dirs'', newline # ''build'')]),
      (''checks'', [(''asan'', ''require''), (''msan'', ''ignore'')]),
      (''checks:third_party/*'', [(''asan'', ''ignore'')])]\<rparr>"

lemma parse_sample: "parse_ini sample_text = Inr sample_ini"
  by code_simp

theorem load_config_reads_file_witness:
  "\<exists>cfg. load_config (parse_path ''/w/check.ini'') sample_ini = Inr cfg \<and>
     base_modes cfg = [(''asan'', ''present'')] \<and>
     path_rules cfg = [(''third_party/*'', [(''asan'', ''ignore'')])] \<and>
     map path_text (object_dirs cfg) = [''/w/build'']"
proof -
  have a: "acceptable sample_ini" by code_simp
  have e: "enforced_modes [(''asan'', ''require''), (''msan'', ''ignore'')] = [(''asan'', ''present'')]"
    by code_simp
  have r: "rules_of (ini_sections sample_ini) = [(''third_party/*'', [(''asan'', ''ignore'')])]"
    by code_simp
  have b: "map_of (ini_sections sample_ini) ''checks'' = Some [(''asan'', ''require''), (''msan'', ''ignore'')]"
    by code_simp
  have o: "map path_text (map (join_path (parent (parse_path ''/w/check.ini'')))
      (scan_paths sample_ini ''object_dirs'')) = [''/w/build'']"
    by code_simp
  from load_config_reads_file [of sample_text "parse_path ''/w/check.ini''"] parse_sample a e r b o
  show ?thesis by (auto split: sum.splits)
qed

text \<open>
  C17: path rules override in file order: the mode of a check for an item is the one given
  by the last rule that matches the item and mentions the check, else the baseline mode.
  A rule matches the whole name of the file or, for an archive member, name(member).
\<close>

theorem last_matching_rule_wins:
  "map_of (effective_modes name member modes rules) check =
     (case rev (filter (\<lambda>(pattern, changes). check \<in> fst ` set changes \<and>
          (fnmatchcase name pattern \<or>
           member \<noteq> [] \<and> fnmatchcase (name @ ''('' @ member @ '')'') pattern)) rules) of
        [] \<Rightarrow> map_of modes check
      | (pattern, changes) # _ \<Rightarrow> map_of (rev changes) check)"
proof -
  have update: "map_of (update_modes changes ms) = map_of ms ++ map_of (rev changes)" for changes ms
    unfolding update_modes_def
    by (induction changes arbitrary: ms) (auto simp: AList.update_conv' map_add_assoc)
  show ?thesis
  proof (induction rules arbitrary: modes rule: rev_induct)
    case Nil
    then show ?case by simp
  next
    case (snoc r rules)
    obtain p ch where r: "r = (p, ch)" by (cases r)
    have "effective_modes name member modes (rules @ [(p, ch)]) =
        (if rule_applies name member p
         then update_modes ch (effective_modes name member modes rules)
         else effective_modes name member modes rules)"
      by (induction name member modes rules rule: effective_modes.induct) simp_all
    moreover have "map_of (rev ch) check = None \<longleftrightarrow> check \<notin> fst ` set ch"
      by (simp add: map_of_eq_None_iff)
    ultimately show ?case
      using snoc.IH
      by (auto simp: r update map_add_def rule_applies_def split: option.splits)
  qed
qed

text \<open>
  C18: no typing error in a configuration turns into a silently ignored expectation: every
  mode that an accepted file gives any item is for a check of the table and is one of
  present, absent and ignore, so \<open>policy_failed\<close> enforces it.
\<close>

theorem accepted_modes_known:
  assumes "load_config config_path c = Inr cfg"
    and "map_of (effective_modes name member (base_modes cfg) (path_rules cfg)) check = Some mode"
    and "parse_ini text = Inr c"
  shows "check \<in> set check_names \<and> mode \<in> {''present'', ''absent'', ''ignore''}"
proof -
  have "distinct (map fst (ini_sections c))"
    using parse_ini_distinct(1) [OF assms(3)] by (simp add: distinct_keys_def)
  note m = load_config_modes [OF assms(1) this]
  have "list_all known_mode (base_modes cfg)"
  proof (cases "map_of (ini_sections c) ''checks''")
    case (Some opts)
    then have "(''checks'', opts) \<in> set (ini_sections c)" by (rule map_of_SomeD)
    then have "list_all known_mode (translated opts)"
      using m(1,2) by (intro translated_known) (auto simp: list_all_iff mode_section_def)
    then show ?thesis using Some by (simp add: m(3) enforced_modes_def list_all_iff)
  qed (simp add: m(3))
  with rules_known [OF m(1,2)]
  have "list_all known_mode (effective_modes name member (base_modes cfg) (path_rules cfg))"
    by (intro effective_modes_known) (simp_all add: m(4))
  with map_of_SomeD [OF assms(2)] have "known_mode (check, mode)"
    by (auto simp: list_all_iff)
  then show ?thesis by (simp add: known_mode_def MODES_def)
qed

theorem accepted_modes_known_witness:
  "\<exists>cfg. load_config (parse_path ''/w/check.ini'') sample_ini = Inr cfg \<and>
     map_of (effective_modes ''third_party/a.o'' [] (base_modes cfg) (path_rules cfg)) ''asan'' =
       Some ''ignore'' \<and> ''asan'' \<in> set check_names"
proof -
  let ?cfg = "projr (load_config (parse_path ''/w/check.ini'') sample_ini)"
  have c: "load_config (parse_path ''/w/check.ini'') sample_ini = Inr ?cfg"
    by code_simp
  have m: "map_of (effective_modes ''third_party/a.o'' [] (base_modes ?cfg) (path_rules ?cfg)) ''asan'' =
      Some ''ignore''"
    by code_simp
  from accepted_modes_known [OF c m parse_sample] c m show ?thesis by blast
qed

end
