(* ===== verification/Unit_Inspection.thy ===== *)
theory Unit_Inspection
  imports Elf_Evidence Posix_Path
begin

text \<open>
  \<open>inspect\<close> of \<open>check_build.py\<close>: from one run of readelf to the units of a file. The run
  itself is a parameter, a function from the path to the completed process or to the
  exception of \<open>subprocess.run\<close>. The output of an archive is cut at its member headings.
\<close>

section \<open>The completed process\<close>

record completed =
  returncode :: int
  stdout :: string
  stderr :: string

datatype artifact_kind = Object | Binary | Archive

fun kind_text :: "artifact_kind \<Rightarrow> string" where
  "kind_text Object = ''object''"
| "kind_text Binary = ''binary''"
| "kind_text Archive = ''archive''"

text \<open>\<open>str(error)\<close>\<close>

fun exn_text :: "py_exn \<Rightarrow> string" where
  "exn_text (ValueError m) = m"
| "exn_text (OverflowError m) = m"
| "exn_text (OSError m) = m"
| "exn_text (TimeoutExpired m) = m"
| "exn_text (ConfigError m) = m"
| "exn_text (SystemExit n) = show_int n"

definition error_unit :: "string \<Rightarrow> string \<Rightarrow> inspected" where
  "error_unit member msg = empty_unit\<lparr>unit_member := member, unit_error := msg\<rparr>"

definition diagnostic :: "completed \<Rightarrow> string" where
  "diagnostic r =
     (if returncode r \<noteq> 0 \<or> strip (stderr r) \<noteq> [] then
        let detail = join '' '' (split_ws (stderr r));
            said = (if detail = [] then ''exit status '' @ show_int (returncode r) else detail)
        in ''readelf: '' @ take 500 said
      else [])"

section \<open>Member headings\<close>

text \<open>
  A match of \<open>^File: <path>(?:\((.*)\)|\[(.*)\])$\<close> at a place where \<open>^\<close> matches: the
  member name reaches to the closing bracket at the end of the line. The result is the
  name and the text after the match.
\<close>

definition closing :: "char \<Rightarrow> string \<Rightarrow> (string \<times> string) option" where
  "closing b s =
     (let line = takeWhile (\<lambda>c. c \<noteq> newline) s
      in if line \<noteq> [] \<and> last line = b then Some (butlast line, drop (length line) s) else None)"

definition heading_at :: "string \<Rightarrow> string \<Rightarrow> (string \<times> string) option" where
  "heading_at p s =
     (if prefix (''File: '' @ p @ ''('') s then closing CHR '')'' (drop (length p + 7) s)
      else if prefix (''File: '' @ p @ ''['') s then closing CHR '']'' (drop (length p + 7) s)
      else None)"

lemma closing_shorter: "closing b s = Some (m, rest) \<Longrightarrow> length rest \<le> length s"
  by (auto simp: closing_def Let_def split: if_splits)

lemma heading_at_shorter: "heading_at p s = Some (m, rest) \<Longrightarrow> length rest < length s"
  by (auto simp: heading_at_def prefix_def dest!: closing_shorter split: if_splits)

text \<open>
  \<open>re.finditer\<close> from left to right, with the slices between the matches: the text before
  the first heading, and each member with the text up to the next heading or the end.
\<close>

function split_members :: "string \<Rightarrow> bool \<Rightarrow> string \<Rightarrow> string \<times> (string \<times> string) list" where
  "split_members p line_start [] = ([], [])"
| "split_members p line_start (c # cs) =
     (case (if line_start then heading_at p (c # cs) else None) of
        Some (member, rest) \<Rightarrow>
          let (body, ms) = split_members p False rest in ([], (member, body) # ms)
      | None \<Rightarrow>
          let (pre, ms) = split_members p (c = newline) cs in (c # pre, ms))"
  by pat_completeness auto
termination
  by (relation "measure (\<lambda>(p, b, s). length s)")
    (auto dest: heading_at_shorter split: if_splits)

declare split_members.simps(2) [simp del]

section \<open>inspect\<close>

definition member_unit :: "string \<times> string \<Rightarrow> inspected" where
  "member_unit = (\<lambda>(member, text). case parse_elf text member of
     Inl e \<Rightarrow> error_unit member (exn_text e)
   | Inr u \<Rightarrow> u)"

definition file_units :: "completed \<Rightarrow> inspected list" where
  "file_units r =
     (if diagnostic r \<noteq> [] then [error_unit [] (diagnostic r)]
      else [member_unit ([], stdout r)])"

definition archive_units :: "string \<Rightarrow> completed \<Rightarrow> inspected list" where
  "archive_units p r =
     (let units = map member_unit (snd (split_members p True (stdout r)))
      in if diagnostic r \<noteq> [] then
           units @ [error_unit [] (''archive inspection incomplete: '' @ diagnostic r)]
         else if units = [] then [error_unit [] ''no archive members found (empty archive)'']
         else units)"

definition inspect :: "(string \<Rightarrow> completed result) \<Rightarrow> path \<Rightarrow> artifact_kind \<Rightarrow> inspected list result" where
  "inspect readelf p kind =
     bind_result (readelf (path_text p)) (\<lambda>r.
       Inr (if kind \<noteq> Archive then file_units r else archive_units (path_text p) r))"

section \<open>Facts\<close>

text \<open>Every unit says exactly one thing: evidence, an error or why it was skipped.\<close>

definition one_outcome :: "inspected \<Rightarrow> bool" where
  "one_outcome u \<longleftrightarrow>
     (case unit_evidence u of
        Some ev \<Rightarrow> unit_error u = [] \<and> unit_skipped u = []
      | None \<Rightarrow> (unit_error u = [] \<longleftrightarrow> unit_skipped u \<noteq> []))"

lemma parse_elf_error_text: "parse_elf t m = Inl e \<Longrightarrow> \<exists>msg. e = ValueError msg \<and> msg \<noteq> []"
  by (auto simp: parse_elf_def Let_def split: if_splits)

lemma parse_elf_unit: "parse_elf t m = Inr u \<Longrightarrow> one_outcome u \<and> unit_member u = m \<and> unit_error u = []"
  by (auto simp: parse_elf_def Let_def one_outcome_def empty_unit_def split: if_splits)

lemma error_unit_fields [simp]:
  "unit_member (error_unit m e) = m" "unit_error (error_unit m e) = e"
  "unit_evidence (error_unit m e) = None" "unit_skipped (error_unit m e) = []"
  by (simp_all add: error_unit_def empty_unit_def)

lemma member_unit_member [simp]: "unit_member (member_unit (m, t)) = m"
  by (auto simp: member_unit_def parse_elf_unit split: sum.splits)

lemma member_unit_outcome: "one_outcome (member_unit mt)"
proof (cases mt)
  case (Pair m t)
  then show ?thesis
    by (cases "parse_elf t m")
      (auto simp: member_unit_def one_outcome_def dest: parse_elf_unit parse_elf_error_text)
qed

lemma diagnostic_Nil: "diagnostic r = [] \<longleftrightarrow> returncode r = 0 \<and> strip (stderr r) = []"
  by (simp add: diagnostic_def Let_def)

text \<open>Text in which no heading begins: the cut passes over it.\<close>

fun no_heading :: "string \<Rightarrow> bool \<Rightarrow> string \<Rightarrow> string \<Rightarrow> bool" where
  "no_heading p line_start [] rest = True"
| "no_heading p line_start (c # cs) rest \<longleftrightarrow>
     (line_start \<longrightarrow> heading_at p (c # cs @ rest) = None) \<and> no_heading p (c = newline) cs rest"

lemma split_members_skip:
  "no_heading p b body rest \<Longrightarrow>
   split_members p b (body @ rest) =
     (let (pre, ms) = split_members p (if body = [] then b else last body = newline) rest
      in (body @ pre, ms))"
proof (induction body arbitrary: b)
  case (Cons c cs)
  then have "(if b then heading_at p (c # cs @ rest) else None) = None" by simp
  with Cons show ?case
    by (cases cs) (auto simp: split_members.simps(2) split: prod.splits)
qed (simp split: prod.splits)

definition heading_line :: "string \<Rightarrow> bool \<Rightarrow> string \<Rightarrow> string" where
  "heading_line p thin member =
     ''File: '' @ p @ (if thin then ''['' @ member @ '']'' else ''('' @ member @ '')'')"

lemma takeWhile_line:
  "newline \<notin> set l \<Longrightarrow> rest = [] \<or> hd rest = newline \<Longrightarrow> takeWhile (\<lambda>c. c \<noteq> newline) (l @ rest) = l"
  by (induction l) (cases rest; auto)+

lemma closing_line:
  assumes "newline \<notin> set m" and "b \<noteq> newline" and "rest = [] \<or> hd rest = newline"
  shows "closing b (m @ b # rest) = Some (m, rest)"
proof -
  have "takeWhile (\<lambda>c. c \<noteq> newline) ((m @ [b]) @ rest) = m @ [b]"
    using assms by (intro takeWhile_line) auto
  then show ?thesis by (simp add: closing_def)
qed

lemma heading_at_line:
  assumes "newline \<notin> set m" and "rest = [] \<or> hd rest = newline"
  shows "heading_at p (heading_line p thin m @ rest) = Some (m, rest)"
proof -
  have b: "CHR '')'' \<noteq> newline" "CHR '']'' \<noteq> newline" by (simp_all add: newline_def)
  have d: "drop (length p + 7) (''File: '' @ p @ c # s) = s" for c s
    by (simp add: eval_nat_numeral)
  show ?thesis
  proof (cases thin)
    case True
    then have "heading_line p thin m @ rest = ''File: '' @ p @ CHR ''['' # m @ CHR '']'' # rest"
      by (simp add: heading_line_def)
    with closing_line [OF assms(1) b(2) assms(2)] d [of "CHR ''[''"] show ?thesis
      by (simp add: heading_at_def)
  next
    case False
    then have "heading_line p thin m @ rest = ''File: '' @ p @ CHR ''('' # m @ CHR '')'' # rest"
      by (simp add: heading_line_def)
    with closing_line [OF assms(1) b(1) assms(2)] d [of "CHR ''(''"] show ?thesis
      by (simp add: heading_at_def)
  qed
qed

text \<open>Output given by its lines. A line that is no heading hides none.\<close>

definition quiet_line :: "string \<Rightarrow> string \<Rightarrow> bool" where
  "quiet_line p l \<longleftrightarrow> newline \<notin> set l \<and> heading_at p l = None"

lemma prefix_before_newline:
  "newline \<notin> set h \<Longrightarrow> prefix h (l @ newline # rest) \<Longrightarrow> prefix h l"
proof (induction h arbitrary: l)
  case (Cons c h)
  show ?case
  proof (cases l)
    case Nil
    with Cons.prems show ?thesis by simp
  next
    case (Cons d l')
    with Cons.prems Cons.IH [of l'] show ?thesis by simp
  qed
qed simp

lemma closing_before_newline:
  assumes "newline \<notin> set l" and "closing b (l @ newline # rest) \<noteq> None"
  shows "closing b l \<noteq> None"
proof -
  have "takeWhile (\<lambda>c. c \<noteq> newline) (l @ newline # rest) = l" "takeWhile (\<lambda>c. c \<noteq> newline) l = l"
    using takeWhile_line [OF assms(1), of "newline # rest"] takeWhile_line [OF assms(1), of "[]"]
    by (simp_all only: append_Nil2 list.sel simp_thms)
  with assms(2) show ?thesis by (auto simp only: closing_def Let_def option.distinct split: if_splits)
qed

lemma quiet_heading:
  assumes "newline \<notin> set p" and "quiet_line p l"
  shows "heading_at p (l @ newline # rest) = None"
proof (rule ccontr)
  assume h: "heading_at p (l @ newline # rest) \<noteq> None"
  have nl: "newline \<notin> set (''File: '' @ p @ ''('')" "newline \<notin> set (''File: '' @ p @ ''['')"
    using assms(1) by (auto simp: newline_def)
  have l: "newline \<notin> set (drop k l)" for k
    using assms(2) by (auto simp: quiet_line_def dest: in_set_dropD)
  have inside: "prefix (''File: '' @ p @ [c]) l \<Longrightarrow>
      drop (length p + 7) (l @ newline # rest) = drop (length p + 7) l @ newline # rest" for c
    by (auto dest: prefix_length_le)
  have "heading_at p l \<noteq> None"
  proof (cases "prefix (''File: '' @ p @ ''('') (l @ newline # rest)")
    case True
    from prefix_before_newline [OF nl(1) True] have "prefix (''File: '' @ p @ ''('') l" .
    moreover from True h have "closing CHR '')'' (drop (length p + 7) (l @ newline # rest)) \<noteq> None"
      by (simp add: heading_at_def)
    ultimately have "closing CHR '')'' (drop (length p + 7) l) \<noteq> None"
      unfolding inside [OF \<open>prefix (''File: '' @ p @ ''('') l\<close>] by (intro closing_before_newline [OF l])
    with \<open>prefix (''File: '' @ p @ ''('') l\<close> show ?thesis by (simp add: heading_at_def)
  next
    case False
    with h have t: "prefix (''File: '' @ p @ ''['') (l @ newline # rest)"
      "closing CHR '']'' (drop (length p + 7) (l @ newline # rest)) \<noteq> None"
      by (auto simp: heading_at_def split: if_splits)
    from False have no: "\<not> prefix (''File: '' @ p @ ''('') l" by (auto intro: prefix_order.trans)
    from prefix_before_newline [OF nl(2) t(1)] have pl: "prefix (''File: '' @ p @ ''['') l" .
    from t(2) have "closing CHR '']'' (drop (length p + 7) l) \<noteq> None"
      unfolding inside [OF pl] by (rule closing_before_newline [OF l])
    with pl no show ?thesis by (simp add: heading_at_def)
  qed
  with assms(2) show False by (simp add: quiet_line_def)
qed

lemma no_heading_inside: "newline \<notin> set l \<Longrightarrow> no_heading p False (l @ [newline]) rest"
  by (induction l) auto

lemma split_quiet_lines:
  assumes "newline \<notin> set p" and "list_all (quiet_line p) ls"
  shows "split_members p True (unlines ls @ rest) =
    (let (pre, ms) = split_members p True rest in (unlines ls @ pre, ms))"
  using assms(2)
proof (induction ls)
  case (Cons l ls)
  have n: "newline \<notin> set l" using Cons.prems by (simp add: quiet_line_def)
  have "heading_at p (l @ [newline] @ unlines ls @ rest) = None"
    using quiet_heading [OF assms(1)] Cons.prems by simp
  then have "no_heading p True (l @ [newline]) (unlines ls @ rest)"
    using no_heading_inside [of "tl l"] n by (cases l) auto
  from split_members_skip [OF this] Cons show ?case by (auto split: prod.splits)
qed (simp split: prod.splits)

section \<open>Properties\<close>

text \<open>What readelf prints for an archive: lines, then per member a heading and lines.\<close>

definition archive_output :: "string \<Rightarrow> string list \<Rightarrow> (bool \<times> string \<times> string list) list \<Rightarrow> string" where
  "archive_output p pre ms = unlines pre @
     concat (map (\<lambda>(thin, member, ls). heading_line p thin member @ newline # unlines ls) ms)"

lemma split_archive_output:
  assumes "newline \<notin> set p" and "list_all (quiet_line p) pre"
    and "list_all (\<lambda>(thin, member, ls). newline \<notin> set member \<and> list_all (quiet_line p) ls) ms"
  shows "split_members p True (archive_output p pre ms) =
    (unlines pre, map (\<lambda>(thin, member, ls). (member, newline # unlines ls)) ms)"
proof -
  let ?text = "\<lambda>ms. concat (map (\<lambda>(thin, member, ls). heading_line p thin member @ newline # unlines ls) ms)"
  have members: "split_members p True (?text ms) =
      ([], map (\<lambda>(thin, member, ls). (member, newline # unlines ls)) ms)"
    using assms(3)
  proof (induction ms)
    case (Cons x ms)
    obtain thin member ls where x: "x = (thin, member, ls)" by (cases x)
    let ?rest = "newline # unlines ls @ ?text ms"
    have h: "heading_at p (heading_line p thin member @ ?rest) = Some (member, ?rest)"
      using Cons.prems by (intro heading_at_line) (simp_all add: x)
    obtain c cs where c: "heading_line p thin member @ ?rest = c # cs"
      by (simp add: heading_line_def)
    have "split_members p True (unlines ls @ ?text ms) =
        (unlines ls, map (\<lambda>(thin, member, ls). (member, newline # unlines ls)) ms)"
      using split_quiet_lines [OF assms(1), of ls "?text ms"] Cons by (simp add: x)
    then have "split_members p False ?rest =
        (newline # unlines ls, map (\<lambda>(thin, member, ls). (member, newline # unlines ls)) ms)"
      by (simp add: split_members.simps(2))
    then show ?case using h c by (simp add: x split_members.simps(2))
  qed simp
  show ?thesis
    using split_quiet_lines [OF assms(1,2), of "?text ms"] members
    by (simp add: archive_output_def)
qed

text \<open>
  C20: the members of an archive are inspected one by one: if readelf prints, for each
  member, a heading in either form and then lines that are no headings, the units are the
  parsed lines of each member, in order and with repeated names kept apart. A diagnostic
  of readelf adds an error for the file; so does an archive without members.
\<close>

theorem archive_members_separate:
  assumes "readelf (path_text path) = Inr r" and "newline \<notin> set (path_text path)"
    and "stdout r = archive_output (path_text path) pre ms"
    and "list_all (quiet_line (path_text path)) pre"
    and "list_all (\<lambda>(thin, member, ls). newline \<notin> set member \<and>
           list_all (quiet_line (path_text path)) ls) ms"
  shows "inspect readelf path Archive =
    Inr (map (\<lambda>(thin, member, ls). member_unit (member, newline # unlines ls)) ms @
      (if diagnostic r \<noteq> [] then
         [error_unit [] (''archive inspection incomplete: '' @ diagnostic r)]
       else if ms = [] then [error_unit [] ''no archive members found (empty archive)'']
       else []))"
proof -
  have "map member_unit (snd (split_members (path_text path) True (stdout r))) =
      map (\<lambda>(thin, member, ls). member_unit (member, newline # unlines ls)) ms"
    unfolding assms(3) split_archive_output [OF assms(2,4,5)] by auto
  then show ?thesis by (simp add: inspect_def assms(1) archive_units_def Let_def)
qed

definition same_name_run :: completed where
  "same_name_run = \<lparr>returncode = 0,
     stdout = archive_output ''/a.a'' [[]]
       [(False, ''x.o'', [''ELF Header:'']), (False, ''x.o'', [''not ELF''])],
     stderr = []\<rparr>"

theorem archive_members_separate_witness:
  "\<exists>u v. inspect (\<lambda>_. Inr same_name_run) (parse_path ''/a.a'') Archive = Inr [u, v] \<and>
     unit_member u = ''x.o'' \<and> unit_member v = ''x.o''"
proof -
  have p: "path_text (parse_path ''/a.a'') = ''/a.a''" by code_simp
  have q: "list_all (quiet_line ''/a.a'') [[]]"
    "list_all (\<lambda>(thin, member, ls). newline \<notin> set member \<and> list_all (quiet_line ''/a.a'') ls)
      [(False, ''x.o'', [''ELF Header:'']), (False, ''x.o'', [''not ELF''])]"
    "newline \<notin> set ''/a.a''" "diagnostic same_name_run = []"
    by code_simp+
  from archive_members_separate [of "\<lambda>_. Inr same_name_run" "parse_path ''/a.a''" same_name_run "[[]]"
      "[(False, ''x.o'', [''ELF Header:'']), (False, ''x.o'', [''not ELF''])]"]
  show ?thesis using q by (simp add: p same_name_run_def)
qed

text \<open>
  C21: no inspection passes silently: it gives at least one unit, exactly one for a file
  that is no archive, and each unit carries exactly one of evidence, an error and a reason
  for skipping; when readelf fails or writes a diagnostic, the last unit is an error of the
  whole file. Only an exception of the run itself gives no units.
\<close>

theorem inspection_never_silent:
  "case inspect readelf path kind of
     Inl e \<Rightarrow> readelf (path_text path) = Inl e
   | Inr us \<Rightarrow> us \<noteq> [] \<and> list_all one_outcome us \<and> (kind = Archive \<or> length us = 1) \<and>
       (\<exists>r. readelf (path_text path) = Inr r \<and>
          (if returncode r = 0 \<and> strip (stderr r) = [] then True
           else unit_member (last us) = [] \<and> unit_error (last us) \<noteq> [] \<and>
             unit_evidence (last us) = None))"
proof (cases "readelf (path_text path)")
  case (Inr r)
  have e: "one_outcome (error_unit m (c # cs))" for m c cs
    by (simp add: one_outcome_def)
  have d: "diagnostic r \<noteq> [] \<Longrightarrow> one_outcome (error_unit m (diagnostic r))" for m
    by (simp add: one_outcome_def)
  show ?thesis
    using Inr diagnostic_Nil [of r]
    by (auto simp: inspect_def file_units_def archive_units_def Let_def e d member_unit_outcome
        list_all_iff)
qed (simp add: inspect_def)

end
