(* ===== verification/Discovery.thy ===== *)
theory Discovery
  imports Checker_Config Unit_Inspection Py_Bytes
begin

text \<open>
  \<open>discover\<close> of \<open>check_build.py\<close>: the walk over the configured directories and files,
  the exclusions, and the decision from the first bytes and the name what a file is. The
  operating system is a parameter: a record of the answers it gives about one unchanging
  state of the file system.
\<close>

section \<open>The operating system\<close>

datatype file_type = Regular | Directory | Other_File

record file_status =
  st_type :: file_type
  st_nlink :: nat
  st_ident :: nat

text \<open>
  Why \<open>stat\<close> fails: a path that leads nowhere, which \<open>is_file\<close>, \<open>is_dir\<close> and
  \<open>exists\<close> answer with False, or another fault, which they let through.
\<close>

datatype stat_fault = Missing string | Fault string

fun fault_text :: "stat_fault \<Rightarrow> string" where
  "fault_text (Missing m) = m"
| "fault_text (Fault m) = m"

text \<open>
  What \<open>scandir\<close> shows below a directory: the error of reading it, or its
  subdirectories, with a mark for symbolic links, and its other entries.
\<close>

datatype dir_tree = Dir_Tree "string option" "(string \<times> bool \<times> dir_tree) list" "string list"

record os =
  os_stat :: "path \<Rightarrow> stat_fault + file_status"
  os_read :: "path \<Rightarrow> string + bytes"
  os_resolve :: "path \<Rightarrow> path"
  os_tree :: "path \<Rightarrow> dir_tree"

definition is_type :: "os \<Rightarrow> file_type \<Rightarrow> path \<Rightarrow> bool result" where
  "is_type os ty p = (case os_stat os p of
     Inl (Missing m) \<Rightarrow> Inr False
   | Inl (Fault m) \<Rightarrow> Inl (OSError m)
   | Inr st \<Rightarrow> Inr (st_type st = ty))"

definition exists :: "os \<Rightarrow> path \<Rightarrow> bool result" where
  "exists os p = (case os_stat os p of
     Inl (Missing m) \<Rightarrow> Inr False
   | Inl (Fault m) \<Rightarrow> Inl (OSError m)
   | Inr st \<Rightarrow> Inr True)"

text \<open>\<open>path / name\<close> for the name of a directory entry\<close>

definition child :: "path \<Rightarrow> string \<Rightarrow> path" where
  "child p n = p\<lparr>parts := parts p @ [n]\<rparr>"

section \<open>What a file is\<close>

definition ELF_MAGIC :: bytes where "ELF_MAGIC = [0x7F, 0x45, 0x4C, 0x46]"
definition AR_MAGICS :: "bytes list" where "AR_MAGICS = [lit ''!<arch>'' @ [10], lit ''!<thin>'' @ [10]]"
definition BC_MAGICS :: "bytes list" where "BC_MAGICS = [[0x42, 0x43, 0xC0, 0xDE], [0xDE, 0xC0, 0x17, 0x0B]]"

definition starts_with :: "bytes list \<Rightarrow> bytes \<Rightarrow> bool" where
  "starts_with magics bs \<longleftrightarrow> list_ex (\<lambda>m. prefix m bs) magics"

definition elf_type :: "bytes \<Rightarrow> nat option" where
  "elf_type header =
     (if take 4 header = ELF_MAGIC \<and> length header = 18 \<and> (header ! 5 = 1 \<or> header ! 5 = 2) then
        let field = take 2 (drop 16 header)
        in Some (if header ! 5 = 1 then from_bytes_little field else from_bytes_big field)
      else None)"

text \<open>The kind under which a file is collected by a search for objects or binaries.\<close>

definition classify :: "artifact_kind \<Rightarrow> bytes \<Rightarrow> string \<Rightarrow> artifact_kind option" where
  "classify kind header name =
     (if kind = Object then
        if starts_with AR_MAGICS header then Some Archive
        else if elf_type header = Some 1 \<or> starts_with BC_MAGICS header then Some Object
        else if suffix_of name \<in> {''.o'', ''.obj'', ''.a'', ''.rlib'', ''.bc''} then
          Some (if suffix_of name \<in> {''.a'', ''.rlib''} then Archive else Object)
        else None
      else if elf_type header \<in> {Some 2, Some 3} then Some Binary
      else None)"

definition excluded :: "path \<Rightarrow> string list \<Rightarrow> path \<Rightarrow> bool" where
  "excluded base patterns p \<longleftrightarrow>
     list_ex (\<lambda>pattern. fnmatchcase (path_text (relpath p base)) pattern \<or>
                        fnmatchcase (path_name p) pattern) patterns"

section \<open>add\<close>

type_synonym found = "(path \<times> artifact_kind) list \<times> string list"

definition complain :: "path \<Rightarrow> string \<Rightarrow> found \<Rightarrow> found" where
  "complain p msg = (\<lambda>(artifacts, errors). (artifacts, errors @ [path_text p @ '': '' @ msg]))"

text \<open>\<open>path.resolve(strict=True)\<close>\<close>

definition resolve_strict :: "os \<Rightarrow> path \<Rightarrow> stat_fault + path" where
  "resolve_strict os p = (case os_stat os p of Inl f \<Rightarrow> Inl f | Inr st \<Rightarrow> Inr (os_resolve os p))"

definition add ::
  "os \<Rightarrow> path \<Rightarrow> string list \<Rightarrow> artifact_kind \<Rightarrow> bool \<Rightarrow> path \<Rightarrow> found \<Rightarrow> found \<times> bool" where
  "add os base excl kind explicit p s =
     (if excluded base excl p then (s, False)
      else case os_stat os p of
        Inl f \<Rightarrow> (complain p (fault_text f) s, False)
      | Inr st \<Rightarrow>
          if st_type st \<noteq> Regular then
            (if explicit then complain p ''expected a regular file'' s else s, False)
          else case os_read os p of
            Inl m \<Rightarrow> (complain p m s, False)
          | Inr content \<Rightarrow>
              (case classify kind (take 18 content) (path_name p) of
                 None \<Rightarrow> (if explicit \<and> kind \<noteq> Object
                          then complain p ''expected an ELF executable or shared library'' s else s,
                          False)
               | Some k \<Rightarrow>
                   (case resolve_strict os p of
                      Inl f \<Rightarrow> (complain p (fault_text f) s, False)
                    | Inr q \<Rightarrow> ((AList.update q k (fst s), snd s), True))))"

section \<open>The walk\<close>

datatype walk_event = Walk_Error string | Walk_Files path "string list"

lemma subtree_smaller:
  "(n, link, t) \<in> set ds \<Longrightarrow> size t < Suc (size_list (size_prod (\<lambda>_. 0) (size_prod (\<lambda>_. 0) size)) ds)"
  by (induction ds) auto

text \<open>
  \<open>os.walk(root)\<close>, top down, with the body's assignment to \<open>dirs\<close>: sorted, without
  the excluded ones; symbolic links to directories are not followed.
\<close>

function walk :: "(path \<Rightarrow> bool) \<Rightarrow> path \<Rightarrow> dir_tree \<Rightarrow> walk_event list" where
  "walk ex p (Dir_Tree err ds fs) = (case err of
     Some m \<Rightarrow> [Walk_Error m]
   | None \<Rightarrow> Walk_Files p (sort fs) #
       concat (map (\<lambda>(n, link, t). if link then [] else walk ex (child p n) t)
         (filter (\<lambda>(n, link, t). \<not> ex (child p n)) (sort_key fst ds))))"
  by pat_completeness auto
termination
  by (relation "measure (\<lambda>(ex, p, t). size t)") (auto dest: subtree_smaller)

definition visit ::
  "os \<Rightarrow> path \<Rightarrow> string list \<Rightarrow> artifact_kind \<Rightarrow> path \<Rightarrow> found \<times> nat \<Rightarrow> found \<times> nat" where
  "visit os base excl kind p = (\<lambda>(s, matched).
     case add os base excl kind False p s of
       (s', hit) \<Rightarrow> (s', matched + (if hit then 1 else 0)))"

definition handle_event ::
  "os \<Rightarrow> path \<Rightarrow> string list \<Rightarrow> artifact_kind \<Rightarrow> walk_event \<Rightarrow> found \<times> nat \<Rightarrow> found \<times> nat" where
  "handle_event os base excl kind e = (case e of
     Walk_Error m \<Rightarrow> (\<lambda>((artifacts, errors), matched). ((artifacts, errors @ [m]), matched))
   | Walk_Files d ns \<Rightarrow> fold (\<lambda>n. visit os base excl kind (child d n)) ns)"

section \<open>discover\<close>

definition missing_text :: "artifact_kind \<Rightarrow> string" where
  "missing_text kind =
     ''missing or not a '' @ (if kind = Object then ''directory'' else ''file/directory'')"

text \<open>The body of the loop over one root, up to the count of matches.\<close>

definition search_root ::
  "os \<Rightarrow> path \<Rightarrow> string list \<Rightarrow> artifact_kind \<Rightarrow> path \<Rightarrow> found \<Rightarrow> (found \<times> nat) result" where
  "search_root os base excl kind root s =
     bind_result (is_type os Regular root) (\<lambda>file.
       if file \<and> kind = Binary then
         Inr (case add os base excl kind True root s of (s', hit) \<Rightarrow> (s', if hit then 1 else 0))
       else bind_result (is_type os Directory root) (\<lambda>dir.
         if dir then
           Inr (fold (handle_event os base excl kind)
                  (walk (excluded base excl) root (os_tree os root)) (s, 0))
         else Inr (complain root (missing_text kind) s, 0)))"

definition discover_root ::
  "os \<Rightarrow> path \<Rightarrow> string list \<Rightarrow> artifact_kind \<Rightarrow> path \<Rightarrow> found \<Rightarrow> found result" where
  "discover_root os base excl kind root s =
     (if excluded base excl root then Inr s
      else bind_result (search_root os base excl kind root s) (\<lambda>(s', matched).
        Inr (if matched = 0 \<and> length (snd s') = length (snd s)
             then complain root ''no matching artifacts found'' s' else s')))"

fun discover_roots ::
  "os \<Rightarrow> path \<Rightarrow> string list \<Rightarrow> (path \<times> artifact_kind) list \<Rightarrow> found \<Rightarrow> found result" where
  "discover_roots os base excl [] s = Inr s"
| "discover_roots os base excl ((root, kind) # roots) s =
     bind_result (discover_root os base excl kind root s) (discover_roots os base excl roots)"

definition path_order :: "path \<times> artifact_kind \<Rightarrow> string list" where
  "path_order = (\<lambda>(p, k). parts p)"

text \<open>The configured roots, with the kind that is searched for in each.\<close>

definition search_list :: "path list \<Rightarrow> path list \<Rightarrow> (path \<times> artifact_kind) list" where
  "search_list objects binaries = map (\<lambda>p. (p, Object)) objects @ map (\<lambda>p. (p, Binary)) binaries"

definition discover ::
  "os \<Rightarrow> path list \<Rightarrow> path list \<Rightarrow> string list \<Rightarrow> path \<Rightarrow> found result" where
  "discover os objects binaries excl base =
     bind_result (discover_roots os base excl
         (search_list objects binaries) ([], []))
       (\<lambda>(artifacts, errors).
         Inr (sort_key path_order artifacts,
              if artifacts = [] then errors @ [''no matching artifacts found''] else errors))"

section \<open>Which files are collected\<close>

text \<open>The outcome of \<open>add\<close> apart from the lists it changes.\<close>

definition accepts :: "os \<Rightarrow> path \<Rightarrow> string list \<Rightarrow> artifact_kind \<Rightarrow> path \<Rightarrow> artifact_kind option" where
  "accepts os base excl kind p =
     (if excluded base excl p then None
      else case os_stat os p of Inl f \<Rightarrow> None
      | Inr st \<Rightarrow> if st_type st \<noteq> Regular then None
          else case os_read os p of Inl m \<Rightarrow> None
          | Inr content \<Rightarrow> classify kind (take 18 content) (path_name p))"

definition blame :: "os \<Rightarrow> path \<Rightarrow> string list \<Rightarrow> artifact_kind \<Rightarrow> bool \<Rightarrow> path \<Rightarrow> string list" where
  "blame os base excl kind explicit p = snd (fst (add os base excl kind explicit p ([], [])))"

definition accepted :: "os \<Rightarrow> path \<Rightarrow> string list \<Rightarrow> artifact_kind \<Rightarrow> path \<Rightarrow> bool" where
  "accepted os base excl kind p \<longleftrightarrow> accepts os base excl kind p \<noteq> None"

lemma complain_fields [simp]:
  "fst (complain p m s) = fst s" "snd (complain p m s) = snd s @ [path_text p @ '': '' @ m]"
  by (simp_all add: complain_def split_beta)

lemma add_outcome:
  "add os base excl kind explicit p s =
     (case accepts os base excl kind p of
        Some k \<Rightarrow> ((AList.update (os_resolve os p) k (fst s), snd s), True)
      | None \<Rightarrow> ((fst s, snd s @ blame os base excl kind explicit p), False))"
  by (cases s)
    (auto simp: add_def accepts_def blame_def resolve_strict_def complain_def
      split: sum.splits option.splits)

lemma accepted_no_blame: "accepted os base excl kind p \<Longrightarrow> blame os base excl kind explicit p = []"
  by (auto simp: accepted_def blame_def add_outcome)

text \<open>
  The state after trying a list of paths: what it collects, reports and counts. The
  predicate is closed under doing one thing after the other.
\<close>

definition collected :: "os \<Rightarrow> (path \<Rightarrow> artifact_kind option) \<Rightarrow> path list \<Rightarrow> (path \<times> artifact_kind) set" where
  "collected os acc ps = {(os_resolve os p, k) |p k. p \<in> set ps \<and> acc p = Some k}"

lemma collected_append [simp]: "collected os acc (ps @ qs) = collected os acc ps \<union> collected os acc qs"
  by (auto simp: collected_def)

lemma collected_Nil [simp]: "collected os acc [] = {}"
  by (simp add: collected_def)

definition progress ::
  "os \<Rightarrow> (path \<Rightarrow> artifact_kind option) \<Rightarrow> path list \<Rightarrow> string list \<Rightarrow> found \<times> nat \<Rightarrow> found \<times> nat \<Rightarrow> bool" where
  "progress os acc ps es = (\<lambda>((arts, errs), m) ((arts', errs'), m').
     fst ` set arts' = fst ` set arts \<union> fst ` collected os acc ps \<and>
     set arts' \<subseteq> set arts \<union> collected os acc ps \<and>
     (distinct (map fst arts) \<longrightarrow> distinct (map fst arts')) \<and>
     errs' = errs @ es \<and>
     m' = m + length (filter (\<lambda>p. acc p \<noteq> None) ps))"

lemma progress_refl: "progress os acc [] [] x x"
  by (cases x) (auto simp: progress_def)

lemma progress_trans:
  assumes "progress os acc ps es x y" and "progress os acc qs fs y z"
  shows "progress os acc (ps @ qs) (es @ fs) x z"
proof -
  obtain a e m where x: "x = ((a, e), m)" by (cases x) auto
  obtain b e' m' where y: "y = ((b, e'), m')" by (cases y) auto
  obtain c e'' m'' where z: "z = ((c, e''), m'')" by (cases z) auto
  have "fst ` set c = fst ` set a \<union> fst ` collected os acc (ps @ qs)"
    using assms by (simp add: progress_def x y z image_Un Un_assoc)
  moreover have "set c \<subseteq> set a \<union> collected os acc (ps @ qs)"
    using assms by (simp add: progress_def x y z) blast
  ultimately show ?thesis using assms by (simp add: progress_def x y z)
qed

text \<open>
  The contract of one step of the search, and what it gives for a whole sequence of steps:
  the paths tried and the errors reported are those of the steps, one after the other.
\<close>

locale search_step =
  fixes os :: os
    and acc :: "path \<Rightarrow> artifact_kind option"
    and tried :: "'a \<Rightarrow> path list"
    and reported :: "'a \<Rightarrow> string list"
    and step :: "'a \<Rightarrow> found \<times> nat \<Rightarrow> found \<times> nat"
  assumes step_progress: "progress os acc (tried a) (reported a) x (step a x)"
begin

lemma steps_progress:
  "progress os acc (concat (map tried as)) (concat (map reported as)) x (fold step as x)"
proof (induction as arbitrary: x)
  case (Cons a as)
  from progress_trans [OF step_progress Cons.IH] show ?case by simp
qed (simp add: progress_refl)

end

lemma update_entries:
  "(q, k) \<in> set (AList.update a b xs) \<Longrightarrow> (q, k) = (a, b) \<or> (q, k) \<in> set xs"
  by (induction xs) (auto split: if_splits)

lemma progress_add:
  "progress os (accepts os base excl kind) [p] (blame os base excl kind explicit p) (s, m)
     (fst (add os base excl kind explicit p s),
      m + (if snd (add os base excl kind explicit p s) then 1 else 0))"
proof (cases "accepts os base excl kind p")
  case None
  then show ?thesis by (cases s) (auto simp: add_outcome progress_def collected_def)
next
  case (Some k)
  then have b: "blame os base excl kind explicit p = []"
    by (intro accepted_no_blame) (simp add: accepted_def)
  have c: "collected os (accepts os base excl kind) [p] = {(os_resolve os p, k)}"
    using Some by (auto simp: collected_def)
  obtain a e where s: "s = (a, e)" by (cases s)
  have d: "fst ` set (AList.update x y a) = fst ` set a \<union> {x}" for x y
    using dom_update [of x y a] by (simp add: dom_map_of_conv_image_fst)
  have "set (AList.update x y a) \<subseteq> set a \<union> {(x, y)}" for x y
    by (auto dest: update_entries)
  with Some b show ?thesis
    by (simp add: add_outcome progress_def s c d distinct_update)
qed

section \<open>The walk, event by event\<close>

fun event_paths :: "walk_event \<Rightarrow> path list" where
  "event_paths (Walk_Error m) = []"
| "event_paths (Walk_Files d ns) = map (child d) ns"

fun event_errors :: "os \<Rightarrow> path \<Rightarrow> string list \<Rightarrow> artifact_kind \<Rightarrow> walk_event \<Rightarrow> string list" where
  "event_errors os base excl kind (Walk_Error m) = [m]"
| "event_errors os base excl kind (Walk_Files d ns) =
     concat (map (\<lambda>n. blame os base excl kind False (child d n)) ns)"

lemma visit_progress:
  "progress os (accepts os base excl kind) [p] (blame os base excl kind False p) x
     (visit os base excl kind p x)"
  using progress_add [of os base excl kind p False "fst x" "snd x"]
  by (cases x) (simp add: visit_def split_beta)

interpretation visits: search_step os "accepts os base excl kind" "\<lambda>p. [p]"
  "blame os base excl kind False" "visit os base excl kind"
  for os base excl kind
  by unfold_locales (rule visit_progress)

lemma event_progress:
  "progress os (accepts os base excl kind) (event_paths e) (event_errors os base excl kind e) x
     (handle_event os base excl kind e x)"
proof (cases e)
  case (Walk_Error m)
  obtain a es m where "x = ((a, es), m)" by (cases x) auto
  with Walk_Error show ?thesis by (simp add: handle_event_def progress_def)
next
  case (Walk_Files d ns)
  have "concat (map (\<lambda>p. [p]) (map (child d) ns)) = map (child d) ns" by (induction ns) auto
  with Walk_Files visits.steps_progress [of os base excl kind "map (child d) ns" x] show ?thesis
    by (simp add: handle_event_def fold_map o_def)
qed

interpretation events: search_step os "accepts os base excl kind" event_paths
  "event_errors os base excl kind" "handle_event os base excl kind"
  for os base excl kind
  by unfold_locales (rule event_progress)

text \<open>
  The files below a directory, by the rules of the walk: the entries of a readable
  directory, and those of its subdirectories that are not excluded and no links.
\<close>

inductive below :: "(path \<Rightarrow> bool) \<Rightarrow> path \<Rightarrow> dir_tree \<Rightarrow> path \<Rightarrow> bool" for ex :: "path \<Rightarrow> bool" where
  entry: "n \<in> set fs \<Longrightarrow> below ex p (Dir_Tree None ds fs) (child p n)"
| subdir: "(n, False, t) \<in> set ds \<Longrightarrow> \<not> ex (child p n) \<Longrightarrow> below ex (child p n) t q \<Longrightarrow>
    below ex p (Dir_Tree None ds fs) q"

inductive_simps below_tree: "below ex p (Dir_Tree err ds fs) q"

definition walk_paths :: "(path \<Rightarrow> bool) \<Rightarrow> path \<Rightarrow> dir_tree \<Rightarrow> path list" where
  "walk_paths ex p t = concat (map event_paths (walk ex p t))"

lemma concat_events:
  "concat (map h (concat (map g xs))) = concat (map (\<lambda>x. concat (map h (g x))) xs)"
  by (induction xs) auto

lemma walk_paths_dir:
  "walk_paths ex p (Dir_Tree None ds fs) = map (child p) (sort fs) @
     concat (map (\<lambda>(n, link, t). if link then [] else walk_paths ex (child p n) t)
       (filter (\<lambda>(n, link, t). \<not> ex (child p n)) (sort_key fst ds)))"
  by (auto simp: walk_paths_def concat_events intro!: arg_cong [where f = concat] map_cong)

lemma walk_paths_error: "walk_paths ex p (Dir_Tree (Some m) ds fs) = []"
  by (simp add: walk_paths_def)

lemma in_concat_filter:
  "q \<in> set (concat (map g (filter P xs))) \<longleftrightarrow> (\<exists>x \<in> set xs. P x \<and> q \<in> set (g x))"
  by auto

lemma in_walk_paths:
  "q \<in> set (walk_paths ex p (Dir_Tree None ds fs)) \<longleftrightarrow> q \<in> child p ` set fs \<or>
     (\<exists>n t. (n, False, t) \<in> set ds \<and> \<not> ex (child p n) \<and> q \<in> set (walk_paths ex (child p n) t))"
proof -
  let ?go = "\<lambda>(n, link, t). if link then [] else walk_paths ex (child p n) t"
  have "q \<in> set (walk_paths ex p (Dir_Tree None ds fs)) \<longleftrightarrow> q \<in> child p ` set fs \<or>
      (\<exists>x \<in> set ds. (\<lambda>(n, link, t). \<not> ex (child p n)) x \<and> q \<in> set (?go x))"
    unfolding walk_paths_dir set_append Un_iff in_concat_filter set_map set_sort ..
  also have "(\<exists>x \<in> set ds. (\<lambda>(n, link, t). \<not> ex (child p n)) x \<and> q \<in> set (?go x)) \<longleftrightarrow>
      (\<exists>n t. (n, False, t) \<in> set ds \<and> \<not> ex (child p n) \<and> q \<in> set (walk_paths ex (child p n) t))"
  proof
    assume "\<exists>x \<in> set ds. (\<lambda>(n, link, t). \<not> ex (child p n)) x \<and> q \<in> set (?go x)"
    then obtain n link t where "(n, link, t) \<in> set ds" "\<not> ex (child p n)" "q \<in> set (?go (n, link, t))"
      by auto
    then show "\<exists>n t. (n, False, t) \<in> set ds \<and> \<not> ex (child p n) \<and> q \<in> set (walk_paths ex (child p n) t)"
      by (cases link) auto
  next
    assume "\<exists>n t. (n, False, t) \<in> set ds \<and> \<not> ex (child p n) \<and> q \<in> set (walk_paths ex (child p n) t)"
    then obtain n t where "(n, False, t) \<in> set ds" "\<not> ex (child p n)" "q \<in> set (walk_paths ex (child p n) t)"
      by blast
    then show "\<exists>x \<in> set ds. (\<lambda>(n, link, t). \<not> ex (child p n)) x \<and> q \<in> set (?go x)"
      by (intro bexI [of _ "(n, False, t)"]) simp_all
  qed
  finally show ?thesis .
qed

text \<open>The walk reaches these files and no others; in particular it ends.\<close>

lemma walk_reaches: "q \<in> set (walk_paths ex p t) \<longleftrightarrow> below ex p t q"
proof
  show "q \<in> set (walk_paths ex p t) \<Longrightarrow> below ex p t q"
  proof (induction t arbitrary: p)
    case (Dir_Tree err ds fs)
    show ?case
    proof (cases err)
      case None
      from Dir_Tree.prems consider "q \<in> child p ` set fs"
        | n t where "(n, False, t) \<in> set ds" "\<not> ex (child p n)" "q \<in> set (walk_paths ex (child p n) t)"
        unfolding None in_walk_paths by blast
      then show ?thesis
      proof cases
        case 2
        moreover have "below ex (child p n) t q"
          using Dir_Tree.IH [OF 2(1)] 2(3) by auto
        ultimately show ?thesis unfolding None by (intro below.subdir)
      qed (auto simp: None intro: below.entry)
    next
      case (Some m)
      with Dir_Tree.prems show ?thesis by (simp add: walk_paths_error)
    qed
  qed
  show "below ex p t q \<Longrightarrow> q \<in> set (walk_paths ex p t)"
    by (induction rule: below.induct) (auto simp: in_walk_paths)
qed

section \<open>Roots\<close>

text \<open>The paths \<open>discover\<close> tries for a root.\<close>

definition candidates :: "os \<Rightarrow> path \<Rightarrow> string list \<Rightarrow> artifact_kind \<Rightarrow> path \<Rightarrow> path list" where
  "candidates os base excl kind root =
     (if excluded base excl root then []
      else if is_type os Regular root = Inr True \<and> kind = Binary then [root]
      else if is_type os Directory root = Inr True
        then walk_paths (excluded base excl) root (os_tree os root)
      else [])"

lemma search_root_progress:
  assumes "search_root os base excl kind root s = Inr y" and "\<not> excluded base excl root"
  shows "\<exists>es. progress os (accepts os base excl kind) (candidates os base excl kind root) es (s, 0) y"
proof -
  obtain f where f: "is_type os Regular root = Inr f"
    using assms(1) by (auto simp: search_root_def bind_result_eq_Inr)
  show ?thesis
  proof (cases "f \<and> kind = Binary")
    case True
    with assms f progress_add [of os base excl kind root True s 0] show ?thesis
      by (auto simp: search_root_def candidates_def split_beta)
  next
    case False
    then obtain d where d: "is_type os Directory root = Inr d"
      using assms(1) f by (auto simp: search_root_def bind_result_eq_Inr)
    let ?es = "walk (excluded base excl) root (os_tree os root)"
    show ?thesis
    proof (cases d)
      case True
      with assms f d False have "y = fold (handle_event os base excl kind) ?es (s, 0)"
        by (simp add: search_root_def)
      with events.steps_progress [of os base excl kind ?es "(s, 0)"] False f d True assms(2)
      show ?thesis by (auto simp: candidates_def walk_paths_def)
    next
      case no_dir: False
      with assms f d False have "y = (complain root (missing_text kind) s, 0)"
        by (simp add: search_root_def)
      then have "progress os (accepts os base excl kind) []
          [path_text root @ '': '' @ missing_text kind] (s, 0) y"
        by (cases s) (simp add: progress_def complain_def)
      with f d False no_dir assms(2) show ?thesis by (auto simp: candidates_def)
    qed
  qed
qed

text \<open>What one root and all roots contribute.\<close>

definition contribution :: "os \<Rightarrow> path \<Rightarrow> string list \<Rightarrow> path \<times> artifact_kind \<Rightarrow> (path \<times> artifact_kind) set" where
  "contribution os base excl = (\<lambda>(root, kind).
     collected os (accepts os base excl kind) (candidates os base excl kind root))"

lemma no_match_no_contribution:
  "length (filter (\<lambda>p. accepts os base excl kind p \<noteq> None) (candidates os base excl kind root)) \<noteq> 0 \<Longrightarrow>
   contribution os base excl (root, kind) \<noteq> {}"
  by (auto simp: contribution_def collected_def filter_empty_conv)

lemma discover_root_result:
  assumes "discover_root os base excl kind root (a, errs) = Inr (b, errs')"
  shows "fst ` set b = fst ` set a \<union> fst ` contribution os base excl (root, kind)"
    and "set b \<subseteq> set a \<union> contribution os base excl (root, kind)"
    and "distinct (map fst a) \<Longrightarrow> distinct (map fst b)"
    and "\<exists>es. errs' = errs @ es \<and> (es = [] \<longrightarrow> excluded base excl root \<or> contribution os base excl (root, kind) \<noteq> {})"
proof -
  have "fst ` set b = fst ` set a \<union> fst ` contribution os base excl (root, kind) \<and>
    set b \<subseteq> set a \<union> contribution os base excl (root, kind) \<and>
    (distinct (map fst a) \<longrightarrow> distinct (map fst b)) \<and>
    (\<exists>es. errs' = errs @ es \<and> (es = [] \<longrightarrow> excluded base excl root \<or> contribution os base excl (root, kind) \<noteq> {}))"
  proof (cases "excluded base excl root")
    case True
    with assms show ?thesis
      by (auto simp: discover_root_def contribution_def candidates_def)
  next
    case False
    with assms obtain c e m where y: "search_root os base excl kind root (a, errs) = Inr ((c, e), m)"
      and b: "(b, errs') = (if m = 0 \<and> length e = length errs
        then complain root ''no matching artifacts found'' (c, e) else (c, e))"
      by (auto simp: discover_root_def bind_result_eq_Inr)
    from search_root_progress [OF y False] obtain es where
      p: "fst ` set c = fst ` set a \<union> fst ` contribution os base excl (root, kind)"
        "set c \<subseteq> set a \<union> contribution os base excl (root, kind)"
        "distinct (map fst a) \<longrightarrow> distinct (map fst c)" "e = errs @ es"
        "m = length (filter (\<lambda>p. accepts os base excl kind p \<noteq> None) (candidates os base excl kind root))"
      by (auto simp: progress_def contribution_def)
    show ?thesis
    proof (cases "m = 0 \<and> length e = length errs")
      case True
      with b have "b = c" "errs' = e @ [path_text root @ '': '' @ ''no matching artifacts found'']"
        by (simp_all add: complain_def)
      with p show ?thesis by auto
    next
      case no_complaint: False
      with b have "b = c" "errs' = e" by auto
      moreover have "es = [] \<Longrightarrow> contribution os base excl (root, kind) \<noteq> {}"
        using no_complaint p(4,5) no_match_no_contribution [of os base excl kind root] by auto
      ultimately show ?thesis using p by auto
    qed
  qed
  then show "fst ` set b = fst ` set a \<union> fst ` contribution os base excl (root, kind)"
    "set b \<subseteq> set a \<union> contribution os base excl (root, kind)"
    "distinct (map fst a) \<Longrightarrow> distinct (map fst b)"
    "\<exists>es. errs' = errs @ es \<and> (es = [] \<longrightarrow> excluded base excl root \<or> contribution os base excl (root, kind) \<noteq> {})"
    by blast+
qed

definition all_contributions :: "os \<Rightarrow> path \<Rightarrow> string list \<Rightarrow> (path \<times> artifact_kind) list \<Rightarrow> (path \<times> artifact_kind) set" where
  "all_contributions os base excl roots = \<Union> (contribution os base excl ` set roots)"

lemma discover_roots_result:
  assumes "discover_roots os base excl roots (a, errs) = Inr (b, errs')"
  shows "fst ` set b = fst ` set a \<union> fst ` all_contributions os base excl roots \<and>
    set b \<subseteq> set a \<union> all_contributions os base excl roots \<and>
    (distinct (map fst a) \<longrightarrow> distinct (map fst b)) \<and>
    (\<exists>es. errs' = errs @ es \<and> (es = [] \<longrightarrow>
       list_all (\<lambda>r. excluded base excl (fst r) \<or> contribution os base excl r \<noteq> {}) roots))"
  using assms
proof (induction roots arbitrary: a errs)
  case Nil
  then show ?case by (simp add: all_contributions_def)
next
  case (Cons r roots)
  obtain root kind where r: "r = (root, kind)" by (cases r)
  from Cons.prems obtain c e where
    c: "discover_root os base excl kind root (a, errs) = Inr (c, e)" and
    rest: "discover_roots os base excl roots (c, e) = Inr (b, errs')"
    by (auto simp: r bind_result_eq_Inr)
  note one = discover_root_result [OF c]
  from one(4) obtain es1 where
    e1: "e = errs @ es1" "es1 = [] \<longrightarrow> excluded base excl root \<or> contribution os base excl (root, kind) \<noteq> {}"
    by blast
  from Cons.IH [OF rest] obtain es2 where
    e2: "errs' = e @ es2" "es2 = [] \<longrightarrow> list_all (\<lambda>r. excluded base excl (fst r) \<or> contribution os base excl r \<noteq> {}) roots"
    by blast
  have all: "all_contributions os base excl (r # roots) =
      contribution os base excl (root, kind) \<union> all_contributions os base excl roots"
    by (simp add: all_contributions_def r)
  have "fst ` set b = fst ` set a \<union> fst ` all_contributions os base excl (r # roots)"
    unfolding all using Cons.IH [OF rest] one(1) by (simp add: image_Un Un_assoc)
  moreover have "set b \<subseteq> set a \<union> all_contributions os base excl (r # roots)"
    unfolding all using Cons.IH [OF rest] one(2) by blast
  moreover have "distinct (map fst a) \<longrightarrow> distinct (map fst b)"
    using Cons.IH [OF rest] one(3) by blast
  moreover have "\<exists>es. errs' = errs @ es \<and> (es = [] \<longrightarrow>
      list_all (\<lambda>r. excluded base excl (fst r) \<or> contribution os base excl r \<noteq> {}) (r # roots))"
    using e1 e2 by (intro exI [of _ "es1 @ es2"]) (simp add: r)
  ultimately show ?case by blast
qed

lemma is_type_error: "is_type os ty p = Inl e \<Longrightarrow> \<exists>m. e = OSError m"
  by (auto simp: is_type_def split: sum.splits stat_fault.splits)

lemma discover_roots_error: "discover_roots os base excl roots s = Inl e \<Longrightarrow> \<exists>m. e = OSError m"
proof (induction roots arbitrary: s)
  case (Cons r roots)
  then show ?case
    by (cases r)
      (auto simp: bind_result_eq_Inl discover_root_def search_root_def Let_def
        dest!: is_type_error split: if_splits)
qed simp

section \<open>Properties\<close>

text \<open>A path the search has to look at: an explicit binary, or a file below a directory.\<close>

definition searched :: "os \<Rightarrow> path \<Rightarrow> string list \<Rightarrow> artifact_kind \<Rightarrow> path \<Rightarrow> path \<Rightarrow> bool" where
  "searched os base excl kind root p \<longleftrightarrow> \<not> excluded base excl root \<and>
     (if is_type os Regular root = Inr True \<and> kind = Binary then p = root
      else is_type os Directory root = Inr True \<and> below (excluded base excl) root (os_tree os root) p)"

lemma candidates_searched: "p \<in> set (candidates os base excl kind root) \<longleftrightarrow> searched os base excl kind root p"
  by (simp add: candidates_def searched_def walk_reaches)

lemma sort_Nil: "sort_key f xs = [] \<longleftrightarrow> xs = []"
  by (metis length_0_conv length_sort)

lemma discover_result:
  assumes "discover os objects binaries excl base = Inr (arts, errors)"
  shows "sorted (map path_order arts)" and "distinct (map fst arts)"
    and "fst ` set arts = fst ` all_contributions os base excl (search_list objects binaries)"
    and "set arts \<subseteq> all_contributions os base excl (search_list objects binaries)"
    and "errors = [] \<Longrightarrow> arts \<noteq> [] \<and> list_all (\<lambda>r. excluded base excl (fst r) \<or>
           contribution os base excl r \<noteq> {}) (search_list objects binaries)"
proof -
  from assms obtain a e where
    r: "discover_roots os base excl (search_list objects binaries) ([], []) = Inr (a, e)" and
    ae: "arts = sort_key path_order a" "errors = (if a = [] then e @ [''no matching artifacts found''] else e)"
    by (auto simp: discover_def bind_result_eq_Inr search_list_def)
  note d = discover_roots_result [OF r]
  show "sorted (map path_order arts)" by (simp add: ae)
  show "distinct (map fst arts)" using d by (simp add: ae distinct_map)
  show "fst ` set arts = fst ` all_contributions os base excl (search_list objects binaries)"
    using d by (simp add: ae)
  show "set arts \<subseteq> all_contributions os base excl (search_list objects binaries)"
    using d by (simp add: ae)
  show "errors = [] \<Longrightarrow> arts \<noteq> [] \<and> list_all (\<lambda>r. excluded base excl (fst r) \<or>
      contribution os base excl r \<noteq> {}) (search_list objects binaries)"
    using d sort_Nil by (auto simp: ae split: if_splits)
qed

lemma in_contribution:
  "x \<in> contribution os base excl (root, kind) \<longleftrightarrow>
     (\<exists>p k. x = (os_resolve os p, k) \<and> searched os base excl kind root p \<and>
        accepts os base excl kind p = Some k)"
  by (auto simp: contribution_def collected_def candidates_searched)

text \<open>
  C8: \<open>discover\<close> collects exactly the resolved paths of the regular files it has to look
  at, not excluded, that its first bytes or, for objects, its name show to be an artifact;
  each once, under a kind one of these files has, sorted by path. It fails only where
  looking at a configured root fails for another reason than that it is missing.
\<close>

theorem discover_collects:
  "case discover os objects binaries excl base of
     Inl e \<Rightarrow> \<exists>m. e = OSError m
   | Inr (arts, errors) \<Rightarrow>
       sorted (map path_order arts) \<and> distinct (map fst arts) \<and>
       fst ` set arts = {os_resolve os p |p root kind.
         (root, kind) \<in> set (search_list objects binaries) \<and>
         searched os base excl kind root p \<and> accepts os base excl kind p \<noteq> None} \<and>
       set arts \<subseteq> {(os_resolve os p, k) |p root kind k.
         (root, kind) \<in> set (search_list objects binaries) \<and>
         searched os base excl kind root p \<and> accepts os base excl kind p = Some k}"
proof (cases "discover os objects binaries excl base")
  case (Inl e)
  then have "\<exists>m. e = OSError m"
    by (auto simp: discover_def bind_result_eq_Inl dest: discover_roots_error)
  with Inl show ?thesis by simp
next
  case (Inr r)
  obtain arts errors where ae: "r = (arts, errors)" by (cases r)
  let ?all = "all_contributions os base excl (search_list objects binaries)"
  have all: "x \<in> ?all \<longleftrightarrow> (\<exists>p root kind k. x = (os_resolve os p, k) \<and>
      (root, kind) \<in> set (search_list objects binaries) \<and>
      searched os base excl kind root p \<and> accepts os base excl kind p = Some k)" for x
    unfolding all_contributions_def using in_contribution [of x os base excl] by fastforce
  note d = discover_result [OF Inr [unfolded ae]]
  have "fst ` set arts = {os_resolve os p |p root kind.
         (root, kind) \<in> set (search_list objects binaries) \<and>
         searched os base excl kind root p \<and> accepts os base excl kind p \<noteq> None}"
    (is "_ = ?paths")
    unfolding d(3)
  proof (intro equalityI subsetI)
    fix q assume "q \<in> ?paths"
    then obtain p root kind k where p: "q = os_resolve os p"
      "(root, kind) \<in> set (search_list objects binaries)"
      "searched os base excl kind root p" "accepts os base excl kind p = Some k"
      by blast
    then have "(q, k) \<in> ?all" unfolding all by blast
    then show "q \<in> fst ` ?all" by force
  next
    fix q assume "q \<in> fst ` ?all"
    then obtain p root kind k where "q = os_resolve os p"
      "(root, kind) \<in> set (search_list objects binaries)"
      "searched os base excl kind root p" "accepts os base excl kind p = Some k"
      unfolding image_iff Bex_def all by auto
    then show "q \<in> ?paths" by (intro CollectI exI [of _ p] exI [of _ root] exI [of _ kind]) simp
  qed
  moreover have "set arts \<subseteq> {(os_resolve os p, k) |p root kind k.
         (root, kind) \<in> set (search_list objects binaries) \<and>
         searched os base excl kind root p \<and> accepts os base excl kind p = Some k}"
    using d(4) all by blast
  ultimately show ?thesis using d(1,2) by (simp add: Inr ae)
qed

text \<open>
  C11: no configured root passes unnoticed: without an error there is at least one
  artifact, and every root that is not excluded has contributed one of its own files.
\<close>

theorem discover_never_silent:
  assumes "discover os objects binaries excl base = Inr (arts, [])"
  shows "arts \<noteq> [] \<and>
    list_all (\<lambda>(root, kind). excluded base excl root \<or>
      (\<exists>p. searched os base excl kind root p \<and> accepts os base excl kind p \<noteq> None \<and>
         os_resolve os p \<in> fst ` set arts)) (search_list objects binaries)"
proof -
  note d = discover_result [OF assms]
  have "\<exists>p. searched os base excl kind root p \<and> accepts os base excl kind p \<noteq> None \<and>
      os_resolve os p \<in> fst ` set arts"
    if r: "(root, kind) \<in> set (search_list objects binaries)" "\<not> excluded base excl root" for root kind
  proof -
    have "contribution os base excl (root, kind) \<noteq> {}"
      using d(5) r by (auto simp: list_all_iff)
    then obtain x where x: "x \<in> contribution os base excl (root, kind)" by blast
    then have "fst x \<in> fst ` set arts"
      using r(1) unfolding d(3) all_contributions_def by blast
    moreover obtain p k where "x = (os_resolve os p, k)" "searched os base excl kind root p"
      "accepts os base excl kind p = Some k"
      using x unfolding in_contribution by blast
    ultimately show ?thesis by (intro exI [of _ p]) simp
  qed
  with d(5) show ?thesis by (auto simp: list_all_iff)
qed

text \<open>A directory with one object file, for the examples.\<close>

definition small_os :: os where
  "small_os = \<lparr>
     os_stat = (\<lambda>p. if path_text p = ''/w/build'' then
         Inr \<lparr>st_type = Directory, st_nlink = 2, st_ident = 1\<rparr>
       else if path_text p = ''/w/build/a.o'' then
         Inr \<lparr>st_type = Regular, st_nlink = 1, st_ident = 2\<rparr>
       else Inl (Missing (''No such file: '' @ path_text p))),
     os_read = (\<lambda>p. Inr ELF_MAGIC), os_resolve = (\<lambda>p. p),
     os_tree = (\<lambda>p. Dir_Tree None [] [''a.o''])\<rparr>"

theorem discover_never_silent_witness:
  "\<exists>arts. discover small_os [parse_path ''/w/build''] [] [] (parse_path ''/w'') = Inr (arts, []) \<and>
     arts \<noteq> []"
proof -
  have d: "discover small_os [parse_path ''/w/build''] [] [] (parse_path ''/w'') =
      Inr ([(parse_path ''/w/build/a.o'', Object)], [])"
    by code_simp
  from discover_never_silent [OF d] d show ?thesis by blast
qed

end
