(* ===== verification/Build_Report.thy ===== *)
theory Build_Report
  imports Checker_Config Unit_Inspection
begin

text \<open>
  \<open>make_report\<close> of \<open>check_build.py\<close>: the tallies its loops keep over artifacts, units
  and checks, and the text rendered from them. readelf and \<open>Path.resolve\<close> are
  parameters. The caller's list of errors is part of the state, since the code appends to
  the list it is given.
\<close>

section \<open>The tallies\<close>

record tally =
  files :: "artifact_kind \<Rightarrow> string list"
  inspected_by_kind :: "artifact_kind \<Rightarrow> nat"
  members_checked :: nat
  members_inspected :: nat
  members_failed :: nat
  details :: "string list"
  counts :: "string \<Rightarrow> state \<Rightarrow> nat"
  failures_by_check :: "string \<Rightarrow> (string \<times> nat \<times> string) list"
  used_modes :: "string \<Rightarrow> string list"
  failures :: nat
  checked :: nat
  code_items :: nat
  failed_items :: nat
  skipped :: nat
  error_list :: "string list"

definition start_tally :: "string list \<Rightarrow> tally" where
  "start_tally errs = \<lparr>files = (\<lambda>_. []), inspected_by_kind = (\<lambda>_. 0), members_checked = 0,
     members_inspected = 0, members_failed = 0, details = [], counts = (\<lambda>_ _. 0),
     failures_by_check = (\<lambda>_. []), used_modes = (\<lambda>_. []), failures = 0, checked = 0,
     code_items = 0, failed_items = 0, skipped = 0, error_list = errs\<rparr>"

definition say :: "string list \<Rightarrow> tally \<Rightarrow> tally" where
  "say ls t = t\<lparr>details := details t @ ls\<rparr>"

section \<open>One check of one item\<close>

text \<open>\<open>item_modes.get(check, "ignore")\<close>\<close>

definition mode_of :: "options \<Rightarrow> string \<Rightarrow> string" where
  "mode_of modes check = (case map_of modes check of None \<Rightarrow> ''ignore'' | Some m \<Rightarrow> m)"

definition failure_detail :: "state \<Rightarrow> string \<Rightarrow> string" where
  "failure_detail st reason =
     (if st = Not_Seen then ''not seen''
      else if st = Found then ''found: '' @ reason
      else ''inconclusive: '' @ reason)"

text \<open>The first failure of a file is kept in words, further ones are counted.\<close>

definition record_failure :: "string \<Rightarrow> string \<Rightarrow> (string \<times> nat \<times> string) list \<Rightarrow> (string \<times> nat \<times> string) list" where
  "record_failure name message entries =
     (case map_of entries name of
        Some (count, first) \<Rightarrow> AList.update name (count + 1, first) entries
      | None \<Rightarrow> AList.update name (1, message) entries)"

definition check_line :: "string \<Rightarrow> string \<Rightarrow> state \<Rightarrow> string \<Rightarrow> string" where
  "check_line check mode st reason =
     ''  '' @ ljust 18 check @ '' '' @ ljust 11 (state_text st) @ '' '' @ reason @
     (if policy_failed mode st then ''; FAIL (expected '' @ mode @ '')'' else [])"

definition check_item ::
  "string \<Rightarrow> string \<Rightarrow> options \<Rightarrow> evidence \<Rightarrow> string \<Rightarrow> tally \<times> bool \<Rightarrow> tally \<times> bool" where
  "check_item name item item_modes ev check = (\<lambda>(t, item_failed).
     let mode = mode_of item_modes check;
         (st, reason) = detect check ev;
         t1 = say [check_line check mode st reason]
           (t\<lparr>used_modes := (used_modes t)(check := List.insert mode (used_modes t check)),
              counts := (counts t)(check := (counts t check)(st := counts t check st + 1))\<rparr>)
     in if \<not> policy_failed mode st then (t1, item_failed)
        else (t1\<lparr>failures_by_check := (failures_by_check t1)(check :=
                record_failure name
                  (item @ '': '' @ failure_detail st reason @ ''; expected '' @ mode)
                  (failures_by_check t1 check))\<rparr>, True))"

section \<open>One unit\<close>

definition occurrence_suffix :: "nat \<Rightarrow> string" where
  "occurrence_suffix n = (if 1 < n then '' [occurrence '' @ show_nat n @ '']'' else [])"

definition count_of :: "(string \<times> nat) list \<Rightarrow> string \<Rightarrow> nat" where
  "count_of occ member = (case map_of occ member of None \<Rightarrow> 0 | Some n \<Rightarrow> n)"

text \<open>The bookkeeping for a unit that is an archive member, and the name of the item.\<close>

definition enter_member ::
  "string \<Rightarrow> inspected \<Rightarrow> tally \<Rightarrow> (string \<times> nat) list \<Rightarrow> tally \<times> (string \<times> nat) list \<times> string" where
  "enter_member name u t occ =
     (if unit_member u = [] then (t, occ, name)
      else
        let member = unit_member u;
            n = count_of occ member + 1;
            suffix = occurrence_suffix n;
            t1 = (if unit_error u \<noteq> [] then t\<lparr>members_failed := members_failed t + 1\<rparr>
                  else t\<lparr>members_inspected := members_inspected t + 1\<rparr>)
        in (say [[], ''#### `'' @ member @ ''`'' @ suffix]
              (t1\<lparr>members_checked := members_checked t1 + 1\<rparr>),
            AList.update member n occ,
            name @ ''('' @ member @ '')'' @ suffix))"

text \<open>
  The evidence of a unit without error and skip reason is always there, see
  \<open>one_outcome\<close>.
\<close>

definition tally_unit ::
  "string \<Rightarrow> options \<Rightarrow> (string \<times> options) list \<Rightarrow> inspected \<Rightarrow>
   tally \<times> bool \<times> (string \<times> nat) list \<Rightarrow> tally \<times> bool \<times> (string \<times> nat) list" where
  "tally_unit name modes overrides u = (\<lambda>(t, file_failed, occ).
     let (t0, occ1, item) = enter_member name u t occ;
         t1 = say [[], ''```text''] t0
     in if unit_error u \<noteq> [] then
          (say [''  ERROR: '' @ unit_error u, ''```'']
             (t1\<lparr>error_list := error_list t1 @ [item @ '': '' @ unit_error u]\<rparr>), file_failed, occ1)
        else if unit_skipped u \<noteq> [] then
          (say [''  SKIPPED: '' @ unit_skipped u, ''```''] (t1\<lparr>skipped := skipped t1 + 1\<rparr>),
           file_failed, occ1)
        else
          let item_modes = effective_modes name (unit_member u) modes overrides;
              (t2, item_failed) = fold (check_item name item item_modes (the (unit_evidence u)))
                check_names (t1\<lparr>code_items := code_items t1 + 1\<rparr>, False);
              t3 = say [''```''] t2
          in (t3\<lparr>failed_items := failed_items t3 + (if item_failed then 1 else 0)\<rparr>,
              file_failed \<or> item_failed, occ1))"

section \<open>One artifact\<close>

definition caught :: "py_exn \<Rightarrow> bool" where
  "caught e = (case e of OSError _ \<Rightarrow> True | ValueError _ \<Rightarrow> True | TimeoutExpired _ \<Rightarrow> True | _ \<Rightarrow> False)"

definition artifact_units ::
  "(string \<Rightarrow> completed result) \<Rightarrow> path \<Rightarrow> artifact_kind \<Rightarrow> inspected list result" where
  "artifact_units readelf p kind = (case inspect readelf p kind of
     Inr us \<Rightarrow> Inr us
   | Inl e \<Rightarrow> if caught e then Inr [error_unit [] (exn_text e)] else Inl e)"

definition display_name :: "path \<Rightarrow> path \<Rightarrow> string" where
  "display_name config_path p = path_text (relpath p (parent config_path))"

definition enter_artifact :: "string \<Rightarrow> string \<Rightarrow> artifact_kind \<Rightarrow> inspected list \<Rightarrow> tally \<Rightarrow> tally" where
  "enter_artifact name location kind units t =
     (let t1 = say [[], ''### `'' @ name @ ''` ['' @ kind_text kind @ '']'']
            (t\<lparr>files := (files t)(kind := files t kind @ [location])\<rparr>)
      in if list_ex (\<lambda>u. unit_error u \<noteq> []) units then t1
         else t1\<lparr>checked := checked t1 + 1,
                 inspected_by_kind := (inspected_by_kind t1)(kind := inspected_by_kind t1 kind + 1)\<rparr>)"

definition tally_artifact ::
  "string \<Rightarrow> string \<Rightarrow> artifact_kind \<Rightarrow> options \<Rightarrow> (string \<times> options) list \<Rightarrow> inspected list \<Rightarrow> tally \<Rightarrow> tally" where
  "tally_artifact name location kind modes overrides units t =
     (case fold (tally_unit name modes overrides) units
             (enter_artifact name location kind units t, False, []) of
        (t1, file_failed, occ) \<Rightarrow>
          t1\<lparr>failures := failures t1 + (if file_failed then 1 else 0)\<rparr>)"

fun tally_artifacts ::
  "(string \<Rightarrow> completed result) \<Rightarrow> (path \<Rightarrow> path) \<Rightarrow> path \<Rightarrow> options \<Rightarrow> (string \<times> options) list \<Rightarrow>
   (path \<times> artifact_kind) list \<Rightarrow> tally \<Rightarrow> tally result" where
  "tally_artifacts readelf resolve config_path modes overrides [] t = Inr t"
| "tally_artifacts readelf resolve config_path modes overrides ((p, kind) # rest) t =
     bind_result (artifact_units readelf p kind) (\<lambda>units.
       tally_artifacts readelf resolve config_path modes overrides rest
         (tally_artifact (display_name config_path p) (path_text (resolve p)) kind
            modes overrides units t))"

section \<open>The text\<close>

text \<open>The modes a check was used with, or the baseline one when no item was checked.\<close>

definition seen_modes :: "options \<Rightarrow> tally \<Rightarrow> string \<Rightarrow> string list" where
  "seen_modes modes t check =
     (if used_modes t check = [] then [mode_of modes check] else used_modes t check)"

definition expectation :: "options \<Rightarrow> tally \<Rightarrow> string \<Rightarrow> string" where
  "expectation modes t check =
     (let values = seen_modes modes t check in if length values = 1 then hd values else ''varies'')"

definition enforced :: "options \<Rightarrow> tally \<Rightarrow> string list" where
  "enforced modes t = filter (\<lambda>check. set (seen_modes modes t check) \<noteq> {''ignore''}) check_names"

definition failed_total :: "tally \<Rightarrow> string \<Rightarrow> nat" where
  "failed_total t check = sum_list (map (\<lambda>(_, n, _). n) (failures_by_check t check))"

definition summary_lines :: "path \<Rightarrow> nat \<Rightarrow> tally \<Rightarrow> string list" where
  "summary_lines config_path n_artifacts t =
     [''# Build artifact report'', [],
      ''Config: '' @ path_text config_path,
      ''Paths relative to: '' @ path_text (parent config_path),
      ''Files checked: '' @ show_nat n_artifacts @ ''; inspected: '' @ show_nat (checked t) @
        ''; files failing expectations: '' @ show_nat (failures t) @ ''; errors: '' @
        show_nat (length (error_list t)),
      ''Check items: '' @ show_nat (code_items t) @ ''; failing expectations: '' @
        show_nat (failed_items t) @ ''; metadata items skipped: '' @ show_nat (skipped t),
      ''Evidence checks only; inconclusive results fail either expectation.'',
      ''Archive members are checked separately; Rust metadata-only items are listed as skipped.'',
      ''Inventory paths are absolute.'',
      [], ''## Failure counts'', [],
      ''| Check              | Expected | Failed files                     | Failed items |'',
      ''| ------------------ | -------- | -------------------------------- | ------------ |'']"

definition failure_row :: "options \<Rightarrow> tally \<Rightarrow> string \<Rightarrow> string" where
  "failure_row modes t check =
     (let known = check \<in> set (enforced modes t);
          n_files = (if known then ''['' @ show_nat (length (failures_by_check t check)) @ '']('' @
                       ''#'' @ check @ '')'' else ''-'');
          n_items = (if known then show_nat (failed_total t check) else ''-'')
      in ''| '' @ ljust 18 check @ '' | '' @ ljust 8 (expectation modes t check) @ '' | '' @
         ljust 32 n_files @ '' | '' @ rjust 12 n_items @ '' |'')"

definition kinds :: "artifact_kind list" where
  "kinds = [Object, Binary, Archive]"

definition count_row :: "string \<Rightarrow> nat \<Rightarrow> nat \<Rightarrow> nat \<Rightarrow> string" where
  "count_row title n_checked n_inspected n_errors =
     ''| '' @ ljust 14 title @ '' | '' @ rjust 7 (show_nat n_checked) @ '' | '' @
     rjust 9 (show_nat n_inspected) @ '' | '' @ rjust 6 (show_nat n_errors) @ '' |''"

definition file_rows :: "tally \<Rightarrow> string list" where
  "file_rows t =
     map (\<lambda>k. count_row (kind_text k) (length (files t k)) (inspected_by_kind t k)
            (length (files t k) - inspected_by_kind t k)) kinds @
     [count_row ''archive member'' (members_checked t) (members_inspected t) (members_failed t)]"

definition entry_line :: "string \<times> nat \<times> string \<Rightarrow> string" where
  "entry_line = (\<lambda>(name, n, first).
     if n = 1 then first else name @ '': '' @ show_nat n @ '' member failures; see File details'')"

definition fenced :: "string list \<Rightarrow> string list" where
  "fenced ls = (if ls = [] then [''None''] else [''```text''] @ ls @ [''```''])"

definition failure_section :: "options \<Rightarrow> tally \<Rightarrow> string \<Rightarrow> string list" where
  "failure_section modes t check =
     [[], ''### '' @ check, [],
      ''Expected '' @ expectation modes t check @ '': '' @ show_nat (failed_total t check) @ '' '' @
        (if failed_total t check = 1 then ''failure'' else ''failures''), []] @
     fenced (map entry_line (failures_by_check t check))"

fun kind_title :: "artifact_kind \<Rightarrow> string" where
  "kind_title Object = ''Objects''"
| "kind_title Binary = ''Binaries''"
| "kind_title Archive = ''Archives''"

definition inventory :: "tally \<Rightarrow> artifact_kind \<Rightarrow> string list" where
  "inventory t k =
     [[], ''## '' @ kind_title k @ '' ('' @ show_nat (length (files t k)) @ '')'', [], ''```text''] @
     files t k @ [''```'']"

definition key_lines :: "string list" where
  "key_lines =
     [[], ''## Evidence key'', [], ''```text'',
      ''FOUND = strong reference or nonempty instrumentation section (libfuzzer: driver symbol).'',
      ''SYMBOL-ONLY = definition or optional weak reference; instrumentation use is unproven.'',
      ''NOT-SEEN = no evidence in available tables; compiler options and symbol completeness are unproven.'',
      ''UNKNOWN = symbol table unavailable, usually due to stripping.'',
      ''SKIPPED = identified Rust metadata with no runtime code or data.'',
      ''```'', [], ''## Check summary'', [], ''```text'']"

definition check_summary :: "options \<Rightarrow> tally \<Rightarrow> string \<Rightarrow> string" where
  "check_summary modes t check =
     ''  '' @ check @ '' (expectation: '' @ expectation modes t check @ ''): '' @
     join '', '' (map (\<lambda>st. state_text st @ ''='' @ show_nat (counts t check st)) STATES)"

definition report_lines :: "path \<Rightarrow> options \<Rightarrow> nat \<Rightarrow> tally \<Rightarrow> string list" where
  "report_lines config_path modes n_artifacts t =
     summary_lines config_path n_artifacts t @
     map (failure_row modes t) check_names @
     [[], ''An item is an object, binary, or individual archive member, excluding Rust metadata-only items.'',
      ''Archives with multiple failures have one summary line; every member result appears under File details.'',
      ''Ignored checks have no failure count. 'varies' means path rules set different expectations.'',
      [], ''## File counts'', [],
      ''| Type           | Checked | Inspected | Errors |'',
      ''| -------------- | ------- | --------- | ------ |''] @
     file_rows t @
     [[], ''The archive member row counts members read within archives; it is not an additional file total.'',
      [], ''## Failures'', []] @
     (if enforced modes t = [] then [''No expectations configured for the checked items.''] else []) @
     concat (map (failure_section modes t) (enforced modes t)) @
     [[], ''## Inspection errors ('' @ show_nat (length (error_list t)) @ '')'', []] @
     fenced (error_list t) @
     concat (map (inventory t) kinds) @
     key_lines @
     map (check_summary modes t) check_names @
     [''```'', [], ''## File details''] @ details t"

text \<open>The report, the number of failing files, and the caller's errors afterwards.\<close>

definition make_report ::
  "(string \<Rightarrow> completed result) \<Rightarrow> (path \<Rightarrow> path) \<Rightarrow> (path \<times> artifact_kind) list \<Rightarrow> string list \<Rightarrow>
   options \<Rightarrow> path \<Rightarrow> (string \<times> options) list \<Rightarrow> (string \<times> nat \<times> string list) result" where
  "make_report readelf resolve artifacts errs modes config_path overrides =
     bind_result
       (tally_artifacts readelf resolve config_path modes overrides artifacts (start_tally errs))
       (\<lambda>t. Inr (join [newline] (report_lines config_path modes (length artifacts) t) @ [newline],
                 failures t, error_list t))"

end
