(* ===== verification/Report_Facts.thy ===== *)
theory Report_Facts
  imports Build_Report "HOL-Library.Sublist"
begin

text \<open>
  What the loops of \<open>make_report\<close> count, stated over the lists of artifacts and units
  without reference to the loops: the tallies are sums and filters over the units. And
  where the report prints them: its lines of totals, its tables and its sections.
\<close>

named_theorems tally_simps \<open>effect of each step on each tally\<close>

section \<open>Entries of one check\<close>

definition entries_total :: "(string \<times> nat \<times> string) list \<Rightarrow> nat" where
  "entries_total es = sum_list (map (\<lambda>(_, n, _). n) es)"

definition entry_names :: "(string \<times> nat \<times> string) list \<Rightarrow> string list" where
  "entry_names es = map fst es"

lemma total_update:
  "map_of es k = Some (n, m) \<Longrightarrow> entries_total (AList.update k (Suc n, m) es) = Suc (entries_total es)"
  by (induction es) (auto simp: entries_total_def)

lemma total_update_new:
  "map_of es k = None \<Longrightarrow> entries_total (AList.update k (n, m) es) = n + entries_total es"
  by (induction es) (auto simp: entries_total_def)

lemma record_failure_total [simp]:
  "entries_total (record_failure name msg es) = Suc (entries_total es)"
  by (cases "map_of es name")
    (auto simp: record_failure_def total_update total_update_new split: option.splits)

lemma record_failure_names [simp]:
  "entry_names (record_failure name msg es) =
     (if name \<in> set (entry_names es) then entry_names es else entry_names es @ [name])"
proof (cases "map_of es name")
  case None
  then have "name \<notin> set (map fst es)" by (simp add: map_of_eq_None_iff)
  with None show ?thesis by (simp add: record_failure_def entry_names_def update_keys)
next
  case (Some v)
  then have "name \<in> set (map fst es)" using map_of_eq_None_iff [of es name] by auto
  with Some show ?thesis
    by (cases v) (simp add: record_failure_def entry_names_def update_keys)
qed

section \<open>One check\<close>

definition item_state :: "evidence \<Rightarrow> string \<Rightarrow> state" where
  "item_state ev check = fst (detect check ev)"

definition item_violates :: "options \<Rightarrow> evidence \<Rightarrow> string \<Rightarrow> bool" where
  "item_violates item_modes ev check \<longleftrightarrow> policy_failed (mode_of item_modes check) (item_state ev check)"

lemma say_fields [tally_simps]:
  "files (say ls t) = files t" "inspected_by_kind (say ls t) = inspected_by_kind t"
  "members_checked (say ls t) = members_checked t" "members_inspected (say ls t) = members_inspected t"
  "members_failed (say ls t) = members_failed t" "counts (say ls t) = counts t"
  "failures_by_check (say ls t) = failures_by_check t" "used_modes (say ls t) = used_modes t"
  "failures (say ls t) = failures t" "checked (say ls t) = checked t"
  "code_items (say ls t) = code_items t" "failed_items (say ls t) = failed_items t"
  "skipped (say ls t) = skipped t" "error_list (say ls t) = error_list t"
  by (simp_all add: say_def)

text \<open>A check changes only its counts, its modes, its entries and the details.\<close>

lemma check_item_same [tally_simps]:
  "files (fst (check_item name item ms ev c x)) = files (fst x)"
  "inspected_by_kind (fst (check_item name item ms ev c x)) = inspected_by_kind (fst x)"
  "members_checked (fst (check_item name item ms ev c x)) = members_checked (fst x)"
  "members_inspected (fst (check_item name item ms ev c x)) = members_inspected (fst x)"
  "members_failed (fst (check_item name item ms ev c x)) = members_failed (fst x)"
  "failures (fst (check_item name item ms ev c x)) = failures (fst x)"
  "checked (fst (check_item name item ms ev c x)) = checked (fst x)"
  "code_items (fst (check_item name item ms ev c x)) = code_items (fst x)"
  "failed_items (fst (check_item name item ms ev c x)) = failed_items (fst x)"
  "skipped (fst (check_item name item ms ev c x)) = skipped (fst x)"
  "error_list (fst (check_item name item ms ev c x)) = error_list (fst x)"
  by (cases x; simp add: check_item_def Let_def tally_simps split: prod.splits)+

lemma check_item_fields [tally_simps]:
  "counts (fst (check_item name item ms ev c x)) d s =
     counts (fst x) d s + (if d = c \<and> s = item_state ev c then 1 else 0)"
  "set (used_modes (fst (check_item name item ms ev c x)) d) =
     set (used_modes (fst x) d) \<union> (if d = c then {mode_of ms c} else {})"
  "entries_total (failures_by_check (fst (check_item name item ms ev c x)) d) =
     entries_total (failures_by_check (fst x) d) + (if d = c \<and> item_violates ms ev c then 1 else 0)"
  "entry_names (failures_by_check (fst (check_item name item ms ev c x)) d) =
     entry_names (failures_by_check (fst x) d) @
       (if d = c \<and> item_violates ms ev c \<and> name \<notin> set (entry_names (failures_by_check (fst x) d))
        then [name] else [])"
  "snd (check_item name item ms ev c x) \<longleftrightarrow> snd x \<or> item_violates ms ev c"
  by (cases x; auto simp: check_item_def Let_def tally_simps item_state_def item_violates_def
      split: prod.splits)+

lemma fold_check_same [tally_simps]:
  "files (fst (fold (check_item name item ms ev) cs x)) = files (fst x)"
  "inspected_by_kind (fst (fold (check_item name item ms ev) cs x)) = inspected_by_kind (fst x)"
  "members_checked (fst (fold (check_item name item ms ev) cs x)) = members_checked (fst x)"
  "members_inspected (fst (fold (check_item name item ms ev) cs x)) = members_inspected (fst x)"
  "members_failed (fst (fold (check_item name item ms ev) cs x)) = members_failed (fst x)"
  "failures (fst (fold (check_item name item ms ev) cs x)) = failures (fst x)"
  "checked (fst (fold (check_item name item ms ev) cs x)) = checked (fst x)"
  "code_items (fst (fold (check_item name item ms ev) cs x)) = code_items (fst x)"
  "failed_items (fst (fold (check_item name item ms ev) cs x)) = failed_items (fst x)"
  "skipped (fst (fold (check_item name item ms ev) cs x)) = skipped (fst x)"
  "error_list (fst (fold (check_item name item ms ev) cs x)) = error_list (fst x)"
  by (induction cs arbitrary: x; simp add: tally_simps)+

text \<open>All checks of an item, one after the other; each check occurs once.\<close>

lemma fold_check_counts:
  "distinct cs \<Longrightarrow> counts (fst (fold (check_item name item ms ev) cs x)) d s =
     counts (fst x) d s + (if d \<in> set cs \<and> s = item_state ev d then 1 else 0)"
  by (induction cs arbitrary: x) (auto simp: tally_simps)

lemma fold_check_used:
  "set (used_modes (fst (fold (check_item name item ms ev) cs x)) d) =
     set (used_modes (fst x) d) \<union> (if d \<in> set cs then {mode_of ms d} else {})"
  by (induction cs arbitrary: x) (auto simp: tally_simps)

lemma fold_check_total:
  "distinct cs \<Longrightarrow> entries_total (failures_by_check (fst (fold (check_item name item ms ev) cs x)) d) =
     entries_total (failures_by_check (fst x) d) + (if d \<in> set cs \<and> item_violates ms ev d then 1 else 0)"
  by (induction cs arbitrary: x) (auto simp: tally_simps)

lemma fold_check_names:
  "distinct cs \<Longrightarrow> entry_names (failures_by_check (fst (fold (check_item name item ms ev) cs x)) d) =
     entry_names (failures_by_check (fst x) d) @
       (if d \<in> set cs \<and> item_violates ms ev d \<and> name \<notin> set (entry_names (failures_by_check (fst x) d))
        then [name] else [])"
  by (induction cs arbitrary: x) (auto simp: tally_simps)

lemma fold_check_failed:
  "snd (fold (check_item name item ms ev) cs x) \<longleftrightarrow> snd x \<or> (\<exists>c \<in> set cs. item_violates ms ev c)"
  by (induction cs arbitrary: x) (auto simp: tally_simps)

section \<open>One unit\<close>

text \<open>A file, with its display name and the modes that apply: what its units count for.\<close>

definition is_code :: "inspected \<Rightarrow> bool" where
  "is_code u \<longleftrightarrow> unit_error u = [] \<and> unit_skipped u = []"

definition unit_state :: "inspected \<Rightarrow> string \<Rightarrow> state" where
  "unit_state u check = item_state (the (unit_evidence u)) check"

definition unit_violates ::
  "string \<Rightarrow> options \<Rightarrow> (string \<times> options) list \<Rightarrow> inspected \<Rightarrow> string \<Rightarrow> bool" where
  "unit_violates name modes rules u check \<longleftrightarrow> is_code u \<and> check \<in> set check_names \<and>
     item_violates (effective_modes name (unit_member u) modes rules) (the (unit_evidence u)) check"

definition unit_fails :: "string \<Rightarrow> options \<Rightarrow> (string \<times> options) list \<Rightarrow> inspected \<Rightarrow> bool" where
  "unit_fails name modes rules u \<longleftrightarrow> (\<exists>check. unit_violates name modes rules u check)"

lemma distinct_check_names: "distinct check_names"
  by (simp add: check_names_def CHECKS_def)

lemma enter_member_fields [tally_simps]:
  "files (fst (enter_member name u t occ)) = files t"
  "inspected_by_kind (fst (enter_member name u t occ)) = inspected_by_kind t"
  "counts (fst (enter_member name u t occ)) = counts t"
  "failures_by_check (fst (enter_member name u t occ)) = failures_by_check t"
  "used_modes (fst (enter_member name u t occ)) = used_modes t"
  "failures (fst (enter_member name u t occ)) = failures t"
  "checked (fst (enter_member name u t occ)) = checked t"
  "code_items (fst (enter_member name u t occ)) = code_items t"
  "failed_items (fst (enter_member name u t occ)) = failed_items t"
  "skipped (fst (enter_member name u t occ)) = skipped t"
  "error_list (fst (enter_member name u t occ)) = error_list t"
  "members_checked (fst (enter_member name u t occ)) =
     members_checked t + (if unit_member u = [] then 0 else 1)"
  "members_inspected (fst (enter_member name u t occ)) =
     members_inspected t + (if unit_member u \<noteq> [] \<and> unit_error u = [] then 1 else 0)"
  "members_failed (fst (enter_member name u t occ)) =
     members_failed t + (if unit_member u \<noteq> [] \<and> unit_error u \<noteq> [] then 1 else 0)"
  by (simp_all add: enter_member_def Let_def tally_simps)

text \<open>The label of an error: the file, or the member with its occurrence.\<close>

definition item_name :: "string \<Rightarrow> inspected \<Rightarrow> nat \<Rightarrow> string" where
  "item_name name u n =
     (if unit_member u = [] then name
      else name @ ''('' @ unit_member u @ '')'' @ occurrence_suffix n)"

lemma enter_member_item:
  "snd (snd (enter_member name u t occ)) = item_name name u (count_of occ (unit_member u) + 1)"
  "count_of (fst (snd (enter_member name u t occ))) m =
     count_of occ m + (if m = unit_member u \<and> m \<noteq> [] then 1 else 0)"
  by (auto simp: enter_member_def Let_def item_name_def count_of_def AList.update_conv')

abbreviation unit_tally :: "string \<Rightarrow> options \<Rightarrow> (string \<times> options) list \<Rightarrow> inspected \<Rightarrow>
   tally \<times> bool \<times> (string \<times> nat) list \<Rightarrow> tally" where
  "unit_tally name modes rules u x \<equiv> fst (tally_unit name modes rules u x)"

lemma tally_unit_same [tally_simps]:
  "files (unit_tally name modes rules u x) = files (fst x)"
  "inspected_by_kind (unit_tally name modes rules u x) = inspected_by_kind (fst x)"
  "failures (unit_tally name modes rules u x) = failures (fst x)"
  "checked (unit_tally name modes rules u x) = checked (fst x)"
  by (cases x; simp add: tally_unit_def Let_def split_beta tally_simps)+

lemma tally_unit_members [tally_simps]:
  "members_checked (unit_tally name modes rules u x) =
     members_checked (fst x) + (if unit_member u = [] then 0 else 1)"
  "members_inspected (unit_tally name modes rules u x) =
     members_inspected (fst x) + (if unit_member u \<noteq> [] \<and> unit_error u = [] then 1 else 0)"
  "members_failed (unit_tally name modes rules u x) =
     members_failed (fst x) + (if unit_member u \<noteq> [] \<and> unit_error u \<noteq> [] then 1 else 0)"
  by (cases x; simp add: tally_unit_def Let_def split_beta tally_simps)+

lemma tally_unit_items [tally_simps]:
  "code_items (unit_tally name modes rules u x) = code_items (fst x) + (if is_code u then 1 else 0)"
  "failed_items (unit_tally name modes rules u x) =
     failed_items (fst x) + (if unit_fails name modes rules u then 1 else 0)"
  "skipped (unit_tally name modes rules u x) =
     skipped (fst x) + (if unit_error u = [] \<and> unit_skipped u \<noteq> [] then 1 else 0)"
  "fst (snd (tally_unit name modes rules u x)) \<longleftrightarrow> fst (snd x) \<or> unit_fails name modes rules u"
  by (cases x; auto simp: tally_unit_def Let_def split_beta tally_simps is_code_def unit_fails_def
      unit_violates_def fold_check_failed)+

lemma tally_unit_checks [tally_simps]:
  "counts (unit_tally name modes rules u x) d s =
     counts (fst x) d s + (if is_code u \<and> d \<in> set check_names \<and> s = unit_state u d then 1 else 0)"
  "set (used_modes (unit_tally name modes rules u x) d) = set (used_modes (fst x) d) \<union>
     (if is_code u \<and> d \<in> set check_names
      then {mode_of (effective_modes name (unit_member u) modes rules) d} else {})"
  "entries_total (failures_by_check (unit_tally name modes rules u x) d) =
     entries_total (failures_by_check (fst x) d) + (if unit_violates name modes rules u d then 1 else 0)"
  "entry_names (failures_by_check (unit_tally name modes rules u x) d) =
     entry_names (failures_by_check (fst x) d) @
       (if unit_violates name modes rules u d \<and> name \<notin> set (entry_names (failures_by_check (fst x) d))
        then [name] else [])"
  by (cases x; simp add: tally_unit_def Let_def split_beta tally_simps is_code_def unit_violates_def
      unit_state_def fold_check_counts fold_check_used fold_check_total fold_check_names
      distinct_check_names)+

lemma tally_unit_errors:
  "error_list (unit_tally name modes rules u x) = error_list (fst x) @
     (if unit_error u = [] then []
      else [item_name name u (count_of (snd (snd x)) (unit_member u) + 1) @ '': '' @ unit_error u])"
proof (cases x)
  case (fields t ff occ)
  let ?e = "enter_member name u t occ"
  have "snd (snd ?e) = item_name name u (count_of occ (unit_member u) + 1)"
    by (rule enter_member_item)
  then show ?thesis
    by (cases "unit_error u = []"; cases "unit_skipped u = []")
      (simp_all add: fields tally_unit_def Let_def split_beta tally_simps)
qed

lemma tally_unit_occurrences:
  "snd (snd (tally_unit name modes rules u x)) = fst (snd (enter_member name u (fst x) (snd (snd x))))"
  by (cases x) (simp add: tally_unit_def Let_def split_beta)

lemma tally_unit_occurrence_count:
  "count_of (snd (snd (tally_unit name modes rules u x))) m =
     count_of (snd (snd x)) m + (if m = unit_member u \<and> m \<noteq> [] then 1 else 0)"
  unfolding tally_unit_occurrences by (rule enter_member_item)

section \<open>All units of a file\<close>

text \<open>The errors of a file in order, each labelled with its occurrence of the member name.\<close>

definition occurrences_before :: "inspected list \<Rightarrow> string \<Rightarrow> nat" where
  "occurrences_before seen m = (if m = [] then 0 else length (filter (\<lambda>v. unit_member v = m) seen))"

fun unit_errors :: "string \<Rightarrow> inspected list \<Rightarrow> inspected list \<Rightarrow> string list" where
  "unit_errors name seen [] = []"
| "unit_errors name seen (u # us) =
     (if unit_error u = [] then []
      else [item_name name u (occurrences_before seen (unit_member u) + 1) @ '': '' @ unit_error u]) @
     unit_errors name (seen @ [u]) us"

abbreviation units_tally :: "string \<Rightarrow> options \<Rightarrow> (string \<times> options) list \<Rightarrow> inspected list \<Rightarrow>
   tally \<times> bool \<times> (string \<times> nat) list \<Rightarrow> tally" where
  "units_tally name modes rules us x \<equiv> fst (fold (tally_unit name modes rules) us x)"

lemma units_same [tally_simps]:
  "files (units_tally name modes rules us x) = files (fst x)"
  "inspected_by_kind (units_tally name modes rules us x) = inspected_by_kind (fst x)"
  "failures (units_tally name modes rules us x) = failures (fst x)"
  "checked (units_tally name modes rules us x) = checked (fst x)"
  by (induction us arbitrary: x; simp add: tally_simps)+

lemma units_members [tally_simps]:
  "members_checked (units_tally name modes rules us x) =
     members_checked (fst x) + length (filter (\<lambda>u. unit_member u \<noteq> []) us)"
  "members_inspected (units_tally name modes rules us x) =
     members_inspected (fst x) + length (filter (\<lambda>u. unit_member u \<noteq> [] \<and> unit_error u = []) us)"
  "members_failed (units_tally name modes rules us x) =
     members_failed (fst x) + length (filter (\<lambda>u. unit_member u \<noteq> [] \<and> unit_error u \<noteq> []) us)"
  by (induction us arbitrary: x; simp add: tally_simps)+

lemma units_items [tally_simps]:
  "code_items (units_tally name modes rules us x) =
     code_items (fst x) + length (filter is_code us)"
  "failed_items (units_tally name modes rules us x) =
     failed_items (fst x) + length (filter (unit_fails name modes rules) us)"
  "skipped (units_tally name modes rules us x) =
     skipped (fst x) + length (filter (\<lambda>u. unit_error u = [] \<and> unit_skipped u \<noteq> []) us)"
  "fst (snd (fold (tally_unit name modes rules) us x)) \<longleftrightarrow>
     fst (snd x) \<or> (\<exists>u \<in> set us. unit_fails name modes rules u)"
  by (induction us arbitrary: x; simp add: tally_simps)+

lemma units_checks [tally_simps]:
  "counts (units_tally name modes rules us x) d s = counts (fst x) d s +
     length (filter (\<lambda>u. is_code u \<and> d \<in> set check_names \<and> s = unit_state u d) us)"
  "entries_total (failures_by_check (units_tally name modes rules us x) d) =
     entries_total (failures_by_check (fst x) d) +
       length (filter (\<lambda>u. unit_violates name modes rules u d) us)"
  "entry_names (failures_by_check (units_tally name modes rules us x) d) =
     entry_names (failures_by_check (fst x) d) @
       (if (\<exists>u \<in> set us. unit_violates name modes rules u d) \<and>
           name \<notin> set (entry_names (failures_by_check (fst x) d))
        then [name] else [])"
  by (induction us arbitrary: x; simp add: tally_simps)+

lemma units_used:
  "set (used_modes (units_tally name modes rules us x) d) = set (used_modes (fst x) d) \<union>
     {m. \<exists>u \<in> set us. is_code u \<and> d \<in> set check_names \<and>
        m = mode_of (effective_modes name (unit_member u) modes rules) d}"
  by (induction us arbitrary: x) (auto simp: tally_simps)

lemma units_errors:
  assumes "\<And>m. m \<noteq> [] \<Longrightarrow> count_of (snd (snd x)) m = occurrences_before seen m"
  shows "error_list (units_tally name modes rules us x) = error_list (fst x) @ unit_errors name seen us"
  using assms
proof (induction us arbitrary: x seen)
  case (Cons u us)
  let ?y = "tally_unit name modes rules u x"
  have "count_of (snd (snd ?y)) m = occurrences_before (seen @ [u]) m" if "m \<noteq> []" for m
    using Cons.prems [OF that] that by (simp add: tally_unit_occurrence_count occurrences_before_def)
  from Cons.IH [OF this] have "error_list (units_tally name modes rules (u # us) x) =
      error_list (unit_tally name modes rules u x) @ unit_errors name (seen @ [u]) us"
    by simp
  also have "item_name name u (count_of (snd (snd x)) (unit_member u) + 1) =
      item_name name u (occurrences_before seen (unit_member u) + 1)"
    using Cons.prems by (cases "unit_member u = []") (simp_all add: item_name_def)
  then have "error_list (unit_tally name modes rules u x) @ unit_errors name (seen @ [u]) us =
      error_list (fst x) @ unit_errors name seen (u # us)"
    by (simp add: tally_unit_errors)
  finally show ?case .
qed simp

section \<open>Files\<close>

text \<open>One artifact as inspected: its path, its kind and its units.\<close>

type_synonym inspected_file = "path \<times> artifact_kind \<times> inspected list"

fun inspect_all ::
  "(string \<Rightarrow> completed result) \<Rightarrow> (path \<times> artifact_kind) list \<Rightarrow> inspected_file list result" where
  "inspect_all readelf [] = Inr []"
| "inspect_all readelf ((p, kind) # rest) =
     bind_result (artifact_units readelf p kind) (\<lambda>us.
       bind_result (inspect_all readelf rest) (\<lambda>l. Inr ((p, kind, us) # l)))"

definition tally_file ::
  "(path \<Rightarrow> path) \<Rightarrow> path \<Rightarrow> options \<Rightarrow> (string \<times> options) list \<Rightarrow> inspected_file \<Rightarrow> tally \<Rightarrow> tally" where
  "tally_file resolve config_path modes rules = (\<lambda>(p, kind, us).
     tally_artifact (display_name config_path p) (path_text (resolve p)) kind modes rules us)"

lemma tally_artifacts_fold:
  "tally_artifacts readelf resolve cp modes rules arts t =
     bind_result (inspect_all readelf arts) (\<lambda>l. Inr (fold (tally_file resolve cp modes rules) l t))"
proof (induction readelf resolve cp modes rules arts t rule: tally_artifacts.induct)
  case (2 readelf resolve cp modes rules p kind rest t)
  then show ?case
    by (cases "artifact_units readelf p kind"; cases "inspect_all readelf rest")
      (simp_all add: tally_file_def)
qed simp

lemma inspect_all_files:
  "inspect_all readelf arts = Inr l \<Longrightarrow> map (\<lambda>(p, kind, us). (p, kind)) l = arts"
  by (induction readelf arts arbitrary: l rule: inspect_all.induct) (auto simp: bind_result_eq_Inr)

definition display_units :: "path \<Rightarrow> inspected_file \<Rightarrow> (string \<times> inspected) list" where
  "display_units cp = (\<lambda>(p, kind, us). map (Pair (display_name cp p)) us)"

definition items_of :: "path \<Rightarrow> inspected_file list \<Rightarrow> (string \<times> inspected) list" where
  "items_of cp l = concat (map (display_units cp) l)"

definition file_violates ::
  "path \<Rightarrow> options \<Rightarrow> (string \<times> options) list \<Rightarrow> string \<Rightarrow> inspected_file \<Rightarrow> bool" where
  "file_violates cp modes rules check = (\<lambda>(p, kind, us).
     \<exists>u \<in> set us. unit_violates (display_name cp p) modes rules u check)"

definition file_fails :: "path \<Rightarrow> options \<Rightarrow> (string \<times> options) list \<Rightarrow> inspected_file \<Rightarrow> bool" where
  "file_fails cp modes rules = (\<lambda>(p, kind, us).
     \<exists>u \<in> set us. unit_fails (display_name cp p) modes rules u)"

definition file_errors :: "path \<Rightarrow> inspected_file \<Rightarrow> string list" where
  "file_errors cp = (\<lambda>(p, kind, us). unit_errors (display_name cp p) [] us)"

definition file_name :: "path \<Rightarrow> inspected_file \<Rightarrow> string" where
  "file_name cp = (\<lambda>(p, kind, us). display_name cp p)"

definition fully_inspected :: "inspected_file \<Rightarrow> bool" where
  "fully_inspected = (\<lambda>(p, kind, us). list_all (\<lambda>u. unit_error u = []) us)"

definition file_kind :: "inspected_file \<Rightarrow> artifact_kind" where
  "file_kind = (\<lambda>(p, kind, us). kind)"

definition counted :: "(string \<times> inspected \<Rightarrow> bool) \<Rightarrow> path \<Rightarrow> inspected_file \<Rightarrow> nat" where
  "counted P cp f = length (filter P (display_units cp f))"

lemma counted_file [simp]:
  "counted P cp (p, kind, us) = length (filter (\<lambda>u. P (display_name cp p, u)) us)"
  by (simp add: counted_def display_units_def filter_map o_def)

lemma length_filter_items:
  "length (filter P (items_of cp l)) = sum_list (map (counted P cp) l)"
  by (induction l) (simp_all add: items_of_def counted_def)

lemma enter_artifact_fields [tally_simps]:
  "files (enter_artifact name loc kind us t) k = files t k @ (if k = kind then [loc] else [])"
  "inspected_by_kind (enter_artifact name loc kind us t) k = inspected_by_kind t k +
     (if k = kind \<and> list_all (\<lambda>u. unit_error u = []) us then 1 else 0)"
  "checked (enter_artifact name loc kind us t) =
     checked t + (if list_all (\<lambda>u. unit_error u = []) us then 1 else 0)"
  "members_checked (enter_artifact name loc kind us t) = members_checked t"
  "members_inspected (enter_artifact name loc kind us t) = members_inspected t"
  "members_failed (enter_artifact name loc kind us t) = members_failed t"
  "counts (enter_artifact name loc kind us t) = counts t"
  "failures_by_check (enter_artifact name loc kind us t) = failures_by_check t"
  "used_modes (enter_artifact name loc kind us t) = used_modes t"
  "failures (enter_artifact name loc kind us t) = failures t"
  "code_items (enter_artifact name loc kind us t) = code_items t"
  "failed_items (enter_artifact name loc kind us t) = failed_items t"
  "skipped (enter_artifact name loc kind us t) = skipped t"
  "error_list (enter_artifact name loc kind us t) = error_list t"
  by (auto simp: enter_artifact_def Let_def tally_simps list_all_iff list_ex_iff)

lemma tally_artifact_eq:
  "tally_artifact name loc kind modes rules us t =
     (let x = fold (tally_unit name modes rules) us (enter_artifact name loc kind us t, False, [])
      in (fst x)\<lparr>failures := failures (fst x) + (if fst (snd x) then 1 else 0)\<rparr>)"
  by (simp add: tally_artifact_def split_beta Let_def)

lemma tally_file_files [tally_simps]:
  "files (tally_file rs cp modes rules f t) k = files t k @
     (if k = file_kind f then [path_text (rs (fst f))] else [])"
  "inspected_by_kind (tally_file rs cp modes rules f t) k =
     inspected_by_kind t k + (if k = file_kind f \<and> fully_inspected f then 1 else 0)"
  "checked (tally_file rs cp modes rules f t) = checked t + (if fully_inspected f then 1 else 0)"
  "failures (tally_file rs cp modes rules f t) =
     failures t + (if file_fails cp modes rules f then 1 else 0)"
  by (cases f; simp add: tally_file_def tally_artifact_eq Let_def tally_simps file_kind_def
      fully_inspected_def file_fails_def)+

lemma tally_file_members [tally_simps]:
  "members_checked (tally_file rs cp modes rules f t) =
     members_checked t + counted (\<lambda>(n, u). unit_member u \<noteq> []) cp f"
  "members_inspected (tally_file rs cp modes rules f t) =
     members_inspected t + counted (\<lambda>(n, u). unit_member u \<noteq> [] \<and> unit_error u = []) cp f"
  "members_failed (tally_file rs cp modes rules f t) =
     members_failed t + counted (\<lambda>(n, u). unit_member u \<noteq> [] \<and> unit_error u \<noteq> []) cp f"
  by (cases f; simp add: tally_file_def tally_artifact_eq Let_def tally_simps)+

lemma tally_file_items [tally_simps]:
  "code_items (tally_file rs cp modes rules f t) = code_items t + counted (\<lambda>(n, u). is_code u) cp f"
  "failed_items (tally_file rs cp modes rules f t) =
     failed_items t + counted (\<lambda>(n, u). unit_fails n modes rules u) cp f"
  "skipped (tally_file rs cp modes rules f t) =
     skipped t + counted (\<lambda>(n, u). unit_error u = [] \<and> unit_skipped u \<noteq> []) cp f"
  "error_list (tally_file rs cp modes rules f t) = error_list t @ file_errors cp f"
proof -
  obtain p kind us where f: "f = (p, kind, us)" by (cases f)
  show "code_items (tally_file rs cp modes rules f t) = code_items t + counted (\<lambda>(n, u). is_code u) cp f"
    "failed_items (tally_file rs cp modes rules f t) =
       failed_items t + counted (\<lambda>(n, u). unit_fails n modes rules u) cp f"
    "skipped (tally_file rs cp modes rules f t) =
       skipped t + counted (\<lambda>(n, u). unit_error u = [] \<and> unit_skipped u \<noteq> []) cp f"
    by (simp_all add: f tally_file_def tally_artifact_eq Let_def tally_simps)
  show "error_list (tally_file rs cp modes rules f t) = error_list t @ file_errors cp f"
    by (simp add: f tally_file_def tally_artifact_eq Let_def tally_simps file_errors_def
        units_errors [where seen = "[]"] count_of_def occurrences_before_def)
qed

lemma tally_file_checks [tally_simps]:
  "counts (tally_file rs cp modes rules f t) d s = counts t d s +
     counted (\<lambda>(n, u). is_code u \<and> d \<in> set check_names \<and> s = unit_state u d) cp f"
  "entries_total (failures_by_check (tally_file rs cp modes rules f t) d) =
     entries_total (failures_by_check t d) + counted (\<lambda>(n, u). unit_violates n modes rules u d) cp f"
  "entry_names (failures_by_check (tally_file rs cp modes rules f t) d) =
     entry_names (failures_by_check t d) @
       (if file_violates cp modes rules d f \<and>
           file_name cp f \<notin> set (entry_names (failures_by_check t d))
        then [file_name cp f] else [])"
  by (cases f; simp add: tally_file_def tally_artifact_eq Let_def tally_simps file_violates_def
      file_name_def)+

text \<open>The modes of a check that an item is judged by: one for code, none otherwise.\<close>

definition item_modes_of ::
  "options \<Rightarrow> (string \<times> options) list \<Rightarrow> string \<Rightarrow> string \<times> inspected \<Rightarrow> string set" where
  "item_modes_of modes rules d = (\<lambda>(n, u). if is_code u \<and> d \<in> set check_names
     then {mode_of (effective_modes n (unit_member u) modes rules) d} else {})"

lemma tally_file_used:
  "set (used_modes (tally_file rs cp modes rules f t) d) = set (used_modes t d) \<union>
     \<Union> (item_modes_of modes rules d ` set (display_units cp f))"
  by (cases f) (auto simp: tally_file_def tally_artifact_eq Let_def tally_simps units_used
      display_units_def item_modes_of_def)

section \<open>All files\<close>

abbreviation final :: "(path \<Rightarrow> path) \<Rightarrow> path \<Rightarrow> options \<Rightarrow> (string \<times> options) list \<Rightarrow>
   inspected_file list \<Rightarrow> tally \<Rightarrow> tally" where
  "final rs cp modes rules l t \<equiv> fold (tally_file rs cp modes rules) l t"

lemma final_files [tally_simps]:
  "files (final rs cp modes rules l t) k = files t k @
     map (\<lambda>f. path_text (rs (fst f))) (filter (\<lambda>f. file_kind f = k) l)"
  "inspected_by_kind (final rs cp modes rules l t) k = inspected_by_kind t k +
     length (filter (\<lambda>f. file_kind f = k \<and> fully_inspected f) l)"
  "checked (final rs cp modes rules l t) = checked t + length (filter fully_inspected l)"
  "failures (final rs cp modes rules l t) = failures t + length (filter (file_fails cp modes rules) l)"
  "error_list (final rs cp modes rules l t) = error_list t @ concat (map (file_errors cp) l)"
  by (induction l arbitrary: t; simp add: tally_simps)+

lemma final_items [tally_simps]:
  "members_checked (final rs cp modes rules l t) =
     members_checked t + length (filter (\<lambda>(n, u). unit_member u \<noteq> []) (items_of cp l))"
  "members_inspected (final rs cp modes rules l t) =
     members_inspected t + length (filter (\<lambda>(n, u). unit_member u \<noteq> [] \<and> unit_error u = []) (items_of cp l))"
  "members_failed (final rs cp modes rules l t) =
     members_failed t + length (filter (\<lambda>(n, u). unit_member u \<noteq> [] \<and> unit_error u \<noteq> []) (items_of cp l))"
  "code_items (final rs cp modes rules l t) =
     code_items t + length (filter (\<lambda>(n, u). is_code u) (items_of cp l))"
  "failed_items (final rs cp modes rules l t) =
     failed_items t + length (filter (\<lambda>(n, u). unit_fails n modes rules u) (items_of cp l))"
  "skipped (final rs cp modes rules l t) =
     skipped t + length (filter (\<lambda>(n, u). unit_error u = [] \<and> unit_skipped u \<noteq> []) (items_of cp l))"
  unfolding length_filter_items by (induction l arbitrary: t; simp add: tally_simps)+

lemma final_checks [tally_simps]:
  "counts (final rs cp modes rules l t) d s = counts t d s +
     length (filter (\<lambda>(n, u). is_code u \<and> d \<in> set check_names \<and> s = unit_state u d) (items_of cp l))"
  "entries_total (failures_by_check (final rs cp modes rules l t) d) =
     entries_total (failures_by_check t d) +
       length (filter (\<lambda>(n, u). unit_violates n modes rules u d) (items_of cp l))"
  unfolding length_filter_items by (induction l arbitrary: t; simp add: tally_simps)+

text \<open>The files with a failure of a check, under their names and each once.\<close>

lemma final_names:
  assumes "distinct (map (file_name cp) l)"
    and "set (entry_names (failures_by_check t d)) \<inter> set (map (file_name cp) l) = {}"
  shows "entry_names (failures_by_check (final rs cp modes rules l t) d) =
    entry_names (failures_by_check t d) @ map (file_name cp) (filter (file_violates cp modes rules d) l)"
  using assms
proof (induction l arbitrary: t)
  case (Cons f l)
  let ?t = "tally_file rs cp modes rules f t"
  have "set (entry_names (failures_by_check ?t d)) \<inter> set (map (file_name cp) l) = {}"
    using Cons.prems by (cases "file_violates cp modes rules d f") (simp_all add: tally_simps)
  with Cons show ?case by (simp add: tally_simps)
qed simp

lemma final_used:
  "set (used_modes (final rs cp modes rules l t) d) = set (used_modes t d) \<union>
     \<Union> (item_modes_of modes rules d ` set (items_of cp l))"
  by (induction l arbitrary: t) (simp_all add: tally_file_used items_of_def Un_assoc UN_Un)

text \<open>The tallies at the end of the loop over all artifacts.\<close>

lemma tally_artifacts_final:
  "inspect_all readelf arts = Inr l \<Longrightarrow>
   tally_artifacts readelf rs cp modes rules arts (start_tally errs) =
     Inr (final rs cp modes rules l (start_tally errs))"
  by (simp add: tally_artifacts_fold)

lemma start_tally_fields [simp]:
  "files (start_tally errs) k = []" "inspected_by_kind (start_tally errs) k = 0"
  "members_checked (start_tally errs) = 0" "members_inspected (start_tally errs) = 0"
  "members_failed (start_tally errs) = 0" "counts (start_tally errs) c s = 0"
  "failures_by_check (start_tally errs) c = []" "used_modes (start_tally errs) c = []"
  "failures (start_tally errs) = 0" "checked (start_tally errs) = 0"
  "code_items (start_tally errs) = 0" "failed_items (start_tally errs) = 0"
  "skipped (start_tally errs) = 0" "error_list (start_tally errs) = errs"
  by (simp_all add: start_tally_def)

lemma failed_total_entries: "failed_total t c = entries_total (failures_by_check t c)"
  by (simp add: failed_total_def entries_total_def)

lemma final_failed_total:
  "failed_total (final rs cp modes rules l (start_tally errs)) c =
     length (filter (\<lambda>(n, u). unit_violates n modes rules u c) (items_of cp l))"
proof -
  have "entries_total [] = 0" by (simp add: entries_total_def)
  then show ?thesis by (simp add: failed_total_entries tally_simps)
qed

text \<open>The four states of a check share out the items.\<close>

lemma states_share_out:
  assumes "c \<in> set check_names"
  shows "sum_list (map (counts (final rs cp modes rules l (start_tally errs)) c) STATES) =
    code_items (final rs cp modes rules l (start_tally errs))"
proof -
  have "(\<Sum>st \<leftarrow> STATES. length (filter (\<lambda>(n, u). is_code u \<and> st = unit_state u c) xs)) =
      length (filter (\<lambda>(n, u). is_code u) xs)" for xs :: "(string \<times> inspected) list"
  proof (induction xs)
    case (Cons x xs)
    obtain n u where x: "x = (n, u)" by (cases x)
    from Cons show ?case by (cases "unit_state u c") (simp_all add: x STATES_def)
  qed (simp add: STATES_def)
  moreover have "counts (final rs cp modes rules l (start_tally errs)) c =
      (\<lambda>st. length (filter (\<lambda>(n, u). is_code u \<and> st = unit_state u c) (items_of cp l)))"
    using assms by (intro ext) (simp add: tally_simps)
  ultimately show ?thesis by (simp add: tally_simps)
qed

text \<open>A check that some item violates has an expectation other than \<open>ignore\<close>.\<close>

lemma violated_is_enforced:
  assumes "0 < failed_total (final rs cp modes rules l (start_tally errs)) c"
  shows "c \<in> set (enforced modes (final rs cp modes rules l (start_tally errs)))"
proof -
  let ?t = "final rs cp modes rules l (start_tally errs)"
  obtain n u where u: "(n, u) \<in> set (items_of cp l)" "unit_violates n modes rules u c"
    using assms by (auto simp: final_failed_total filter_empty_conv)
  let ?m = "mode_of (effective_modes n (unit_member u) modes rules) c"
  have "?m \<noteq> ''ignore''" "c \<in> set check_names" "is_code u"
    using u(2) by (auto simp: unit_violates_def item_violates_def policy_failed_def)
  then have "?m \<in> item_modes_of modes rules c (n, u)" by (simp add: item_modes_of_def)
  with u(1) have m: "?m \<in> set (used_modes ?t c)" unfolding final_used by blast
  then have "used_modes ?t c \<noteq> []" by auto
  with m \<open>?m \<noteq> ''ignore''\<close> \<open>c \<in> set check_names\<close> show ?thesis
    by (auto simp: enforced_def seen_modes_def)
qed

lemma failing_files_items:
  "length (filter (file_fails cp modes rules) l) \<le>
     length (filter (\<lambda>(n, u). unit_fails n modes rules u) (items_of cp l))"
proof -
  have "(if file_fails cp modes rules f then 1 else 0) \<le> counted (\<lambda>(n, u). unit_fails n modes rules u) cp f" for f
    by (cases f) (auto simp: file_fails_def Suc_le_eq filter_empty_conv)
  then have "length (filter (file_fails cp modes rules) l) \<le>
      sum_list (map (counted (\<lambda>(n, u). unit_fails n modes rules u) cp) l)"
  proof (induction l)
    case (Cons f l)
    from Cons.prems [of f] Cons.IH [OF Cons.prems] show ?case by (auto split: if_splits)
  qed simp
  then show ?thesis by (simp add: length_filter_items)
qed

lemma filter_le: "(\<And>x. x \<in> set xs \<Longrightarrow> P x \<Longrightarrow> Q x) \<Longrightarrow> length (filter P xs) \<le> length (filter Q xs)"
  by (induction xs) (auto intro: le_SucI)

text \<open>The items of all kinds and files.\<close>

lemma kinds_share_out:
  "(\<Sum>k \<leftarrow> kinds. length (filter (\<lambda>f. file_kind f = k \<and> P f) l)) = length (filter P l)"
proof (induction l)
  case (Cons f l)
  then show ?case by (cases "file_kind f") (simp_all add: kinds_def)
qed (simp add: kinds_def)

text \<open>Artifacts under resolved paths have different names in the report.\<close>

lemma display_name_inj:
  assumes "resolved_path p" and "resolved_path q" and "resolved_path cp"
    and "display_name cp p = display_name cp q"
  shows "p = q"
  using assms(4) resolved_parent [OF assms(3)] assms(1,2)
  unfolding display_name_def by (metis relpath_inj)

section \<open>The printed lines\<close>

text \<open>
  Where the parts of the report stand in its lines, as far as the properties name them:
  the two lines of totals, the table of failures, the table of file counts, the section
  of each enforced check, the errors and the summary of each check.
\<close>

lemma sublist_left: "sublist xs ys \<Longrightarrow> sublist xs (zs @ ys)"
  using sublist_order.order.trans [OF _ sublist_append_leftI] by blast

lemma sublist_right: "sublist xs ys \<Longrightarrow> sublist xs (ys @ zs)"
  using sublist_order.order.trans [OF _ sublist_append_rightI] by blast

lemma sublist_concat: "xs \<in> set xss \<Longrightarrow> sublist xs (concat xss)"
  by (auto dest!: split_list)

lemma report_totals:
  "report_lines cp modes n t ! 4 =
     ''Files checked: '' @ show_nat n @ ''; inspected: '' @ show_nat (checked t) @
     ''; files failing expectations: '' @ show_nat (failures t) @ ''; errors: '' @
     show_nat (length (error_list t))"
  "report_lines cp modes n t ! 5 =
     ''Check items: '' @ show_nat (code_items t) @ ''; failing expectations: '' @
     show_nat (failed_items t) @ ''; metadata items skipped: '' @ show_nat (skipped t)"
  unfolding report_lines_def summary_lines_def by simp_all

lemma report_check_summary:
  "c \<in> set check_names \<Longrightarrow> check_summary modes t c \<in> set (report_lines cp modes n t)"
  unfolding report_lines_def by simp

lemma report_failure_row:
  "c \<in> set check_names \<Longrightarrow> failure_row modes t c \<in> set (report_lines cp modes n t)"
  unfolding report_lines_def by simp

lemma report_file_table:
  "sublist ([''| Type           | Checked | Inspected | Errors |'',
       ''| -------------- | ------- | --------- | ------ |''] @ file_rows t)
     (report_lines cp modes n t)"
proof -
  let ?head = "[''| Type           | Checked | Inspected | Errors |'',
       ''| -------------- | ------- | --------- | ------ |'']"
  have "sublist (?head @ file_rows t) (b @ (?head @ file_rows t) @ a)" for a b by (rule sublist_appendI)
  then show ?thesis unfolding report_lines_def append_assoc append_Cons append_Nil
    by (intro sublist_left [of _ _ "summary_lines cp n t"]
        sublist_left [of _ _ "map (failure_row modes t) check_names"])
      (simp add: sublist_Cons_right)
qed

lemma report_section:
  assumes "c \<in> set (enforced modes t)"
  shows "sublist (failure_section modes t c) (report_lines cp modes n t)"
proof -
  have "sublist (failure_section modes t c) (concat (map (failure_section modes t) (enforced modes t)))"
    using assms by (intro sublist_concat) simp
  then show ?thesis unfolding report_lines_def by (intro sublist_left sublist_right)
qed

lemma report_errors:
  "sublist ([''## Inspection errors ('' @ show_nat (length (error_list t)) @ '')'', []] @ fenced (error_list t))
     (report_lines cp modes n t)"
proof -
  let ?h = "''## Inspection errors ('' @ show_nat (length (error_list t)) @ '')''"
  have core: "sublist ([?h, []] @ fenced (error_list t)) ([[], ?h, []] @ fenced (error_list t) @ rest)" for rest
    using sublist_appendI [of "[?h, []] @ fenced (error_list t)" "[[]]" rest] by simp
  show ?thesis unfolding report_lines_def by (rule core | rule sublist_left)+
qed

text \<open>The arithmetic of the tallies.\<close>

lemma final_adds_up:
  assumes "inspect_all readelf arts = Inr l"
    and "t = final rs cp modes rules l (start_tally errs)"
  shows "list_all (\<lambda>c. sum_list (map (counts t c) STATES) = code_items t) check_names"
    and "members_checked t = members_inspected t + members_failed t"
    and "sum_list (map (\<lambda>k. length (files t k)) kinds) = length arts"
    and "sum_list (map (inspected_by_kind t) kinds) = checked t"
    and "list_all (\<lambda>k. inspected_by_kind t k \<le> length (files t k)) kinds"
    and "failures t \<le> failed_items t" and "failed_items t \<le> code_items t"
    and "list_all (\<lambda>c. failed_total t c \<le> failed_items t) check_names"
proof -
  have arts: "length arts = length l" using inspect_all_files [OF assms(1)] by auto
  show "list_all (\<lambda>c. sum_list (map (counts t c) STATES) = code_items t) check_names"
    by (simp add: list_all_iff assms(2) states_share_out)
  have "length (filter (\<lambda>(n, u). unit_member u \<noteq> []) xs) =
      length (filter (\<lambda>(n, u). unit_member u \<noteq> [] \<and> unit_error u = []) xs) +
      length (filter (\<lambda>(n, u). unit_member u \<noteq> [] \<and> unit_error u \<noteq> []) xs)"
    for xs :: "(string \<times> inspected) list"
    by (induction xs) auto
  then show "members_checked t = members_inspected t + members_failed t"
    by (simp add: assms(2) tally_simps)
  show "sum_list (map (\<lambda>k. length (files t k)) kinds) = length arts"
    "sum_list (map (inspected_by_kind t) kinds) = checked t"
    using kinds_share_out [of "\<lambda>_. True" l] kinds_share_out [of fully_inspected l]
    by (simp_all add: assms(2) tally_simps arts kinds_def)
  show "list_all (\<lambda>k. inspected_by_kind t k \<le> length (files t k)) kinds"
    by (auto simp: assms(2) tally_simps list_all_iff intro!: filter_le)
  show "failures t \<le> failed_items t" "failed_items t \<le> code_items t"
    using failing_files_items [of cp modes rules l]
    by (auto simp: assms(2) tally_simps unit_fails_def unit_violates_def intro!: filter_le)
  show "list_all (\<lambda>c. failed_total t c \<le> failed_items t) check_names"
    by (auto simp: list_all_iff assms(2) final_failed_total tally_simps unit_fails_def intro!: filter_le)
qed

text \<open>The row and the section of a check with failures.\<close>

definition failed_row :: "options \<Rightarrow> tally \<Rightarrow> string \<Rightarrow> string" where
  "failed_row modes t c =
     ''| '' @ ljust 18 c @ '' | '' @ ljust 8 (expectation modes t c) @ '' | '' @
     ljust 32 (''['' @ show_nat (length (failures_by_check t c)) @ ''](#'' @ c @ '')'') @ '' | '' @
     rjust 12 (show_nat (failed_total t c)) @ '' |''"

definition failed_section :: "options \<Rightarrow> tally \<Rightarrow> string \<Rightarrow> string list" where
  "failed_section modes t c =
     [''### '' @ c, [],
      ''Expected '' @ expectation modes t c @ '': '' @ show_nat (failed_total t c) @ '' '' @
        (if failed_total t c = 1 then ''failure'' else ''failures''), [], ''```text''] @
     map entry_line (failures_by_check t c) @ [''```'']"

lemma violated_printed:
  assumes "0 < failed_total (final rs cp modes rules l (start_tally errs)) c"
  shows "failed_row modes (final rs cp modes rules l (start_tally errs)) c
      \<in> set (report_lines cp modes n (final rs cp modes rules l (start_tally errs)))"
    and "sublist (failed_section modes (final rs cp modes rules l (start_tally errs)) c)
      (report_lines cp modes n (final rs cp modes rules l (start_tally errs)))"
proof -
  let ?t = "final rs cp modes rules l (start_tally errs)"
  have e: "c \<in> set (enforced modes ?t)" using assms by (rule violated_is_enforced)
  then have "c \<in> set check_names" by (simp add: enforced_def)
  moreover from e have "failure_row modes ?t c = failed_row modes ?t c"
    by (simp add: failure_row_def failed_row_def)
  ultimately show "failed_row modes ?t c \<in> set (report_lines cp modes n ?t)"
    using report_failure_row [of c modes ?t cp n] by simp
  have "failures_by_check ?t c \<noteq> []" using assms by (auto simp: failed_total_def)
  then have "failure_section modes ?t c = [[]] @ failed_section modes ?t c"
    by (simp add: failure_section_def failed_section_def fenced_def)
  with report_section [OF e, of cp n] show "sublist (failed_section modes ?t c) (report_lines cp modes n ?t)"
    by (metis sublist_append_leftI sublist_order.order.trans)
qed

section \<open>Properties\<close>

text \<open>
  C7: \<open>make_report\<close> counts what it inspects and prints these counts: a file fails exactly
  when one of its code items violates its expectation for some check, the failing and
  checked items, the states and the failures of each check are the numbers of such items,
  and the errors it adds to the caller's list are those of the units, in order. The fifth
  and sixth line of the report state the totals, each check has a summary line with the
  number of items in each state, and the errors are listed with their number. It fails only
  where the inspection of a file raises an exception that the loop does not catch.
\<close>

theorem report_counts_inspections:
  "case inspect_all readelf arts of
     Inl e \<Rightarrow> make_report readelf rs arts errs modes cp rules = Inl e
   | Inr l \<Rightarrow> \<exists>t ls.
       tally_artifacts readelf rs cp modes rules arts (start_tally errs) = Inr t \<and>
       make_report readelf rs arts errs modes cp rules =
         Inr (join [newline] ls @ [newline], failures t, error_list t) \<and>
       error_list t = errs @ concat (map (file_errors cp) l) \<and>
       failures t = length (filter (file_fails cp modes rules) l) \<and>
       checked t = length (filter fully_inspected l) \<and>
       code_items t = length (filter (\<lambda>(n, u). is_code u) (items_of cp l)) \<and>
       failed_items t = length (filter (\<lambda>(n, u). unit_fails n modes rules u) (items_of cp l)) \<and>
       (\<forall>c. failed_total t c =
          length (filter (\<lambda>(n, u). unit_violates n modes rules u c) (items_of cp l))) \<and>
       (\<forall>c s. counts t c s = length (filter
          (\<lambda>(n, u). is_code u \<and> c \<in> set check_names \<and> s = unit_state u c) (items_of cp l))) \<and>
       ls ! 4 = ''Files checked: '' @ show_nat (length arts) @
         ''; inspected: '' @ show_nat (length (filter fully_inspected l)) @
         ''; files failing expectations: '' @ show_nat (length (filter (file_fails cp modes rules) l)) @
         ''; errors: '' @ show_nat (length errs + length (concat (map (file_errors cp) l))) \<and>
       ls ! 5 = ''Check items: '' @ show_nat (length (filter (\<lambda>(n, u). is_code u) (items_of cp l))) @
         ''; failing expectations: '' @
         show_nat (length (filter (\<lambda>(n, u). unit_fails n modes rules u) (items_of cp l))) @
         ''; metadata items skipped: '' @
         show_nat (length (filter (\<lambda>(n, u). unit_error u = [] \<and> unit_skipped u \<noteq> []) (items_of cp l))) \<and>
       list_all (\<lambda>c. ''  '' @ c @ '' (expectation: '' @ expectation modes t c @ ''): '' @
         join '', '' (map (\<lambda>s. state_text s @ ''='' @ show_nat (length (filter
           (\<lambda>(n, u). is_code u \<and> c \<in> set check_names \<and> s = unit_state u c) (items_of cp l)))) STATES)
         \<in> set ls) check_names \<and>
       sublist ([''## Inspection errors ('' @ show_nat (length (error_list t)) @ '')'', []] @
         fenced (errs @ concat (map (file_errors cp) l))) ls"
proof (cases "inspect_all readelf arts")
  case (Inl e)
  then show ?thesis by (simp add: make_report_def tally_artifacts_fold)
next
  case (Inr l)
  define t where "t = final rs cp modes rules l (start_tally errs)"
  have t: "tally_artifacts readelf rs cp modes rules arts (start_tally errs) = Inr t"
    unfolding t_def using Inr by (rule tally_artifacts_final)
  have counts: "counts t c s = length (filter
      (\<lambda>(n, u). is_code u \<and> c \<in> set check_names \<and> s = unit_state u c) (items_of cp l))" for c s
    by (simp add: t_def tally_simps)
  have numbers: "error_list t = errs @ concat (map (file_errors cp) l)"
    "failures t = length (filter (file_fails cp modes rules) l)"
    "checked t = length (filter fully_inspected l)"
    "code_items t = length (filter (\<lambda>(n, u). is_code u) (items_of cp l))"
    "failed_items t = length (filter (\<lambda>(n, u). unit_fails n modes rules u) (items_of cp l))"
    "skipped t = length (filter (\<lambda>(n, u). unit_error u = [] \<and> unit_skipped u \<noteq> []) (items_of cp l))"
    by (simp_all add: t_def tally_simps)
  have total: "failed_total t c =
      length (filter (\<lambda>(n, u). unit_violates n modes rules u c) (items_of cp l))" for c
    unfolding t_def by (rule final_failed_total)
  note summary = report_check_summary [of _ modes t cp "length arts", unfolded check_summary_def counts]
  show ?thesis
    unfolding Inr sum.case
  proof (intro exI [of _ t] exI [of _ "report_lines cp modes (length arts) t"] conjI allI t numbers
      counts total, goal_cases)
    case 1
    show ?case by (simp only: make_report_def t bind_result_Inr)
  next
    case 2
    show ?case by (simp only: report_totals numbers length_append)
  next
    case 3
    show ?case by (simp only: report_totals numbers)
  next
    case 4
    show ?case unfolding list_all_iff using summary by blast
  next
    case 5
    show ?case using report_errors [of t cp modes "length arts"] by (simp only: numbers(1))
  qed
qed


text \<open>
  C12: the column of failed files is exact: for artifacts with different resolved paths,
  the entries of a check are the files with an item that violates it, each once, in the
  order of the artifacts, although the report groups the failures by a relative name.
\<close>

theorem failed_files_per_check:
  assumes "inspect_all readelf arts = Inr l" and "distinct (map fst arts)"
    and "list_all resolved_path (map fst arts)" and "resolved_path cp"
  shows "\<exists>t. tally_artifacts readelf rs cp modes rules arts (start_tally errs) = Inr t \<and>
    map fst (failures_by_check t c) = map (file_name cp) (filter (file_violates cp modes rules c) l)"
proof -
  have fst_l: "map fst l = map fst arts"
    using inspect_all_files [OF assms(1)] by (auto simp: split_beta o_def)
  have "inj_on (display_name cp) (set (map fst l))"
    using assms(3,4) unfolding fst_l
    by (auto intro!: inj_onI dest: display_name_inj simp: list_all_iff)
  then have "distinct (map (display_name cp) (map fst l))"
    using assms(2) by (simp only: distinct_map fst_l)
  moreover have "file_name cp = (\<lambda>f. display_name cp (fst f))"
    by (simp add: file_name_def split_beta fun_eq_iff)
  ultimately have "distinct (map (file_name cp) l)" by (simp add: o_def)
  from final_names [OF this, of "start_tally errs" c rs modes rules]
  show ?thesis
    by (simp add: tally_artifacts_final [OF assms(1)] entry_names_def)
qed

definition bare_output :: completed where
  "bare_output = \<lparr>returncode = 0, stdout = ''ELF Header:'', stderr = []\<rparr>"

theorem failed_files_per_check_witness:
  "\<exists>t. tally_artifacts (\<lambda>_. Inr bare_output) id (parse_path ''/w/c.ini'') [] []
      [(parse_path ''/w/a.o'', Object)] (start_tally []) = Inr t \<and>
    map fst (failures_by_check t ''asan'') = []"
proof -
  have "\<exists>l. inspect_all (\<lambda>_. Inr bare_output) [(parse_path ''/w/a.o'', Object)] = Inr l"
    by (simp add: artifact_units_def inspect_def)
  then obtain l where l: "inspect_all (\<lambda>_. Inr bare_output) [(parse_path ''/w/a.o'', Object)] = Inr l" ..
  have d: "distinct (map fst [(parse_path ''/w/a.o'', Object)])" by simp
  have r: "list_all resolved_path (map fst [(parse_path ''/w/a.o'', Object)])"
    "resolved_path (parse_path ''/w/c.ini'')"
    by code_simp+
  have "\<not> file_violates (parse_path ''/w/c.ini'') [] [] ''asan'' f" for f
    by (auto simp: file_violates_def unit_violates_def item_violates_def policy_failed_def mode_of_def)
  then show ?thesis
    using failed_files_per_check [OF l d r, of id "[]" "[]" "[]" "''asan''"] by simp
qed

end
