(* ===== verification/Checker_Main.thy ===== *)
theory Checker_Main
  imports Discovery Report_Facts
begin

text \<open>
  \<open>main\<close> of \<open>check_build.py\<close>: configuration, discovery, the checks that protect
  the inputs from the report, the report, and the exit status. What the run changes is
  recorded: directories made, files written, and lines printed.
\<close>

section \<open>The system around the checker\<close>

text \<open>
  Besides the file system: readelf and whether it is found, the decoded text of a file, the
  path of the script, and the faults of making a directory and of writing a file.
\<close>

record system =
  sys_os :: os
  sys_readelf :: "string \<Rightarrow> completed result"
  sys_has_readelf :: bool
  sys_text :: "path \<Rightarrow> string result"
  sys_script :: path
  sys_mkdir :: "path \<Rightarrow> string option"
  sys_write :: "path \<Rightarrow> string option"

record run =
  out_lines :: "string list"
  err_lines :: "string list"
  made_dirs :: "path list"
  writes :: "(path \<times> string) list"

definition quiet_run :: run where
  "quiet_run = \<lparr>out_lines = [], err_lines = [], made_dirs = [], writes = []\<rparr>"

section \<open>The configuration\<close>

definition resolve :: "system \<Rightarrow> path \<Rightarrow> path" where
  "resolve sys = os_resolve (sys_os sys)"

definition config_location :: "system \<Rightarrow> path option \<Rightarrow> path" where
  "config_location sys arg = resolve sys (case arg of
     None \<Rightarrow> child (parent (sys_script sys)) ''check-build.ini''
   | Some p \<Rightarrow> p)"

definition read_config :: "system \<Rightarrow> path \<Rightarrow> config result" where
  "read_config sys p =
     bind_result (sys_text sys p) (\<lambda>text. bind_result (parse_ini text) (load_config p))"

section \<open>Protecting the inputs\<close>

text \<open>\<open>re.search(r"\.so(?:\..*)?$", name)\<close>\<close>

definition at_end :: "string \<Rightarrow> bool" where
  "at_end s \<longleftrightarrow> s = [] \<or> s = [newline]"

definition so_tail :: "string \<Rightarrow> bool" where
  "so_tail s \<longleftrightarrow> prefix ''.so'' s \<and>
     (let r = drop 3 s
      in at_end r \<or> (prefix ''.'' r \<and> at_end (dropWhile (\<lambda>c. c \<noteq> newline) (tl r))))"

definition artifact_name :: "path \<Rightarrow> bool" where
  "artifact_name p \<longleftrightarrow>
     suffix_of (path_name p) \<in> {''.o'', ''.obj'', ''.lo'', ''.ko'', ''.a'', ''.rlib'', ''.bc''} \<or>
     list_ex so_tail (suffixes (path_name p))"

text \<open>
  The test \<open>exists() and exists() and samefile()\<close> over the inputs. The code iterates
  over a set; in any order the outcome is a hit, no hit, or an OSError.
\<close>

fun same_as_any :: "os \<Rightarrow> path \<Rightarrow> path list \<Rightarrow> bool result" where
  "same_as_any os report [] = Inr False"
| "same_as_any os report (p # ps) =
     bind_result (exists os report) (\<lambda>there.
       if \<not> there then same_as_any os report ps
       else bind_result (exists os p) (\<lambda>p_there.
         if \<not> p_there then same_as_any os report ps
         else case (os_stat os report, os_stat os p) of
                (Inr a, Inr b) \<Rightarrow> if st_ident a = st_ident b then Inr True else same_as_any os report ps
              | (Inl f, _) \<Rightarrow> Inl (OSError (fault_text f))
              | (Inr a, Inl f) \<Rightarrow> Inl (OSError (fault_text f))))"

definition ARTIFACT_MAGICS :: "bytes list" where
  "ARTIFACT_MAGICS = ELF_MAGIC # AR_MAGICS @ BC_MAGICS"

definition check_existing :: "os \<Rightarrow> path \<Rightarrow> unit result" where
  "check_existing os report = (case os_stat os report of
     Inl f \<Rightarrow> Inl (OSError (fault_text f))
   | Inr st \<Rightarrow>
       if st_type st \<noteq> Regular then Inl (ValueError ''output path must be a regular file'')
       else if 1 < st_nlink st then
         Inl (ValueError ''output path must not be hardlinked to another file'')
       else case os_read os report of
              Inl m \<Rightarrow> Inl (OSError m)
            | Inr content \<Rightarrow>
                if starts_with ARTIFACT_MAGICS (take 8 content) then
                  Inl (ValueError ''output path must not overwrite an artifact, even if excluded'')
                else Inr ())"

definition check_output :: "os \<Rightarrow> path \<Rightarrow> path \<Rightarrow> path list \<Rightarrow> unit result" where
  "check_output os configured report inputs =
     (if artifact_name configured \<or> artifact_name report then
        Inl (ValueError
          ''output paths must not use object, archive, or shared-library filenames'')
      else
        bind_result (if report \<in> set inputs then Inr True else same_as_any os report inputs) (\<lambda>clash.
          if clash then
            Inl (ValueError ''output path must not overwrite an input artifact, config, or checker'')
          else bind_result (exists os report) (\<lambda>there.
            if there then check_existing os report else Inr ())))"

section \<open>main\<close>

definition inputs_of :: "system \<Rightarrow> path \<Rightarrow> config \<Rightarrow> (path \<times> artifact_kind) list \<Rightarrow> path list" where
  "inputs_of sys config_path cfg artifacts =
     map fst artifacts @ map (resolve sys) (binary_paths cfg) @
     [config_path, resolve sys (sys_script sys)]"

definition search :: "system \<Rightarrow> path \<Rightarrow> config \<Rightarrow> found result" where
  "search sys config_path cfg = discover (sys_os sys) (object_dirs cfg) (binary_paths cfg)
     (excludes cfg) (parent config_path)"

text \<open>Everything up to the report: its path and text, and the numbers that main prints.\<close>

definition prepare ::
  "system \<Rightarrow> path \<Rightarrow> (path \<times> string \<times> nat \<times> nat \<times> string list) result" where
  "prepare sys config_path =
     bind_result (read_config sys config_path) (\<lambda>cfg.
     if \<not> sys_has_readelf sys then
       Inl (ValueError ''readelf is required (install GNU binutils)'')
     else bind_result (search sys config_path cfg) (\<lambda>(artifacts, errors).
       let report = resolve sys (report_path cfg)
       in bind_result (check_output (sys_os sys) (report_path cfg) report
              (inputs_of sys config_path cfg artifacts)) (\<lambda>_.
          bind_result (make_report (sys_readelf sys) (resolve sys) artifacts errors
              (base_modes cfg) config_path (path_rules cfg)) (\<lambda>(text, n_failing, errors').
            Inr (report, text, length artifacts, n_failing, errors')))))"

definition reported :: "py_exn \<Rightarrow> bool" where
  "reported e = (case e of OSError _ \<Rightarrow> True | ValueError _ \<Rightarrow> True | ConfigError _ \<Rightarrow> True | _ \<Rightarrow> False)"

text \<open>The handler at the end of \<open>main\<close>; other exceptions leave it.\<close>

definition fail :: "py_exn \<Rightarrow> run \<Rightarrow> int result \<times> run" where
  "fail e r = (if reported e then (Inr 2, r\<lparr>err_lines := err_lines r @ [''Error: '' @ exn_text e]\<rparr>)
               else (Inl e, r))"

definition exit_code :: "nat \<Rightarrow> string list \<Rightarrow> int" where
  "exit_code n_failing errors = (if errors \<noteq> [] then 2 else if n_failing \<noteq> 0 then 1 else 0)"

definition report_message :: "path \<Rightarrow> nat \<Rightarrow> nat \<Rightarrow> string list \<Rightarrow> string" where
  "report_message report n n_failing errors =
     ''Report: '' @ path_text report @ '' ('' @ show_nat n @ '' artifacts, '' @ show_nat n_failing @
     '' policy failures, '' @ show_nat (length errors) @ '' errors)''"

definition checker_main :: "system \<Rightarrow> path option \<Rightarrow> int result \<times> run" where
  "checker_main sys arg =
     (case prepare sys (config_location sys arg) of
        Inl e \<Rightarrow> fail e quiet_run
      | Inr (report, text, n, n_failing, errors) \<Rightarrow>
          let r1 = quiet_run\<lparr>made_dirs := [parent report]\<rparr>
          in case sys_mkdir sys (parent report) of
               Some m \<Rightarrow> fail (OSError m) r1
             | None \<Rightarrow>
                 let r2 = r1\<lparr>writes := [(report, text)]\<rparr>
                 in case sys_write sys report of
                      Some m \<Rightarrow> fail (OSError m) r2
                    | None \<Rightarrow>
                        (Inr (exit_code n_failing errors),
                         r2\<lparr>out_lines := [report_message report n n_failing errors]\<rparr>))"

section \<open>Facts\<close>

text \<open>A report path that may be written: no input, under no name and in no guise.\<close>

definition may_write :: "os \<Rightarrow> path \<Rightarrow> path list \<Rightarrow> bool" where
  "may_write os report inputs \<longleftrightarrow> \<not> artifact_name report \<and> report \<notin> set inputs \<and>
     (case os_stat os report of
        Inl f \<Rightarrow> (\<exists>m. f = Missing m)
      | Inr st \<Rightarrow> st_type st = Regular \<and> st_nlink st \<le> 1 \<and>
          (\<exists>content. os_read os report = Inr content \<and> \<not> starts_with ARTIFACT_MAGICS (take 8 content)) \<and>
          list_all (\<lambda>p. case os_stat os p of Inl f \<Rightarrow> True | Inr st' \<Rightarrow> st_ident st' \<noteq> st_ident st) inputs)"

lemma same_as_any_False:
  assumes "os_stat os report = Inr st" and "same_as_any os report ps = Inr False"
  shows "list_all (\<lambda>p. case os_stat os p of Inl f \<Rightarrow> True | Inr st' \<Rightarrow> st_ident st' \<noteq> st_ident st) ps"
  using assms(2)
proof (induction ps)
  case (Cons p ps)
  have there: "exists os report = Inr True" using assms(1) by (simp add: exists_def)
  show ?case
  proof (cases "os_stat os p")
    case (Inl f)
    then show ?thesis
      using Cons there by (cases f) (auto simp: exists_def [of os p])
  next
    case (Inr st')
    then have "exists os p = Inr True" by (simp add: exists_def)
    with Cons there Inr assms(1) show ?thesis by (auto split: if_splits)
  qed
qed simp

lemma check_output_protects:
  assumes "check_output os configured report inputs = Inr u"
  shows "may_write os report inputs"
proof -
  have name: "\<not> artifact_name report" and no: "report \<notin> set inputs"
    and same: "same_as_any os report inputs = Inr False"
    using assms by (auto simp: check_output_def bind_result_eq_Inr split: if_splits)
  obtain there where there: "exists os report = Inr there"
    and ex: "there \<Longrightarrow> check_existing os report = Inr ()"
    using assms by (auto simp: check_output_def bind_result_eq_Inr split: if_splits)
  show ?thesis
  proof (cases "os_stat os report")
    case (Inl f)
    with there have "\<exists>m. f = Missing m" by (cases f) (auto simp: exists_def)
    with name no Inl show ?thesis by (simp add: may_write_def)
  next
    case (Inr st)
    with there have there by (simp add: exists_def)
    from ex [OF this] Inr have "st_type st = Regular \<and> st_nlink st \<le> 1 \<and>
        (\<exists>content. os_read os report = Inr content \<and> \<not> starts_with ARTIFACT_MAGICS (take 8 content))"
      by (auto simp: check_existing_def split: if_splits sum.splits)
    with name no Inr same_as_any_False [OF Inr same] show ?thesis by (simp add: may_write_def)
  qed
qed

lemma fail_run [simp]:
  "writes (snd (fail e r)) = writes r" "made_dirs (snd (fail e r)) = made_dirs r"
  "fst (fail e r) = (if reported e then Inr 2 else Inl e)"
  by (simp_all add: fail_def)

text \<open>A run that gets as far as the report: what it has read and found on the way.\<close>

definition completes ::
  "system \<Rightarrow> path \<Rightarrow> config \<Rightarrow> (path \<times> artifact_kind) list \<Rightarrow> string list \<Rightarrow> inspected_file list \<Rightarrow> bool" where
  "completes sys config_path cfg arts errs l \<longleftrightarrow>
     read_config sys config_path = Inr cfg \<and> sys_has_readelf sys \<and>
     search sys config_path cfg = Inr (arts, errs) \<and>
     check_output (sys_os sys) (report_path cfg) (resolve sys (report_path cfg))
       (inputs_of sys config_path cfg arts) = Inr () \<and>
     inspect_all (sys_readelf sys) arts = Inr l"

definition all_errors :: "path \<Rightarrow> string list \<Rightarrow> inspected_file list \<Rightarrow> string list" where
  "all_errors config_path errs l = errs @ concat (map (file_errors config_path) l)"

definition failing_files :: "path \<Rightarrow> config \<Rightarrow> inspected_file list \<Rightarrow> inspected_file list" where
  "failing_files config_path cfg l = filter (file_fails config_path (base_modes cfg) (path_rules cfg)) l"

lemma make_report_Inr:
  "make_report readelf rs arts errs modes cp rules = Inr (text, n, errs') \<longleftrightarrow>
     (\<exists>l. inspect_all readelf arts = Inr l \<and>
        text = join [newline] (report_lines cp modes (length arts)
          (final rs cp modes rules l (start_tally errs))) @ [newline] \<and>
        n = length (filter (file_fails cp modes rules) l) \<and>
        errs' = errs @ concat (map (file_errors cp) l))"
  by (auto simp: make_report_def tally_artifacts_fold bind_result_eq_Inr tally_simps)

lemma prepare_Inr:
  "prepare sys cp = Inr (report, text, n, n_failing, errors) \<longleftrightarrow>
     (\<exists>cfg arts errs l. completes sys cp cfg arts errs l \<and>
        report = resolve sys (report_path cfg) \<and> n = length arts \<and>
        text = join [newline] (report_lines cp (base_modes cfg) n
          (final (resolve sys) cp (base_modes cfg) (path_rules cfg) l (start_tally errs))) @ [newline] \<and>
        n_failing = length (failing_files cp cfg l) \<and> errors = all_errors cp errs l)"
  (is "?p = ?e")
proof
  assume ?p
  then obtain cfg arts errs where
    c: "read_config sys cp = Inr cfg" "sys_has_readelf sys" "search sys cp cfg = Inr (arts, errs)"
      "check_output (sys_os sys) (report_path cfg) (resolve sys (report_path cfg))
         (inputs_of sys cp cfg arts) = Inr ()" and
    m: "make_report (sys_readelf sys) (resolve sys) arts errs (base_modes cfg) cp (path_rules cfg) =
         Inr (text, n_failing, errors)" and
    r: "report = resolve sys (report_path cfg)" "n = length arts"
    by (auto simp: prepare_def bind_result_eq_Inr Let_def split: if_splits)
  from m obtain l where "inspect_all (sys_readelf sys) arts = Inr l"
    "text = join [newline] (report_lines cp (base_modes cfg) (length arts)
       (final (resolve sys) cp (base_modes cfg) (path_rules cfg) l (start_tally errs))) @ [newline]"
    "n_failing = length (failing_files cp cfg l)" "errors = all_errors cp errs l"
    unfolding make_report_Inr failing_files_def all_errors_def by blast
  with c r show ?e unfolding completes_def by blast
next
  assume ?e
  then obtain cfg arts errs l where c: "completes sys cp cfg arts errs l"
    and r: "report = resolve sys (report_path cfg)" "n = length arts"
    and t: "text = join [newline] (report_lines cp (base_modes cfg) (length arts)
       (final (resolve sys) cp (base_modes cfg) (path_rules cfg) l (start_tally errs))) @ [newline]"
    and f: "n_failing = length (failing_files cp cfg l)" "errors = all_errors cp errs l"
    by blast
  have "make_report (sys_readelf sys) (resolve sys) arts errs (base_modes cfg) cp (path_rules cfg) =
      Inr (text, n_failing, errors)"
    unfolding make_report_Inr using c t f
    by (auto simp: completes_def failing_files_def all_errors_def)
  with c r show ?p by (simp add: prepare_def completes_def Let_def)
qed

lemma unit_errors_Nil: "unit_errors name seen us = [] \<longleftrightarrow> list_all (\<lambda>u. unit_error u = []) us"
  by (induction us arbitrary: seen) auto

lemma file_errors_Nil: "file_errors cp f = [] \<longleftrightarrow> fully_inspected f"
  by (cases f) (simp add: file_errors_def fully_inspected_def unit_errors_Nil)

lemma all_errors_Nil: "all_errors cp errs l = [] \<longleftrightarrow> errs = [] \<and> list_all fully_inspected l"
  by (auto simp: all_errors_def list_all_iff file_errors_Nil)

text \<open>The report could be saved.\<close>

definition saved :: "system \<Rightarrow> config \<Rightarrow> bool" where
  "saved sys cfg \<longleftrightarrow>
     (let report = resolve sys (report_path cfg)
      in sys_mkdir sys (parent report) = None \<and> sys_write sys report = None)"

lemma exit_codes: "exit_code n errs \<in> {0, 1, 2}"
  "exit_code n errs = 0 \<longleftrightarrow> n = 0 \<and> errs = []" "exit_code n errs = 1 \<longleftrightarrow> n \<noteq> 0 \<and> errs = []"
  by (auto simp: exit_code_def)

lemma checker_main_code:
  assumes "c \<noteq> 2"
  shows "fst (checker_main sys arg) = Inr c \<longleftrightarrow>
    (\<exists>cfg arts errs l. completes sys (config_location sys arg) cfg arts errs l \<and> saved sys cfg \<and>
       exit_code (length (failing_files (config_location sys arg) cfg l))
         (all_errors (config_location sys arg) errs l) = c)"
proof (cases "prepare sys (config_location sys arg)")
  case (Inl e)
  then have "\<not> completes sys (config_location sys arg) cfg arts errs l" for cfg arts errs l
    using prepare_Inr [of sys "config_location sys arg"] by fastforce
  with Inl assms show ?thesis by (simp add: checker_main_def)
next
  case (Inr x)
  obtain report body n n_failing errors where x: "x = (report, body, n, n_failing, errors)"
    by (cases x)
  from Inr [unfolded x prepare_Inr] obtain cfg arts errs l where
    c: "completes sys (config_location sys arg) cfg arts errs l"
      "report = resolve sys (report_path cfg)"
      "n_failing = length (failing_files (config_location sys arg) cfg l)"
      "errors = all_errors (config_location sys arg) errs l"
    by blast
  have unique: "cfg' = cfg \<and> errs' = errs \<and> l' = l"
    if "completes sys (config_location sys arg) cfg' arts' errs' l'" for cfg' arts' errs' l'
    using that c(1) by (auto simp: completes_def)
  have "fst (checker_main sys arg) = Inr c \<longleftrightarrow> saved sys cfg \<and> exit_code n_failing errors = c"
    using assms by (auto simp: checker_main_def Inr x saved_def c(2) Let_def reported_def split: option.splits)
  also have "\<dots> \<longleftrightarrow> (\<exists>cfg arts errs l. completes sys (config_location sys arg) cfg arts errs l \<and>
       saved sys cfg \<and> exit_code (length (failing_files (config_location sys arg) cfg l))
         (all_errors (config_location sys arg) errs l) = c)"
    unfolding c(3,4) using c(1) unique by blast
  finally show ?thesis .
qed

lemma checker_main_zero:
  "fst (checker_main sys arg) = Inr 0 \<longleftrightarrow>
     (\<exists>cfg arts l. completes sys (config_location sys arg) cfg arts [] l \<and>
        list_all fully_inspected l \<and> failing_files (config_location sys arg) cfg l = [] \<and>
        saved sys cfg)"
proof -
  have n: "(0 :: int) \<noteq> 2" by simp
  show ?thesis unfolding checker_main_code [OF n] exit_codes all_errors_Nil by auto
qed

text \<open>What an expectation that is met says of the evidence of an item.\<close>

definition expectation_met :: "string \<Rightarrow> evidence \<Rightarrow> string \<times> rx option \<times> rx option \<Rightarrow> bool" where
  "expectation_met mode ev = (\<lambda>(check, sy, se).
     if mode = ''present'' then
       some_match se (ev_sections ev) \<or> some_match sy (ev_references ev) \<or>
       check = ''libfuzzer'' \<and> map_of (ev_other ev) ''LLVMFuzzerRunDriver'' = Some ''definition''
     else if mode = ''absent'' then
       ev_symbols_present ev \<and> \<not> some_match se (ev_sections ev) \<and>
       \<not> some_match sy (ev_references ev) \<and> \<not> some_match sy (fst ` set (ev_other ev))
     else True)"

lemma met_if_no_violation:
  assumes "\<not> item_violates ms ev check" and "finite_evidence ev" and "(check, sy, se) \<in> set CHECKS"
  shows "expectation_met (mode_of ms check) ev (check, sy, se)"
proof -
  have "map_of CHECKS check = Some (sy, se)"
    using assms(3) distinct_check_names by (simp add: check_names_def)
  note d = detect_state [OF assms(2) this]
  note driver = driver_matches [OF \<open>map_of CHECKS check = Some (sy, se)\<close>]
  from assms(1) show ?thesis
    unfolding item_violates_def item_state_def policy_failed_def expectation_met_def d
    using driver by (auto split: if_splits)
qed

text \<open>
  The exceptions of the run of readelf carry a text, as those of \<open>subprocess.run\<close> do.
  (An exception without one would give a unit without error and without evidence.)
\<close>

definition readelf_explains :: "system \<Rightarrow> bool" where
  "readelf_explains sys \<longleftrightarrow> (\<forall>p e. sys_readelf sys p = Inl e \<longrightarrow> exn_text e \<noteq> [])"

lemma inspect_units:
  assumes "inspect readelf p kind = Inr us"
  shows "us \<noteq> [] \<and> list_all one_outcome us \<and>
    list_all (\<lambda>u. \<forall>ev. unit_evidence u = Some ev \<longrightarrow> finite_evidence ev) us"
proof -
  have m: "one_outcome (member_unit mt)" "unit_evidence (member_unit mt) = Some ev \<Longrightarrow> finite_evidence ev" for mt ev
    by (rule member_unit_outcome)
      (cases mt; auto simp: member_unit_def split: sum.splits dest: parse_elf_finite)
  have e: "one_outcome (error_unit x y)" if "y \<noteq> []" for x y
    using that by (simp add: one_outcome_def)
  from assms obtain r where "us = (if kind \<noteq> Archive then file_units r else archive_units (path_text p) r)"
    by (auto simp: inspect_def bind_result_eq_Inr)
  then show ?thesis
    by (auto simp: file_units_def archive_units_def Let_def list_all_iff m e)
qed

definition sound_unit :: "inspected \<Rightarrow> bool" where
  "sound_unit u \<longleftrightarrow> unit_error u \<noteq> [] \<or> unit_skipped u \<noteq> [] \<or>
     (\<exists>ev. unit_evidence u = Some ev \<and> finite_evidence ev)"

lemma inspect_all_sound:
  assumes "readelf_explains sys" and "inspect_all (sys_readelf sys) arts = Inr l"
  shows "list_all (\<lambda>(p, kind, us). us \<noteq> [] \<and> list_all sound_unit us) l"
proof -
  have units: "us \<noteq> [] \<and> list_all sound_unit us"
    if a: "artifact_units (sys_readelf sys) p kind = Inr us" for p kind us
  proof (cases "inspect (sys_readelf sys) p kind")
    case (Inl e)
    then have "sys_readelf sys (path_text p) = Inl e"
      by (simp add: inspect_def bind_result_eq_Inl)
    then have "exn_text e \<noteq> []" using assms(1) by (auto simp: readelf_explains_def)
    with Inl a show ?thesis by (auto simp: artifact_units_def sound_unit_def split: if_splits)
  next
    case (Inr vs)
    with a have "us = vs" by (simp add: artifact_units_def)
    with inspect_units [OF Inr] show ?thesis
      by (auto simp: list_all_iff sound_unit_def one_outcome_def split: option.splits)
  qed
  show ?thesis using assms(2)
    by (induction "sys_readelf sys" arts arbitrary: l rule: inspect_all.induct)
      (auto simp: bind_result_eq_Inr units)
qed

section \<open>Properties\<close>

text \<open>
  C6: the report never overwrites an input: at most one file is written, the configured
  report, and only if it is none of the artifacts, the configured binaries, the
  configuration and the checker, under its own or another name; if it exists, it is a
  regular file with a single link that does not begin like an artifact.
\<close>

theorem report_never_overwrites_input:
  "length (writes (snd (checker_main sys arg))) \<le> 1 \<and>
   list_all (\<lambda>(report, text). \<exists>cfg arts errs.
       read_config sys (config_location sys arg) = Inr cfg \<and>
       search sys (config_location sys arg) cfg = Inr (arts, errs) \<and>
       report = resolve sys (report_path cfg) \<and>
       may_write (sys_os sys) report (inputs_of sys (config_location sys arg) cfg arts))
     (writes (snd (checker_main sys arg)))"
proof (cases "prepare sys (config_location sys arg)")
  case (Inl e)
  then show ?thesis by (simp add: checker_main_def quiet_run_def)
next
  case (Inr x)
  obtain report body n n_failing errors where x: "x = (report, body, n, n_failing, errors)"
    by (cases x)
  from Inr [unfolded x prepare_Inr] obtain cfg arts errs l where
    "completes sys (config_location sys arg) cfg arts errs l" and r: "report = resolve sys (report_path cfg)"
    by blast
  then have c: "read_config sys (config_location sys arg) = Inr cfg"
    "search sys (config_location sys arg) cfg = Inr (arts, errs)"
    "may_write (sys_os sys) report (inputs_of sys (config_location sys arg) cfg arts)"
    by (auto simp: completes_def dest: check_output_protects)
  have "set (writes (snd (checker_main sys arg))) \<subseteq> {(report, body)} \<and>
      length (writes (snd (checker_main sys arg))) \<le> 1"
    by (auto simp: checker_main_def Inr x Let_def quiet_run_def split: option.splits)
  with c r show ?thesis by (auto simp: list_all_iff)
qed


text \<open>
  C5: what status 0 guarantees about the build: there is an artifact, and every item of
  every artifact is Rust metadata or carries evidence for which each expectation that the
  configuration sets for this item is met: "present" by a strong reference, an
  instrumentation section or the libFuzzer driver, "absent" by a symbol table without any
  matching name.
\<close>

theorem exit_zero_guarantees_evidence:
  assumes "fst (checker_main sys arg) = Inr 0" and "readelf_explains sys"
  shows "\<exists>cfg arts l. completes sys (config_location sys arg) cfg arts [] l \<and> l \<noteq> [] \<and>
    list_all (\<lambda>(p, kind, us). us \<noteq> [] \<and> list_all (\<lambda>u. unit_skipped u \<noteq> [] \<or>
      (\<exists>ev. unit_evidence u = Some ev \<and> list_all (\<lambda>(check, pats). expectation_met
         (mode_of (effective_modes (display_name (config_location sys arg) p) (unit_member u)
            (base_modes cfg) (path_rules cfg)) check) ev (check, pats)) CHECKS)) us) l"
proof -
  let ?cp = "config_location sys arg"
  from assms(1) obtain cfg arts l where
    c: "completes sys ?cp cfg arts [] l" and no_error: "list_all fully_inspected l"
    and no_fail: "failing_files ?cp cfg l = []"
    unfolding checker_main_zero by blast
  have "discover (sys_os sys) (object_dirs cfg) (binary_paths cfg) (excludes cfg) (parent ?cp) = Inr (arts, [])"
    and ins: "inspect_all (sys_readelf sys) arts = Inr l"
    using c by (simp_all add: completes_def search_def)
  from discover_result(5) [OF this(1)] inspect_all_files [OF ins] have "l \<noteq> []" by auto
  moreover have "us \<noteq> [] \<and> (\<forall>u \<in> set us. unit_skipped u \<noteq> [] \<or>
      (\<exists>ev. unit_evidence u = Some ev \<and> list_all (\<lambda>(check, pats). expectation_met
         (mode_of (effective_modes (display_name ?cp p) (unit_member u)
            (base_modes cfg) (path_rules cfg)) check) ev (check, pats)) CHECKS))"
    if f: "(p, kind, us) \<in> set l" for p kind us
  proof (intro conjI ballI)
    show "us \<noteq> []" using inspect_all_sound [OF assms(2) ins] f by (auto simp: list_all_iff)
    fix u assume u: "u \<in> set us"
    have ok: "sound_unit u" "unit_error u = []"
      using inspect_all_sound [OF assms(2) ins] no_error f u
      by (auto simp: list_all_iff fully_inspected_def)
    have "\<not> file_fails ?cp (base_modes cfg) (path_rules cfg) (p, kind, us)"
      using no_fail f by (auto simp: failing_files_def filter_empty_conv)
    then have v: "\<not> unit_violates (display_name ?cp p) (base_modes cfg) (path_rules cfg) u check" for check
      using u by (auto simp: file_fails_def unit_fails_def)
    show "unit_skipped u \<noteq> [] \<or> (\<exists>ev. unit_evidence u = Some ev \<and>
        list_all (\<lambda>(check, pats). expectation_met
         (mode_of (effective_modes (display_name ?cp p) (unit_member u)
            (base_modes cfg) (path_rules cfg)) check) ev (check, pats)) CHECKS)"
    proof (cases "unit_skipped u = []")
      case True
      with ok obtain ev where ev: "unit_evidence u = Some ev" "finite_evidence ev"
        by (auto simp: sound_unit_def)
      have "expectation_met (mode_of (effective_modes (display_name ?cp p) (unit_member u)
            (base_modes cfg) (path_rules cfg)) check) ev (check, sy, se)"
        if k: "(check, sy, se) \<in> set CHECKS" for check sy se
        using v [of check] ok(2) True ev k
        by (intro met_if_no_violation) (force simp: unit_violates_def is_code_def check_names_def)+
      with ev(1) show ?thesis by (auto simp: list_all_iff)
    qed simp
  qed
  ultimately show ?thesis using c by (intro exI [of _ cfg] exI [of _ arts] exI [of _ l])
    (auto simp: list_all_iff)
qed

definition bare_elf :: string where
  "bare_elf = ''ELF Header:'' @ [newline] @
     ''  [ 1] .text             PROGBITS        0000000000000000 000040 0000a9 00  AX  0   0 16'' @ [newline] @
     ''  [ 2] .symtab           SYMTAB          0000000000000000 000810 0001f3 18      3   1  8''"

definition small_system :: system where
  "small_system = \<lparr>sys_os = small_os,
     sys_readelf = (\<lambda>p. Inr \<lparr>returncode = 0, stdout = bare_elf, stderr = []\<rparr>),
     sys_has_readelf = True,
     sys_text = (\<lambda>p. Inr (''[scan]'' @ [newline] @ ''object_dirs = build'' @ [newline] @
       ''[checks]'' @ [newline] @ ''asan = absent'' @ [newline] @ ''msan = absent'')),
     sys_script = parse_path ''/w/check_build.py'',
     sys_mkdir = (\<lambda>p. None), sys_write = (\<lambda>p. None)\<rparr>"

definition small_config :: config where
  "small_config = \<lparr>object_dirs = [parse_path ''/w/build''], binary_paths = [], excludes = [],
     base_modes = [(''asan'', ''absent''), (''msan'', ''absent'')], path_rules = [],
     report_path = parse_path ''/w/build-report.md''\<rparr>"

definition small_evidence :: evidence where
  "small_evidence = \<lparr>ev_references = {}, ev_other = [], ev_sections = {''.text'', ''.symtab''},
     ev_symbols_present = True\<rparr>"

definition small_files :: "inspected_file list" where
  "small_files = [(parse_path ''/w/build/a.o'', Object,
     [empty_unit\<lparr>unit_evidence := Some small_evidence\<rparr>])]"

text \<open>The steps of its run, one by one.\<close>

lemma small_location: "config_location small_system None = parse_path ''/w/check-build.ini''"
  by code_simp

lemma small_read: "read_config small_system (parse_path ''/w/check-build.ini'') = Inr small_config"
  by code_simp

lemma small_search:
  "search small_system (parse_path ''/w/check-build.ini'') small_config =
     Inr ([(parse_path ''/w/build/a.o'', Object)], [])"
  by code_simp

lemma small_name: "\<not> artifact_name (report_path small_config)"
  by code_simp

lemma small_inputs:
  "report_path small_config \<notin> set (inputs_of small_system (parse_path ''/w/check-build.ini'') small_config
     [(parse_path ''/w/build/a.o'', Object)])"
  by code_simp

lemma small_output:
  "check_output (sys_os small_system) (report_path small_config)
     (resolve small_system (report_path small_config))
     (inputs_of small_system (parse_path ''/w/check-build.ini'') small_config
        [(parse_path ''/w/build/a.o'', Object)]) = Inr ()"
proof -
  have os: "sys_os small_system = small_os" by (simp add: small_system_def)
  have r: "resolve small_system p = p" for p
    by (simp add: resolve_def os small_os_def)
  have "path_text (report_path small_config) = ''/w/build-report.md''" by code_simp
  then have e: "exists small_os (report_path small_config) = Inr False"
    by (simp add: exists_def small_os_def)
  have "same_as_any small_os (report_path small_config) ps = Inr False" for ps
    by (induction ps) (simp_all add: e)
  with e small_name small_inputs show ?thesis
    unfolding check_output_def os r by simp
qed

lemma small_parse: "parse_elf bare_elf [] = Inr (empty_unit\<lparr>unit_evidence := Some small_evidence\<rparr>)"
  by code_simp

lemma small_inspection:
  "inspect_all (sys_readelf small_system) [(parse_path ''/w/build/a.o'', Object)] = Inr small_files"
proof -
  have "diagnostic \<lparr>returncode = 0, stdout = bare_elf, stderr = []\<rparr> = []"
    by (simp add: diagnostic_def strip_def)
  then show ?thesis
    by (simp add: small_system_def small_files_def artifact_units_def inspect_def file_units_def
        member_unit_def small_parse)
qed

lemma small_run:
  "completes small_system (config_location small_system None) small_config
     [(parse_path ''/w/build/a.o'', Object)] [] small_files"
proof -
  have "sys_has_readelf small_system" by (simp add: small_system_def)
  then show ?thesis
    unfolding completes_def small_location
    using small_read small_search small_output small_inspection by blast
qed

lemma small_run_clean:
  "failing_files (config_location small_system None) small_config small_files = []"
proof -
  have fin: "finite_evidence small_evidence" by (simp add: finite_evidence_def small_evidence_def)
  have c: "map_of CHECKS ''asan'' = Some (Some asan_rx, Some (chars ''asan_globals''))"
    "map_of CHECKS ''msan'' = Some (Some msan_rx, None)"
    by (simp_all add: CHECKS_def)
  have s: "item_state small_evidence ''asan'' = Not_Seen" "item_state small_evidence ''msan'' = Not_Seen"
    using detect_state [OF fin c(1)] detect_state [OF fin c(2)]
    by (simp_all add: item_state_def some_match_def small_evidence_def fullmatch_lang)
  have "\<not> item_violates (base_modes small_config) small_evidence check" for check
    using s by (auto simp: item_violates_def policy_failed_def mode_of_def small_config_def)
  moreover have "effective_modes n m ms [] = ms" for n m ms by simp
  ultimately show ?thesis
    by (simp add: failing_files_def small_files_def file_fails_def unit_fails_def unit_violates_def
        small_config_def empty_unit_def)
qed

theorem exit_zero_guarantees_evidence_witness:
  "fst (checker_main small_system None) = Inr 0 \<and>
   (\<exists>cfg arts l. completes small_system (config_location small_system None) cfg arts [] l \<and> l \<noteq> [])"
proof -
  have "saved small_system small_config" by (simp add: saved_def small_system_def Let_def)
  moreover have "list_all fully_inspected small_files"
    by (simp add: small_files_def fully_inspected_def empty_unit_def)
  ultimately have z: "fst (checker_main small_system None) = Inr 0"
    unfolding checker_main_zero using small_run small_run_clean by blast
  have "readelf_explains small_system" by (simp add: readelf_explains_def small_system_def)
  from exit_zero_guarantees_evidence [OF z this] z show ?thesis by blast
qed

end
