(* ===== verification/Report_Details.thy ===== *)
theory Report_Details
  imports Report_Facts
begin

text \<open>
  The last part of the report, File details: the loops of \<open>make_report\<close> append to it
  only, and leave one complete block for every unit they visit.
\<close>

section \<open>The file details\<close>

text \<open>
  The block of a unit under File details: a fenced list with one line per check in the
  order of the checks, or the one line that says why there are none.
\<close>

definition item_block :: "string \<Rightarrow> options \<Rightarrow> (string \<times> options) list \<Rightarrow> inspected \<Rightarrow> string list" where
  "item_block name modes rules u =
     [''```text''] @
     (if unit_error u \<noteq> [] then [''  ERROR: '' @ unit_error u]
      else if unit_skipped u \<noteq> [] then [''  SKIPPED: '' @ unit_skipped u]
      else map (\<lambda>c. case detect c (the (unit_evidence u)) of (st, reason) \<Rightarrow>
             check_line c (mode_of (effective_modes name (unit_member u) modes rules) c) st reason)
           check_names) @
     [''```'']"

text \<open>The same block in terms of the states and the violations.\<close>

lemma item_block_spec:
  "item_block name modes rules u = [''```text''] @
     (if unit_error u \<noteq> [] then [''  ERROR: '' @ unit_error u]
      else if unit_skipped u \<noteq> [] then [''  SKIPPED: '' @ unit_skipped u]
      else map (\<lambda>c. let st = unit_state u c; m = mode_of (effective_modes name (unit_member u) modes rules) c
             in ''  '' @ ljust 18 c @ '' '' @ ljust 11 (state_text st) @ '' '' @
                snd (detect c (the (unit_evidence u))) @
                (if unit_violates name modes rules u c then ''; FAIL (expected '' @ m @ '')'' else []))
           check_names) @
     [''```'']"
  by (auto simp: item_block_def check_line_def Let_def split_beta unit_state_def item_state_def
      unit_violates_def item_violates_def is_code_def)

lemma fold_check_details:
  "details (fst (fold (check_item name item ms ev) cs x)) = details (fst x) @
     map (\<lambda>c. case detect c ev of (st, reason) \<Rightarrow> check_line c (mode_of ms c) st reason) cs"
proof (induction cs arbitrary: x)
  case (Cons c cs)
  have "details (fst (check_item name item ms ev c x)) = details (fst x) @
      [case detect c ev of (st, reason) \<Rightarrow> check_line c (mode_of ms c) st reason]"
    by (cases x) (simp add: check_item_def Let_def say_def split: prod.split)
  with Cons show ?case by simp
qed simp

lemma enter_member_details:
  "\<exists>heading. details (fst (enter_member name u t occ)) = details t @ heading"
  by (simp add: enter_member_def Let_def say_def)

lemma tally_unit_details:
  "\<exists>heading. details (unit_tally name modes rules u x) =
     details (fst x) @ heading @ item_block name modes rules u"
proof (cases x)
  case (fields t ff occ)
  obtain heading where "details (fst (enter_member name u t occ)) = details t @ heading"
    using enter_member_details by blast
  then show ?thesis
    by (intro exI [of _ "heading @ [[]]"])
      (simp add: fields tally_unit_def item_block_def Let_def split_beta say_def fold_check_details)
qed

lemma units_details:
  "\<exists>more. details (fst (fold (tally_unit name modes rules) us x)) = details (fst x) @ more \<and>
     list_all (\<lambda>u. sublist (item_block name modes rules u) more) us"
proof (induction us arbitrary: x)
  case (Cons u us)
  obtain h where h: "details (unit_tally name modes rules u x) =
      details (fst x) @ h @ item_block name modes rules u" using tally_unit_details by blast
  from Cons [of "tally_unit name modes rules u x"] obtain more where
    m: "details (fst (fold (tally_unit name modes rules) (u # us) x)) =
        (details (fst x) @ h @ item_block name modes rules u) @ more"
      "list_all (\<lambda>u. sublist (item_block name modes rules u) more) us"
    by (auto simp: h)
  then show ?case
    by (intro exI [of _ "h @ item_block name modes rules u @ more"])
      (auto simp: list_all_iff intro: sublist_left)
qed simp

lemma tally_file_details:
  "\<exists>more. details (tally_file rs cp modes rules f t) = details t @ more \<and>
     list_all (\<lambda>(n, u). sublist (item_block n modes rules u) more) (display_units cp f)"
proof -
  obtain p kind us where f: "f = (p, kind, us)" by (cases f)
  let ?n = "display_name cp p"
  let ?e = "enter_artifact ?n (path_text (rs p)) kind us t"
  have e: "\<exists>h. details ?e = details t @ h"
    by (simp add: enter_artifact_def Let_def say_def)
  then obtain h where h: "details ?e = details t @ h" ..
  obtain more where m: "details (fst (fold (tally_unit ?n modes rules) us (?e, False, []))) =
      details ?e @ more" "list_all (\<lambda>u. sublist (item_block ?n modes rules u) more) us"
    using units_details [of ?n modes rules us "(?e, False, [])"] by auto
  have "details (tally_file rs cp modes rules f t) = details t @ h @ more"
    using m(1) h by (simp add: f tally_file_def tally_artifact_def split_beta)
  moreover have "list_all (\<lambda>(n, u). sublist (item_block n modes rules u) (h @ more)) (display_units cp f)"
    using m(2) by (auto simp: f display_units_def list_all_iff intro: sublist_left)
  ultimately show ?thesis by blast
qed

lemma final_details:
  "\<exists>more. details (final rs cp modes rules l t) = details t @ more \<and>
     list_all (\<lambda>(n, u). sublist (item_block n modes rules u) more) (items_of cp l)"
proof (induction l arbitrary: t)
  case (Cons f l)
  obtain h where h: "details (tally_file rs cp modes rules f t) = details t @ h"
    "list_all (\<lambda>(n, u). sublist (item_block n modes rules u) h) (display_units cp f)"
    using tally_file_details by blast
  obtain more where m: "details (final rs cp modes rules l (tally_file rs cp modes rules f t)) =
      details (tally_file rs cp modes rules f t) @ more"
    "list_all (\<lambda>(n, u). sublist (item_block n modes rules u) more) (items_of cp l)"
    using Cons by blast
  have "list_all (\<lambda>(n, u). sublist (item_block n modes rules u) (h @ more)) (items_of cp (f # l))"
  proof -
    have "items_of cp (f # l) = display_units cp f @ items_of cp l" by (simp add: items_of_def)
    with h(2) m(2) show ?thesis by (auto simp: list_all_iff intro: sublist_left sublist_right)
  qed
  with h(1) m(1) show ?case by (intro exI [of _ "h @ more"]) simp
qed (simp add: items_of_def)

lemma report_details: "sublist (details t) (report_lines cp modes n t)"
proof -
  have core: "sublist (details t) (xs @ details t)" for xs by simp
  show ?thesis unfolding report_lines_def by (rule core | rule sublist_left)+
qed

section \<open>Properties\<close>

text \<open>
  C22: no unit is left out of File details, and none is cut short: for every object, binary
  and archive member the report has a fenced block without gaps, with the error, the reason
  for skipping it, or one line per check in the order of the checks, each with the state and
  reason found in that unit and, where the rules for its name make it a failure, the mark
  FAIL with the expected mode.
\<close>

theorem details_list_every_item:
  "case inspect_all readelf arts of
     Inl e \<Rightarrow> make_report readelf rs arts errs modes cp rules = Inl e
   | Inr l \<Rightarrow> \<exists>ls n errs'.
       make_report readelf rs arts errs modes cp rules = Inr (join [newline] ls @ [newline], n, errs') \<and>
       list_all (\<lambda>(name, u). sublist ([''```text''] @
           (if unit_error u \<noteq> [] then [''  ERROR: '' @ unit_error u]
            else if unit_skipped u \<noteq> [] then [''  SKIPPED: '' @ unit_skipped u]
            else map (\<lambda>c. let st = unit_state u c; m = mode_of (effective_modes name (unit_member u) modes rules) c
                   in ''  '' @ ljust 18 c @ '' '' @ ljust 11 (state_text st) @ '' '' @
                      snd (detect c (the (unit_evidence u))) @
                      (if unit_violates name modes rules u c then ''; FAIL (expected '' @ m @ '')'' else []))
                 check_names) @
           [''```'']) ls) (items_of cp l)"
proof (cases "inspect_all readelf arts")
  case (Inl e)
  then show ?thesis by (simp add: make_report_def tally_artifacts_fold)
next
  case (Inr l)
  define t where "t = final rs cp modes rules l (start_tally errs)"
  let ?ls = "report_lines cp modes (length arts) t"
  have m: "make_report readelf rs arts errs modes cp rules =
      Inr (join [newline] ?ls @ [newline], failures t, error_list t)"
    using tally_artifacts_final [OF Inr] by (simp only: make_report_def t_def bind_result_Inr)
  obtain more where d: "details t = details (start_tally errs) @ more"
    "list_all (\<lambda>(n, u). sublist (item_block n modes rules u) more) (items_of cp l)"
    unfolding t_def using final_details by blast
  have "sublist more ?ls"
    using d(1) report_details [of t cp modes "length arts"]
    by (metis sublist_append_leftI sublist_order.order.trans)
  with d(2) have "list_all (\<lambda>(n, u). sublist (item_block n modes rules u) ?ls) (items_of cp l)"
    by (auto simp: list_all_iff intro: sublist_order.order.trans)
  then show ?thesis
    unfolding Inr sum.case
    by (intro exI [of _ ?ls] exI [of _ "failures t"] exI [of _ "error_list t"] conjI m)
      (simp only: item_block_spec)
qed

end
