(* ===== verification/Spec2Isabelle.thy ===== *)
theory Spec2Isabelle
  imports C_Decoder Corpus Replay_Answers Checker_Main Report_Details
begin

text \<open>
  A model of the tools of the Apache httpd fuzzing harness, and what makes them correct.

  THE PROGRAM. \<open>generate-interesting-corpus.py\<close> writes the seed inputs of the fuzzer. An
  input is a flag byte followed by one packet or, with the multipacket flag, by packets with
  a 16-bit length each. The fuzzer inside the server (\<open>decodeFuzzInput\<close> of \<open>fuzzer.c\<close>) and
  the replay tool (\<open>send-test-case.py\<close>) decode these files; the replay tool then sends the
  packets to a running server and waits where the flags ask for a response.
  \<open>build-check/check_build.py\<close> inspects the build with readelf and reports which
  instrumentation each object carries, by the expectations of an INI file; its exit status
  decides whether a build may be used. The file format is what ties the first three
  together: the root theory composes them (generator to server, generator to wire).

  SHARED THEORIES. \<open>Fuzz_Base\<close> has Python exceptions as values, computations that may raise
  as sums and the list lemmas; \<open>Py_Bytes\<close> and \<open>Py_Text\<close> what the tools use of bytes,
  integers and string formatting; \<open>Prefix_Codec\<close> the contract of length-prefixed formats, a
  locale that packet frames, HTTP/2 frames, ALPN names, TLS extensions and TLS records
  interpret; \<open>Py_Regex\<close> a backtracking matcher for the regular expressions of the checker,
  with their languages; \<open>Glob\<close> \<open>fnmatch.fnmatchcase\<close>; \<open>Posix_Path\<close> pure path arithmetic;
  \<open>Ini_File\<close> \<open>configparser\<close> with the settings the checker gives it.

  THE GENERATOR. \<open>Seed_Framing\<close> models \<open>request\<close>, \<open>raw\<close> and \<open>multipacket\<close>; \<open>Http2_Frames\<close>
  \<open>h2_frame\<close> and \<open>h2_request_headers\<close>, with a receiver for frames and for the part of HPACK
  that is written; \<open>Tls_Hello\<close> and \<open>Tls_Facts\<close> the TLS and SSLv2 builders, with a receiver
  that follows every length field; \<open>Corpus_Locals\<close> the variables of \<open>corpus_seeds\<close>, named
  with a leading \<open>cs_\<close>; \<open>Seeds_Http\<close>, \<open>Seeds_Modules\<close>, \<open>Seeds_Proxy\<close> and \<open>Seeds_Wire\<close> the 104
  entries of its dictionary, one definition per key; \<open>Corpus\<close> the dictionary and \<open>main\<close>.
  Shown: the builders succeed exactly in their ranges and their output is read back; the
  dictionary is built without raising and every entry decodes; the HTTP/2 seeds pass the
  frame layer of a server; the split TLS seeds carry the unsplit hello; the files written
  are the dictionary.

  THE DECODERS. \<open>Replay_Input\<close> models \<open>parse_fuzzer_input\<close>, \<open>C_Decoder\<close> the C function over
  wrapping 64-bit words, with a packet view as offset and size. Shown: the Python decoder
  inverts the generator, both decoders agree on every input whose size fits a \<open>size_t\<close>, no
  offset wraps around and every view lies inside the buffer.

  THE REPLAY SESSION. \<open>Replay_Session\<close> models the rest of \<open>send-test-case.py\<close> as state
  passing over a \<open>world\<close>: the contents of the file, the outcome of the host lookup and of
  each address, the faults of \<open>sendall\<close>, what arrives from the peer, and a log of every
  effect. \<open>Replay_Session_Facts\<close> shows what each operation appends to the log and from that
  what a whole run sends and ends with; \<open>Replay_Answers\<close> shows with total-correctness
  triples that a run with an answering peer reaches its end. A monitor over the log
  (\<open>gate_run\<close>) states that no packet leaves before its gate. The socket is used through the
  locale \<open>byte_stream\<close>, interpreted on the scripted socket.

  THE BUILD CHECKER. \<open>Checker_Config\<close> models \<open>load_config\<close> and \<open>effective_modes\<close>;
  \<open>Elf_Evidence\<close> \<open>parse_elf\<close>; \<open>Evidence_Checks\<close> the table of checks, \<open>detect\<close> and
  \<open>policy_failed\<close>; \<open>Unit_Inspection\<close> \<open>inspect\<close>; \<open>Build_Report\<close> \<open>make_report\<close> with all tallies
  and the whole text; \<open>Discovery\<close> \<open>discover\<close> with \<open>os.walk\<close>; \<open>Checker_Main\<close> \<open>main\<close>.
  \<open>Report_Facts\<close> and \<open>Report_Details\<close> show that the tallies are numbers of inspected items
  and that the printed lines state them, list every failing file and every item;
  \<open>Discovery\<close> that the artifacts found are the eligible files reachable from the roots and
  that no root is silently empty; \<open>Checker_Main\<close> the meaning of the exit statuses, what
  status 0 guarantees about the evidence, and that no input is overwritten.

  LOOPS AND BOUNDS. Loops over data are structural recursions or folds; the decoding loops
  end by the distance of the offset to the end of the input (for the C loop after a proof
  that the offset does not wrap), \<open>receive_response\<close> by the distance to its limit. Only the
  repetition of the regular expressions has fuel, the number of characters left: a round
  that takes nothing is not repeated, so it never runs out before the text does.

  PARAMETERS. \<open>gzip.compress\<close> is a function with the hypothesis \<open>gzip_sizes\<close> (longer than
  header and trailer, at most twice its input and 64 bytes), which a stored block meets;
  readelf, \<open>Path.resolve\<close>, the file system the checker looks at and the faults of its
  writes are fields of \<open>system\<close> and \<open>os\<close>: the answers about one state of the disk, so
  a file that changes during a run is outside the model. \<open>configparser\<close>, \<open>re\<close>, \<open>fnmatch\<close>,
  \<open>pathlib\<close> and the socket functions are models of the library as the code uses it
  (CPython 3.11 on Linux; a time limit must fit a signed 64-bit number of nanoseconds).

  LIMITS. Text has code points below 256. A float of the command line is a rational number,
  an infinity or NaN, without rounding. Argument syntax (argparse) is not modelled, the
  parsed options are the input. A \<open>sendall\<close> that fails may have sent a part of its packet,
  which the log does not show. Not modelled: the rest of \<open>fuzzer.c\<close> and \<open>covbridge.c\<close>
  (threads, shared memory and the libFuzzer driver inside httpd), the shell scripts, the
  configuration templates, and the tests.

  WHAT IT FOUND. \<open>h2_request_headers\<close> admits a path of 127 bytes that HPACK does not read;
  \<open>multipacket\<close> has no limit of 64 packets although both decoders do; \<open>tls_alpn\<close> checks
  for 65535 bytes where only 65379 fit a hello; an infinite \<open>--timeout\<close> passes the argument
  checks and ends in a traceback once the host has resolved. Each is stated as a theorem.
\<close>

section \<open>From the generator to the server\<close>

text \<open>
  C29: the decoder inside the server takes every seed of the corpus, whatever the
  compressor: the size of each seed fits a \<open>size_t\<close>, and the decoder returns the same
  flags and packets as the replay tool, between 1 and 64 of them, all inside the buffer.
\<close>

theorem corpus_accepted_by_server:
  assumes "gzip_sizes gz"
  shows "\<exists>seeds. corpus_seeds gz = Inr seeds \<and> length seeds = 104 \<and>
    (\<forall>(name, d) \<in> set seeds. length d < 2 ^ 64 \<and>
       (\<exists>inp fi. decodeFuzzInput (Some d) (of_nat (length d)) = Some inp \<and>
          parse_fuzzer_input d = Inr fi \<and> uint (in_flags inp) = flags fi \<and>
          map (view_bytes d) (in_packets inp) = packets fi \<and>
          1 \<le> length (in_packets inp) \<and> length (in_packets inp) \<le> C_MAX_PACKET_COUNT \<and>
          list_all (view_in_bounds d) (in_packets inp)))"
proof -
  obtain seeds where s: "corpus_seeds gz = Inr seeds"
    and n: "map fst seeds = map fst (corpus_entries gz)"
    and p: "list_all (\<lambda>s. seed_ok (Inr (snd s))) seeds"
    using corpus_seeds_built [OF assms] by metis
  have "length seeds = 104" using arg_cong [OF n, of length] by (simp add: corpus_entries_length)
  moreover have "length d < 2 ^ 64 \<and>
      (\<exists>inp fi. decodeFuzzInput (Some d) (of_nat (length d)) = Some inp \<and>
        parse_fuzzer_input d = Inr fi \<and> uint (in_flags inp) = flags fi \<and>
        map (view_bytes d) (in_packets inp) = packets fi \<and>
        1 \<le> length (in_packets inp) \<and> length (in_packets inp) \<le> C_MAX_PACKET_COUNT \<and>
        list_all (view_in_bounds d) (in_packets inp))"
    if "(name, d) \<in> set seeds" for name d
  proof -
    from p that have ok: "seed_ok (Inr d)" by (auto simp: list_all_iff)
    then have l: "length d < 2 ^ 64" using seed_ok_length [of d] by simp
    from ok obtain fi where fi: "parse_fuzzer_input d = Inr fi" by (rule seed_ok_decodes)
    with decoders_agree [OF l] obtain inp where
      i: "decodeFuzzInput (Some d) (of_nat (length d)) = Some inp"
      and "uint (in_flags inp) = flags fi" "map (view_bytes d) (in_packets inp) = packets fi" by auto
    with l fi decoded_views_in_bounds [OF l i] show ?thesis by auto
  qed
  ultimately show ?thesis using s by blast
qed

theorem corpus_accepted_by_server_witness:
  "\<exists>seeds. corpus_seeds stored_gzip = Inr seeds \<and> length seeds = 104 \<and>
    (\<forall>(name, d) \<in> set seeds. length d < 2 ^ 64 \<and>
       (\<exists>inp fi. decodeFuzzInput (Some d) (of_nat (length d)) = Some inp \<and>
          parse_fuzzer_input d = Inr fi \<and> uint (in_flags inp) = flags fi \<and>
          map (view_bytes d) (in_packets inp) = packets fi \<and>
          1 \<le> length (in_packets inp) \<and> length (in_packets inp) \<le> C_MAX_PACKET_COUNT \<and>
          list_all (view_in_bounds d) (in_packets inp)))"
  by (rule corpus_accepted_by_server [OF stored_gzip_sizes])

section \<open>From the generator to the wire\<close>

text \<open>
  C28: replaying a generated input of 1 to 64 packets. Whatever the peer and the network
  do, what is sent is a prefix of the packets given to \<open>multipacket\<close>, in order, behind
  the prelude if its flag is set, with every gate respected; status 0 means that all of
  them were sent, and fewer are sent only with a reported gate failure (status 2) or a
  reported error (status 1). If the peer answers the prelude and the gates and nothing else
  fails, the status is 0: exactly the generated packets are sent.
\<close>

theorem replay_sends_generated_packets:
  assumes "multipacket ps fl = Inr data" and "fl AND MULTIPACKET_FLAG \<noteq> 0"
    and "length ps \<le> MAX_PACKET_COUNT"
    and "check_arguments a = None" and "input_file w = Inr data"
    and "\<not> opt_raw a" and "opt_packet a = None" and "\<not> opt_dry_run a"
  shows "\<exists>new. log (snd (run_script a w)) = log w @ new \<and>
    session_log fl ps (fst (run_script a w)) new \<and>
    (cooperative a fl (length ps) w \<longrightarrow>
       fst (run_script a w) = 0 \<and> sends new = wire_packets fl ps)"
proof -
  have d: "decode_input a data = Inr \<lparr>flags = fl, packets = ps\<rparr>"
    using assms by (simp add: decode_input_def parse_multipacket flag_defs)
  have s: "selection a \<lparr>flags = fl, packets = ps\<rparr> = Some ps"
    using assms(7) by (simp add: selection_def)
  from run_exchange [OF assms(4,5) d s assms(8)] run_cooperative_log [OF assms(4,5) d s assms(8)]
  show ?thesis by auto
qed

theorem replay_sends_generated_packets_witness:
  "\<exists>data. multipacket [[0x47], [0x48]] 6 = Inr data \<and>
    (let w = answering_world [Data [0x48, 0x54], Quiet] data
     in fst (run_script default_arguments w) = 0 \<and>
        sends (log (snd (run_script default_arguments w))) = [[0x47], [0x48]])"
proof -
  obtain data where d: "multipacket [[0x47], [0x48]] 6 = Inr data"
    by (simp add: multipacket_Inr_iff frame_ok_def)
  let ?w = "answering_world [Data [0x48, 0x54], Quiet] data"
  have "check_arguments default_arguments = None" "input_file ?w = Inr data"
    "\<not> opt_raw default_arguments" "opt_packet default_arguments = None"
    "\<not> opt_dry_run default_arguments" "log ?w = []"
    by (simp_all add: check_arguments_def default_arguments_def answering_world_def)
  moreover have "(6 :: int) AND MULTIPACKET_FLAG \<noteq> 0" "length [[0x47 :: byte], [0x48]] \<le> MAX_PACKET_COUNT"
    by (simp_all add: flag_defs)
  moreover have "cooperative default_arguments 6 (length [[0x47 :: byte], [0x48]]) ?w"
    using default_times
    by (simp add: cooperative_def ready_def gates_def flag_defs answering_world_def
        default_arguments_def numeral_2_eq_2)
  moreover have "wire_packets 6 [[0x47], [0x48]] = [[0x47], [0x48]]"
    by (simp add: wire_packets_def flag_defs)
  ultimately show ?thesis
    using replay_sends_generated_packets [OF d, of default_arguments ?w] d by (auto simp: Let_def)
qed

end
